(* ===== verification/Prelude.thy ===== *)
theory Prelude
  imports Main "HOL-Library.Sublist" "HOL-Library.Char_ord" "HOL-Library.List_Lexorder"
    "HOL-Library.Word" "HOL-Library.Signed_Division"
begin

section \<open>Shared notions: results, Rust strings, machine integers, tables\<close>

text \<open>
  What every component of the model uses:
  \<^item> \<open>and_then\<close>, the early return of Rust's \<open>?\<close> operator on \<open>Result\<close>, and the lemmas that
    let \<open>simp\<close> walk through a handler;
  \<^item> the functions of Rust's \<open>str\<close> that the sources call. A Rust string is its UTF-8 bytes,
    a \<open>char\<close> of HOL is one byte, so \<open>length\<close> is \<open>str::len\<close>;
  \<^item> \<open>i64\<close> and \<open>i32\<close> values as \<open>int\<close> with their ranges, and the wrapping \<open>as i32\<close> cast;
  \<^item> lists of rows as tables, with the two statements that keep a key unique;
  \<^item> reachability under a step relation, with the locale that carries invariants.
\<close>

named_theorems result_simps \<open>unfolding early returns\<close>
named_theorems table_simps \<open>what the table statements do to a lookup\<close>

subsection \<open>Early return\<close>

definition and_then :: "'e + 'a \<Rightarrow> ('a \<Rightarrow> 'e + 'b) \<Rightarrow> 'e + 'b" where
  "and_then r k = (case r of Inl e \<Rightarrow> Inl e | Inr a \<Rightarrow> k a)"

definition ok_or :: "'a option \<Rightarrow> 'e \<Rightarrow> 'e + 'a" where
  "ok_or x e = (case x of None \<Rightarrow> Inl e | Some a \<Rightarrow> Inr a)"

lemma and_then_simps [simp, result_simps]:
  "and_then (Inl e) k = Inl e"
  "and_then (Inr a) k = k a"
  by (simp_all add: and_then_def)

lemma and_then_Inr_iff [result_simps]:
  "and_then r k = Inr b \<longleftrightarrow> (\<exists>a. r = Inr a \<and> k a = Inr b)"
  by (cases r) auto

lemma ok_or_simps [simp, result_simps]:
  "ok_or None e = Inl e"
  "ok_or (Some a) e = Inr a"
  by (simp_all add: ok_or_def)

lemma ok_or_Inr_iff [result_simps]: "ok_or x e = Inr a \<longleftrightarrow> x = Some a"
  by (cases x) auto

definition is_ok :: "'e + 'a \<Rightarrow> bool" where
  "is_ok r = (case r of Inl _ \<Rightarrow> False | Inr _ \<Rightarrow> True)"

lemma is_ok_simps [simp]: "is_ok (Inl e) = False" "is_ok (Inr a) = True"
  by (simp_all add: is_ok_def)

text \<open>Collecting the results of a loop whose body may return early.\<close>

fun map_results :: "('a \<Rightarrow> 'e + 'b) \<Rightarrow> 'a list \<Rightarrow> 'e + 'b list" where
  "map_results f [] = Inr []"
| "map_results f (x # xs) = and_then (f x) (\<lambda>y. and_then (map_results f xs) (\<lambda>ys. Inr (y # ys)))"

lemma map_results_Inr_iff:
  "map_results f xs = Inr ys \<longleftrightarrow> list_all2 (\<lambda>x y. f x = Inr y) xs ys"
  by (induction xs arbitrary: ys) (auto simp: and_then_Inr_iff list_all2_Cons1)

lemma map_results_Inr_length: "map_results f xs = Inr ys \<Longrightarrow> length ys = length xs"
  by (auto simp: map_results_Inr_iff dest: list_all2_lengthD)

lemma map_results_Inr_in:
  "map_results f xs = Inr ys \<Longrightarrow> y \<in> set ys \<Longrightarrow> \<exists>x \<in> set xs. f x = Inr y"
  by (induction xs arbitrary: ys) (auto simp: and_then_Inr_iff)

subsection \<open>Machine integers\<close>

type_synonym u8 = "8 word"
type_synonym u64 = "64 word"

definition i64_max :: int where "i64_max = 9223372036854775807"
definition i64_min :: int where "i64_min = -9223372036854775808"

definition in_i64 :: "int \<Rightarrow> bool" where
  "in_i64 n \<longleftrightarrow> i64_min \<le> n \<and> n \<le> i64_max"

definition in_i32 :: "int \<Rightarrow> bool" where
  "in_i32 n \<longleftrightarrow> -2147483648 \<le> n \<and> n \<le> 2147483647"

text \<open>Rust's \<open>x as i32\<close> keeps the low 32 bits.\<close>

definition as_i32 :: "int \<Rightarrow> int" where
  "as_i32 n = sint (word_of_int n :: 32 word)"

text \<open>\<open>a + b\<close> on \<open>i64\<close> in the release profile, which wraps.\<close>

definition i64_add :: "int \<Rightarrow> int \<Rightarrow> int" where
  "i64_add a b = sint (word_of_int (a + b) :: 64 word)"

lemma as_i32_in_i32: "in_i32 (as_i32 n)"
  using sint_range_size [of "word_of_int n :: 32 word"]
  by (simp add: in_i32_def as_i32_def word_size)

lemma as_i32_id: "in_i32 n \<Longrightarrow> as_i32 n = n"
  by (simp add: in_i32_def as_i32_def sint_sbintrunc' signed_take_bit_int_eq_self)

lemma i64_add_id: "in_i64 (a + b) \<Longrightarrow> i64_add a b = a + b"
  by (simp add: in_i64_def i64_add_def i64_min_def i64_max_def sint_sbintrunc'
      signed_take_bit_int_eq_self del: of_int_add)

subsection \<open>Rust strings\<close>

definition em_dash :: string where
  "em_dash = [char_of (226 :: nat), char_of (128 :: nat), char_of (148 :: nat)]"

fun strip_prefix :: "string \<Rightarrow> string \<Rightarrow> string option" where
  "strip_prefix [] s = Some s"
| "strip_prefix (p # ps) [] = None"
| "strip_prefix (p # ps) (c # cs) = (if p = c then strip_prefix ps cs else None)"

lemma strip_prefix_append [simp]: "strip_prefix p (p @ s) = Some s"
  by (induction p) auto

lemma strip_prefix_Some_iff: "strip_prefix p s = Some r \<longleftrightarrow> s = p @ r"
  by (induction p s rule: strip_prefix.induct) auto

text \<open>\<open>s.split_once(c)\<close>, \<open>s.splitn(n, c)\<close> and \<open>s.split(c)\<close>.\<close>

fun split_once :: "char \<Rightarrow> string \<Rightarrow> (string \<times> string) option" where
  "split_once sep [] = None"
| "split_once sep (c # cs) =
     (if c = sep then Some ([], cs)
      else (case split_once sep cs of None \<Rightarrow> None | Some (a, b) \<Rightarrow> Some (c # a, b)))"

fun splitn :: "nat \<Rightarrow> char \<Rightarrow> string \<Rightarrow> string list" where
  "splitn 0 sep s = []"
| "splitn (Suc 0) sep s = [s]"
| "splitn (Suc (Suc n)) sep s =
     (case split_once sep s of None \<Rightarrow> [s] | Some (a, b) \<Rightarrow> a # splitn (Suc n) sep b)"

fun split_all :: "char \<Rightarrow> string \<Rightarrow> string list" where
  "split_all sep [] = [[]]"
| "split_all sep (c # cs) =
     (if c = sep then [] # split_all sep cs
      else (case split_all sep cs of [] \<Rightarrow> [[c]] | p # ps \<Rightarrow> (c # p) # ps))"

lemma split_once_Some_iff:
  "split_once sep s = Some (a, b) \<longleftrightarrow> s = a @ sep # b \<and> sep \<notin> set a"
proof (induction s arbitrary: a)
  case Nil
  then show ?case by simp
next
  case (Cons c cs)
  show ?case
  proof (cases a)
    case Nil
    then show ?thesis by (auto split: option.splits)
  next
    case (Cons d ds)
    then show ?thesis using Cons.IH [of ds] by (cases "split_once sep cs") auto
  qed
qed

lemma split_once_None_iff: "split_once sep s = None \<longleftrightarrow> sep \<notin> set s"
  by (induction s) (auto split: option.splits)

lemma split_once_append [simp]: "sep \<notin> set a \<Longrightarrow> split_once sep (a @ sep # b) = Some (a, b)"
  by (simp add: split_once_Some_iff)

definition trim_start_matches :: "char \<Rightarrow> string \<Rightarrow> string" where
  "trim_start_matches c s = dropWhile (\<lambda>x. x = c) s"

definition trim_end_matches :: "char \<Rightarrow> string \<Rightarrow> string" where
  "trim_end_matches c s = rev (dropWhile (\<lambda>x. x = c) (rev s))"

lemma trim_end_matches_idem [simp]:
  "trim_end_matches c (trim_end_matches c s) = trim_end_matches c s"
  by (simp add: trim_end_matches_def)

lemma trim_end_matches_snoc [simp]: "trim_end_matches c (s @ [c]) = trim_end_matches c s"
  by (simp add: trim_end_matches_def)

text \<open>
  \<open>str::trim\<close> removes the characters with the Unicode property \<open>White_Space\<close>. They are listed
  here by their UTF-8 encodings: six ASCII characters, then U+0085, U+00A0, U+1680,
  U+2000 to U+200A, U+2028, U+2029, U+202F, U+205F and U+3000.
\<close>

definition unicode_ws :: "string list" where
  "unicode_ws = map (map char_of)
     ([[9], [10], [11], [12], [13], [32], [194, 133], [194, 160], [225, 154, 128 :: nat]]
      @ map (\<lambda>n. [226, 128, n]) [128..<139]
      @ [[226, 128, 168], [226, 128, 169], [226, 128, 175], [226, 129, 159], [227, 128, 128]])"

definition ws_len :: "string list \<Rightarrow> string \<Rightarrow> nat" where
  "ws_len toks s = (case find (\<lambda>t. t \<noteq> [] \<and> prefix t s) toks of None \<Rightarrow> 0 | Some t \<Rightarrow> length t)"

lemma ws_len_Nil [simp]: "ws_len toks [] = 0"
  by (auto simp: ws_len_def find_Some_iff split: option.splits)

function drop_ws :: "string list \<Rightarrow> string \<Rightarrow> string" where
  "drop_ws toks s = (case ws_len toks s of 0 \<Rightarrow> s | Suc n \<Rightarrow> drop_ws toks (drop (Suc n) s))"
  by pat_completeness auto
termination
proof (relation "measure (\<lambda>(toks, s). length s)")
  fix toks :: "string list" and s n
  assume "ws_len toks s = Suc n"
  then have "s \<noteq> []" by (cases s) auto
  then show "((toks, drop (Suc n) s), toks, s) \<in> measure (\<lambda>(toks, s). length s)"
    by simp
qed simp

declare drop_ws.simps [simp del]

definition trim :: "string \<Rightarrow> string" where
  "trim s = rev (drop_ws (map rev unicode_ws) (rev (drop_ws unicode_ws s)))"

lemma drop_ws_suffix: "\<exists>p. s = p @ drop_ws toks s"
proof (induction toks s rule: drop_ws.induct)
  case (1 toks s)
  show ?case
  proof (cases "ws_len toks s")
    case 0
    then show ?thesis by (subst drop_ws.simps) simp
  next
    case (Suc n)
    with "1.IH" obtain p where "drop (Suc n) s = p @ drop_ws toks (drop (Suc n) s)" by blast
    then have "s = (take (Suc n) s @ p) @ drop_ws toks (drop (Suc n) s)"
      by (metis append.assoc append_take_drop_id)
    with Suc show ?thesis by (subst drop_ws.simps) (auto intro: exI [of _ "take (Suc n) s @ p"])
  qed
qed

lemma drop_ws_done [simp]: "ws_len toks (drop_ws toks s) = 0"
proof (induction toks s rule: drop_ws.induct)
  case (1 toks s)
  then show ?case by (subst drop_ws.simps) (cases "ws_len toks s"; simp)
qed

lemma drop_ws_fixed: "ws_len toks s = 0 \<Longrightarrow> drop_ws toks s = s"
  by (subst drop_ws.simps) simp

lemma ws_len_zero_iff: "ws_len toks s = 0 \<longleftrightarrow> (\<forall>t \<in> set toks. t \<noteq> [] \<longrightarrow> \<not> prefix t s)"
  by (fastforce simp: ws_len_def find_None_iff find_Some_iff in_set_conv_nth split: option.splits)

lemma trim_idem [simp]: "trim (trim s) = trim s"
proof -
  let ?rt = "map rev unicode_ws"
  define a where "a = drop_ws unicode_ws s"
  define b where "b = drop_ws ?rt (rev a)"
  obtain p where "rev a = p @ b" using drop_ws_suffix [of "rev a" ?rt] by (auto simp: b_def)
  then have "a = rev b @ rev p" by (metis rev_append rev_rev_ident)
  then have pre: "prefix (rev b) a" by simp
  have "ws_len unicode_ws (rev b) = 0"
    using drop_ws_done [of unicode_ws s] prefix_order.order_trans [OF _ pre]
    unfolding ws_len_zero_iff a_def by blast
  then have "drop_ws unicode_ws (rev b) = rev b" by (rule drop_ws_fixed)
  moreover have "drop_ws ?rt b = b" by (rule drop_ws_fixed) (simp add: b_def)
  ultimately show ?thesis by (simp add: trim_def a_def [symmetric] b_def [symmetric])
qed

text \<open>A string of printable ASCII characters other than the space is its own trim.\<close>

definition is_graph :: "char \<Rightarrow> bool" where
  "is_graph c \<longleftrightarrow> 33 \<le> (of_char c :: nat) \<and> (of_char c :: nat) \<le> 126"

lemma unicode_ws_bytes: "\<forall>t \<in> set unicode_ws. \<forall>c \<in> set t. \<not> is_graph c"
  by (simp add: unicode_ws_def is_graph_def upt_rec)

lemma trim_graph: "list_all is_graph s \<Longrightarrow> trim s = s"
proof -
  assume s: "list_all is_graph s"
  have "ws_len toks s' = 0" if "\<forall>t \<in> set toks. \<forall>c \<in> set t. \<not> is_graph c" "list_all is_graph s'"
    for toks s'
    using that by (fastforce simp: ws_len_zero_iff prefix_def list_all_iff neq_Nil_conv)
  then have "drop_ws unicode_ws s = s" "drop_ws (map rev unicode_ws) (rev s) = rev s"
    using s unicode_ws_bytes by (auto intro!: drop_ws_fixed simp: list_all_iff)
  then show ?thesis by (simp add: trim_def)
qed

definition ascii_lower :: "char \<Rightarrow> char" where
  "ascii_lower c =
     (let n = of_char c :: nat in if 65 \<le> n \<and> n \<le> 90 then char_of (n + 32) else c)"

definition to_ascii_lowercase :: "string \<Rightarrow> string" where
  "to_ascii_lowercase s = map ascii_lower s"

definition str_contains :: "string \<Rightarrow> string \<Rightarrow> bool" where
  "str_contains s sub = sublist sub s"

text \<open>\<open>s.parse::<i64>()\<close>: an optional sign, then at least one digit, and no overflow.\<close>

definition is_ascii_digit :: "char \<Rightarrow> bool" where
  "is_ascii_digit c \<longleftrightarrow> 48 \<le> (of_char c :: nat) \<and> (of_char c :: nat) \<le> 57"

definition digits_value :: "string \<Rightarrow> int" where
  "digits_value ds = foldl (\<lambda>n c. 10 * n + (of_char c - 48)) 0 ds"

definition parse_i64 :: "string \<Rightarrow> int option" where
  "parse_i64 s =
     (let (neg, ds) = (case s of [] \<Rightarrow> (False, [])
                       | c # cs \<Rightarrow> if c = CHR ''-'' then (True, cs)
                                  else if c = CHR ''+'' then (False, cs) else (False, s));
          n = (if neg then - digits_value ds else digits_value ds)
      in if ds \<noteq> [] \<and> list_all is_ascii_digit ds \<and> in_i64 n then Some n else None)"

fun show_nat :: "nat \<Rightarrow> string" where
  "show_nat n = (if n < 10 then [char_of (48 + n)]
                 else show_nat (n div 10) @ [char_of (48 + n mod 10)])"

declare show_nat.simps [simp del]

definition show_int :: "int \<Rightarrow> string" where
  "show_int i = (if i < 0 then CHR ''-'' # show_nat (nat (- i)) else show_nat (nat i))"

lemma show_nat_digits: "list_all is_ascii_digit (show_nat n)"
proof (induction n rule: show_nat.induct)
  case (1 n)
  have "is_ascii_digit (char_of (48 + k))" if "k < 10" for k :: nat
    using that by (simp add: is_ascii_digit_def)
  with "1" show ?case by (subst show_nat.simps) auto
qed

lemma show_nat_nonempty [simp]: "show_nat n \<noteq> []"
  by (subst show_nat.simps) simp

lemma digits_value_snoc: "digits_value (ds @ [c]) = 10 * digits_value ds + (of_char c - 48)"
  by (simp add: digits_value_def)

lemma digits_value_show_nat: "digits_value (show_nat n) = int n"
proof (induction n rule: show_nat.induct)
  case (1 n)
  have digit: "(of_char (char_of (48 + k) :: char) :: int) = 48 + int k" if "k < 10" for k :: nat
  proof -
    have "(of_char (char_of (48 + k) :: char) :: nat) = 48 + k"
      using that by simp
    then show ?thesis by (metis of_nat_of_char of_nat_add of_nat_numeral)
  qed
  show ?case
  proof (cases "n < 10")
    case True
    then show ?thesis
      by (subst show_nat.simps) (simp add: digits_value_def digit)
  next
    case False
    with "1" have ih: "digits_value (show_nat (n div 10)) = int (n div 10)" by blast
    have "digits_value (show_nat n) = 10 * int (n div 10) + int (n mod 10)"
      using False ih by (subst show_nat.simps) (simp add: digits_value_snoc digit)
    also have "\<dots> = int n"
      using mult_div_mod_eq [of 10 n] by (metis of_nat_add of_nat_mult of_nat_numeral)
    finally show ?thesis .
  qed
qed

lemma show_nat_hd: "\<exists>c cs. show_nat n = c # cs \<and> is_ascii_digit c"
  using show_nat_digits [of n] by (cases "show_nat n") auto

theorem parse_show_int: "in_i64 i \<Longrightarrow> parse_i64 (show_int i) = Some i"
proof (cases "i < 0")
  case True
  assume "in_i64 i"
  with True show ?thesis
    by (simp add: parse_i64_def show_int_def digits_value_show_nat show_nat_digits)
next
  case False
  assume "in_i64 i"
  obtain c cs where c: "show_nat (nat i) = c # cs" "is_ascii_digit c"
    using show_nat_hd by blast
  then have "c \<noteq> CHR ''-''" "c \<noteq> CHR ''+''" by (auto simp: is_ascii_digit_def)
  with c False \<open>in_i64 i\<close> digits_value_show_nat [of "nat i"] show_nat_digits [of "nat i"]
  show ?thesis by (simp add: parse_i64_def show_int_def)
qed

lemma show_int_no_sep:
  "c \<noteq> CHR ''-'' \<Longrightarrow> \<not> is_ascii_digit c \<Longrightarrow> c \<notin> set (show_int i)"
  using show_nat_digits by (auto simp: show_int_def list_all_iff)

lemma colon_notin_show_int [simp]: "CHR '':'' \<notin> set (show_int i)"
  by (rule show_int_no_sep) (simp_all add: is_ascii_digit_def)

end
