(* ===== verification/Json.thy ===== *)
theory Json
  imports Prelude
begin

section \<open>JSON values\<close>

text \<open>
  \<open>serde_json::Value\<close> with the constructors the sources match on and the accessors they call.
  A number is one of serde's three representations: a \<open>u64\<close>, a negative \<open>i64\<close>, or a finite
  \<open>f64\<close>, written here as \<open>mantissa * 2 ^ exponent\<close>. An object is the list of its members.
\<close>

datatype jnum = PosInt u64 | NegInt "64 word" | JFloat int int

datatype json =
    JNull
  | JBool bool
  | JNum jnum
  | JStr string
  | JArr "json list"
  | JObj "(string \<times> json) list"

fun as_bool :: "json \<Rightarrow> bool option" where
  "as_bool (JBool b) = Some b"
| "as_bool _ = None"

fun as_str :: "json \<Rightarrow> string option" where
  "as_str (JStr s) = Some s"
| "as_str _ = None"

fun as_array :: "json \<Rightarrow> json list option" where
  "as_array (JArr xs) = Some xs"
| "as_array _ = None"

fun num_as_i64 :: "jnum \<Rightarrow> int option" where
  "num_as_i64 (PosInt w) = (if uint w \<le> i64_max then Some (uint w) else None)"
| "num_as_i64 (NegInt w) = Some (sint w)"
| "num_as_i64 (JFloat _ _) = None"

fun as_i64 :: "json \<Rightarrow> int option" where
  "as_i64 (JNum n) = num_as_i64 n"
| "as_i64 _ = None"

fun as_u64 :: "json \<Rightarrow> nat option" where
  "as_u64 (JNum (PosInt w)) = Some (unat w)"
| "as_u64 _ = None"

text \<open>\<open>v.get(k)\<close> and \<open>v[k]\<close>, which is \<open>Null\<close> for a missing member or a non-object.\<close>

fun json_get :: "json \<Rightarrow> string \<Rightarrow> json option" where
  "json_get (JObj ms) k = map_of ms k"
| "json_get _ _ = None"

definition json_at :: "json \<Rightarrow> string \<Rightarrow> json" where
  "json_at v k = (case json_get v k of None \<Rightarrow> JNull | Some x \<Rightarrow> x)"

text \<open>\<open>Value::from\<close> on an \<open>i64\<close>.\<close>

definition json_of_i64 :: "int \<Rightarrow> json" where
  "json_of_i64 n = JNum (if n < 0 then NegInt (word_of_int n) else PosInt (word_of_int n))"

text \<open>
  \<open>num.as_f64().map(|f| f as i64)\<close>: the cast truncates towards zero and saturates. A \<open>u64\<close> that
  is no \<open>i64\<close> is at least \<open>2 ^ 63\<close>, so is its nearest \<open>f64\<close>, and the cast saturates.
\<close>

definition saturate_i64 :: "int \<Rightarrow> int" where
  "saturate_i64 n = max i64_min (min i64_max n)"

fun num_as_f64_as_i64 :: "jnum \<Rightarrow> int" where
  "num_as_f64_as_i64 (PosInt w) = saturate_i64 (uint w)"
| "num_as_f64_as_i64 (NegInt w) = sint w"
| "num_as_f64_as_i64 (JFloat m e) =
     saturate_i64 (if 0 \<le> e then m * 2 ^ nat e else m sdiv (2 ^ nat (- e)))"

lemma sint_in_i64: "in_i64 (sint (w :: 64 word))"
  using sint_range_size [of w] by (simp add: in_i64_def i64_min_def i64_max_def word_size)

lemma as_i64_in_i64: "as_i64 v = Some n \<Longrightarrow> in_i64 n"
proof (induction v rule: as_i64.induct)
  case (1 n')
  then show ?case
  proof (cases n')
    case (PosInt w)
    with 1 show ?thesis
      using order_trans [OF _ uint_ge_0 [of w], of i64_min]
      by (auto simp: in_i64_def i64_min_def split: if_splits)
  qed (auto simp: sint_in_i64)
qed simp_all

lemma saturate_in_i64: "in_i64 (saturate_i64 n)"
  by (simp add: in_i64_def saturate_i64_def i64_min_def i64_max_def)

lemma as_i64_json_of_i64 [simp]:
  assumes "in_i64 n" shows "as_i64 (json_of_i64 n) = Some n"
proof (cases "n < 0")
  case True
  with assms show ?thesis
    by (simp add: json_of_i64_def in_i64_def i64_min_def i64_max_def sint_sbintrunc'
        signed_take_bit_int_eq_self)
next
  case False
  with assms show ?thesis
    by (simp add: json_of_i64_def in_i64_def i64_min_def i64_max_def uint_word_of_int)
qed

lemma json_of_i64_other [simp]:
  "as_bool (json_of_i64 n) = None" "as_str (json_of_i64 n) = None"
  "as_array (json_of_i64 n) = None"
  by (simp_all add: json_of_i64_def)

lemma as_bool_Some_iff: "as_bool v = Some b \<longleftrightarrow> v = JBool b"
  by (cases v) auto

lemma as_str_Some_iff: "as_str v = Some s \<longleftrightarrow> v = JStr s"
  by (cases v) auto

lemma as_array_Some_iff: "as_array v = Some xs \<longleftrightarrow> v = JArr xs"
  by (cases v) auto

end
