(* ===== verification/Rule_Model.thy ===== *)
theory Rule_Model
  imports Json
begin

section \<open>The rule tree and the facts it is evaluated on (\<open>models/\<close>)\<close>

text \<open>
  \<open>condition.rs\<close>: the 21 targets, their kinds, the 11 operators, which operator is valid for
  which kind, and the keys both are stored under. \<open>rule.rs\<close>: a rule tree is an OR of AND-groups.
  \<open>facts.rs\<close>: what is known of a viewer and a Bluesky account. The last part is the JSON form
  that \<open>serde\<close> derives for a stored tree (\<open>role_links.rule_tree\<close>).
\<close>

datatype target_kind = KBool | KInt | KString

datatype condition_target =
    IsFollower | FollowAgeDays | IsFollowedBack | IsMutual
  | LikedPostsCount | RepostedPostsCount | RepliedPostsCount
  | IsOnList | IsOnStarterPack
  | AccountAgeDays | PostsCount | FollowersCount | FollowsCount
  | Handle | HandleDomain | HasCustomDomain | DisplayName | Description
  | HasAvatar | HasBanner | PdsHost

fun target_kind_of :: "condition_target \<Rightarrow> target_kind" where
  "target_kind_of IsFollower = KBool"
| "target_kind_of IsFollowedBack = KBool"
| "target_kind_of IsMutual = KBool"
| "target_kind_of HasCustomDomain = KBool"
| "target_kind_of HasAvatar = KBool"
| "target_kind_of HasBanner = KBool"
| "target_kind_of FollowAgeDays = KInt"
| "target_kind_of LikedPostsCount = KInt"
| "target_kind_of RepostedPostsCount = KInt"
| "target_kind_of RepliedPostsCount = KInt"
| "target_kind_of AccountAgeDays = KInt"
| "target_kind_of PostsCount = KInt"
| "target_kind_of FollowersCount = KInt"
| "target_kind_of FollowsCount = KInt"
| "target_kind_of IsOnList = KString"
| "target_kind_of IsOnStarterPack = KString"
| "target_kind_of Handle = KString"
| "target_kind_of HandleDomain = KString"
| "target_kind_of DisplayName = KString"
| "target_kind_of Description = KString"
| "target_kind_of PdsHost = KString"

fun target_as_str :: "condition_target \<Rightarrow> string" where
  "target_as_str IsFollower = ''is_follower''"
| "target_as_str FollowAgeDays = ''follow_age_days''"
| "target_as_str IsFollowedBack = ''is_followed_back''"
| "target_as_str IsMutual = ''is_mutual''"
| "target_as_str LikedPostsCount = ''liked_posts_count''"
| "target_as_str RepostedPostsCount = ''reposted_posts_count''"
| "target_as_str RepliedPostsCount = ''replied_posts_count''"
| "target_as_str IsOnList = ''is_on_list''"
| "target_as_str IsOnStarterPack = ''is_on_starter_pack''"
| "target_as_str AccountAgeDays = ''account_age_days''"
| "target_as_str PostsCount = ''posts_count''"
| "target_as_str FollowersCount = ''followers_count''"
| "target_as_str FollowsCount = ''follows_count''"
| "target_as_str Handle = ''handle''"
| "target_as_str HandleDomain = ''handle_domain''"
| "target_as_str HasCustomDomain = ''has_custom_domain''"
| "target_as_str DisplayName = ''display_name''"
| "target_as_str Description = ''description''"
| "target_as_str HasAvatar = ''has_avatar''"
| "target_as_str HasBanner = ''has_banner''"
| "target_as_str PdsHost = ''pds_host''"

definition target_from_key :: "string \<Rightarrow> condition_target option" where
  "target_from_key s =
    (if s = ''is_follower'' then Some IsFollower
     else if s = ''follow_age_days'' then Some FollowAgeDays
     else if s = ''is_followed_back'' then Some IsFollowedBack
     else if s = ''is_mutual'' then Some IsMutual
     else if s = ''liked_posts_count'' then Some LikedPostsCount
     else if s = ''reposted_posts_count'' then Some RepostedPostsCount
     else if s = ''replied_posts_count'' then Some RepliedPostsCount
     else if s = ''is_on_list'' then Some IsOnList
     else if s = ''is_on_starter_pack'' then Some IsOnStarterPack
     else if s = ''account_age_days'' then Some AccountAgeDays
     else if s = ''posts_count'' then Some PostsCount
     else if s = ''followers_count'' then Some FollowersCount
     else if s = ''follows_count'' then Some FollowsCount
     else if s = ''handle'' then Some Handle
     else if s = ''handle_domain'' then Some HandleDomain
     else if s = ''has_custom_domain'' then Some HasCustomDomain
     else if s = ''display_name'' then Some DisplayName
     else if s = ''description'' then Some Description
     else if s = ''has_avatar'' then Some HasAvatar
     else if s = ''has_banner'' then Some HasBanner
     else if s = ''pds_host'' then Some PdsHost
     else None)"

datatype condition_operator = Eq | Neq | Gt | Gte | Lt | Lte | Between | Contains | Regex | In | NotIn

fun operator_as_str :: "condition_operator \<Rightarrow> string" where
  "operator_as_str Eq = ''eq''"
| "operator_as_str Neq = ''neq''"
| "operator_as_str Gt = ''gt''"
| "operator_as_str Gte = ''gte''"
| "operator_as_str Lt = ''lt''"
| "operator_as_str Lte = ''lte''"
| "operator_as_str Between = ''between''"
| "operator_as_str Contains = ''contains''"
| "operator_as_str Regex = ''regex''"
| "operator_as_str In = ''in''"
| "operator_as_str NotIn = ''not_in''"

definition operator_from_key :: "string \<Rightarrow> condition_operator option" where
  "operator_from_key s =
    (if s = ''eq'' then Some Eq
     else if s = ''neq'' then Some Neq
     else if s = ''gt'' then Some Gt
     else if s = ''gte'' then Some Gte
     else if s = ''lt'' then Some Lt
     else if s = ''lte'' then Some Lte
     else if s = ''between'' then Some Between
     else if s = ''contains'' then Some Contains
     else if s = ''regex'' then Some Regex
     else if s = ''in'' then Some In
     else if s = ''not_in'' then Some NotIn
     else None)"

fun valid_for :: "condition_operator \<Rightarrow> target_kind \<Rightarrow> bool" where
  "valid_for op KBool = (op \<in> {Eq})"
| "valid_for op KInt = (op \<in> {Eq, Neq, Gt, Gte, Lt, Lte, Between})"
| "valid_for op KString = (op \<in> {Eq, Neq, Contains, Regex, In, NotIn})"

record condition =
  c_target :: condition_target
  c_operator :: condition_operator
  c_value :: json
  c_value_end :: "json option"

record condition_group =
  conditions :: "condition list"

record rule_tree =
  grant_on_any_relation :: bool
  groups :: "condition_group list"

definition max_groups :: nat where "max_groups = 8"
definition max_conditions_per_group :: nat where "max_conditions_per_group = 12"

definition default_rule_tree :: rule_tree where
  "default_rule_tree = \<lparr>grant_on_any_relation = False, groups = []\<rparr>"

text \<open>Instants are microseconds since the epoch, the resolution of \<open>TIMESTAMPTZ\<close>.\<close>

type_synonym instant = int

record facts =
  f_is_follower :: bool
  f_followed_at :: "instant option"
  f_is_followed_back :: bool
  f_liked_posts_count :: int
  f_reposted_posts_count :: int
  f_replied_posts_count :: int
  f_handle :: string
  f_handle_domain :: "string option"
  f_has_custom_domain :: bool
  f_display_name :: "string option"
  f_description :: "string option"
  f_has_avatar :: bool
  f_has_banner :: bool
  f_posts_count :: int
  f_followers_count :: int
  f_follows_count :: int
  f_bsky_created_at :: "instant option"
  f_pds_host :: "string option"

definition f_is_mutual :: "facts \<Rightarrow> bool" where
  "f_is_mutual f = (f_is_follower f \<and> f_is_followed_back f)"

lemma target_key_roundtrip [simp]: "target_from_key (target_as_str t) = Some t"
  by (cases t) (simp_all add: target_from_key_def)

lemma target_from_key_Some: "target_from_key s = Some t \<Longrightarrow> s = target_as_str t"
  by (auto simp: target_from_key_def split: if_splits)

lemma operator_key_roundtrip [simp]: "operator_from_key (operator_as_str op) = Some op"
  by (cases op) (simp_all add: operator_from_key_def)

lemma operator_from_key_Some: "operator_from_key s = Some op \<Longrightarrow> s = operator_as_str op"
  by (auto simp: operator_from_key_def split: if_splits)

subsection \<open>The stored JSON of a tree\<close>

text \<open>
  \<open>#[derive(Serialize, Deserialize)]\<close> with the attributes of the sources: snake-case variant
  names, \<open>value_end\<close> skipped when \<open>None\<close> and defaulted when missing or \<open>null\<close>, the two fields
  of \<open>RuleTree\<close> and the field of \<open>ConditionGroup\<close> defaulted, unknown members ignored.
  Only the object form is decoded: the column holds what \<open>json_of_tree\<close> wrote or its default.
\<close>

definition json_of_condition :: "condition \<Rightarrow> json" where
  "json_of_condition c = JObj
     ([(''target'', JStr (target_as_str (c_target c))),
       (''operator'', JStr (operator_as_str (c_operator c))),
       (''value'', c_value c)]
      @ (case c_value_end c of None \<Rightarrow> [] | Some v \<Rightarrow> [(''value_end'', v)]))"

definition json_of_group :: "condition_group \<Rightarrow> json" where
  "json_of_group g = JObj [(''conditions'', JArr (map json_of_condition (conditions g)))]"

definition json_of_tree :: "rule_tree \<Rightarrow> json" where
  "json_of_tree t = JObj
     [(''grant_on_any_relation'', JBool (grant_on_any_relation t)),
      (''groups'', JArr (map json_of_group (groups t)))]"

fun map_options :: "('a \<Rightarrow> 'b option) \<Rightarrow> 'a list \<Rightarrow> 'b list option" where
  "map_options f [] = Some []"
| "map_options f (x # xs) =
     (case f x of None \<Rightarrow> None
      | Some y \<Rightarrow> (case map_options f xs of None \<Rightarrow> None | Some ys \<Rightarrow> Some (y # ys)))"

lemma map_options_map: "(\<And>x. x \<in> set xs \<Longrightarrow> f (g x) = Some (h x)) \<Longrightarrow>
    map_options f (map g xs) = Some (map h xs)"
  by (induction xs) auto

fun decode_condition :: "json \<Rightarrow> condition option" where
  "decode_condition (JObj ms) =
     (case (map_of ms ''target'', map_of ms ''operator'', map_of ms ''value'') of
        (Some (JStr t), Some (JStr p), Some v) \<Rightarrow>
          (case (target_from_key t, operator_from_key p) of
             (Some t', Some p') \<Rightarrow>
               Some \<lparr>c_target = t', c_operator = p', c_value = v,
                     c_value_end = (case map_of ms ''value_end'' of
                                      None \<Rightarrow> None | Some JNull \<Rightarrow> None | Some e \<Rightarrow> Some e)\<rparr>
           | _ \<Rightarrow> None)
      | _ \<Rightarrow> None)"
| "decode_condition _ = None"

fun decode_group :: "json \<Rightarrow> condition_group option" where
  "decode_group (JObj ms) =
     (case map_of ms ''conditions'' of
        None \<Rightarrow> Some \<lparr>conditions = []\<rparr>
      | Some (JArr cs) \<Rightarrow> map_option (\<lambda>xs. \<lparr>conditions = xs\<rparr>) (map_options decode_condition cs)
      | Some _ \<Rightarrow> None)"
| "decode_group _ = None"

fun decode_tree :: "json \<Rightarrow> rule_tree option" where
  "decode_tree (JObj ms) =
     (case map_of ms ''grant_on_any_relation'' of
        Some (JBool b) \<Rightarrow>
          (case map_of ms ''groups'' of
             None \<Rightarrow> Some \<lparr>grant_on_any_relation = b, groups = []\<rparr>
           | Some (JArr gs) \<Rightarrow>
               map_option (\<lambda>xs. \<lparr>grant_on_any_relation = b, groups = xs\<rparr>) (map_options decode_group gs)
           | Some _ \<Rightarrow> None)
      | None \<Rightarrow>
          (case map_of ms ''groups'' of
             None \<Rightarrow> Some \<lparr>grant_on_any_relation = False, groups = []\<rparr>
           | Some (JArr gs) \<Rightarrow>
               map_option (\<lambda>xs. \<lparr>grant_on_any_relation = False, groups = xs\<rparr>)
                 (map_options decode_group gs)
           | Some _ \<Rightarrow> None)
      | Some _ \<Rightarrow> None)"
| "decode_tree _ = None"

text \<open>\<open>serde_json::from_value(raw_tree).unwrap_or_default()\<close>.\<close>

definition tree_of_json :: "json \<Rightarrow> rule_tree" where
  "tree_of_json v = (case decode_tree v of None \<Rightarrow> default_rule_tree | Some t \<Rightarrow> t)"

text \<open>The column's default value.\<close>

definition default_tree_json :: json where
  "default_tree_json = JObj [(''grant_on_any_relation'', JBool False), (''groups'', JArr [])]"

lemma tree_of_default [simp]: "tree_of_json default_tree_json = default_rule_tree"
  by (simp add: tree_of_json_def default_tree_json_def default_rule_tree_def)

lemma decode_condition_json:
  "c_value_end c \<noteq> Some JNull \<Longrightarrow> decode_condition (json_of_condition c) = Some c"
  by (cases c) (auto simp: json_of_condition_def split: option.splits json.splits)

lemma decode_group_json:
  assumes "\<forall>c \<in> set (conditions g). c_value_end c \<noteq> Some JNull"
  shows "decode_group (json_of_group g) = Some g"
proof -
  have "map_options decode_condition (map json_of_condition (conditions g)) = Some (map id (conditions g))"
    by (rule map_options_map) (use assms in \<open>simp add: decode_condition_json\<close>)
  then show ?thesis by (cases g) (simp add: json_of_group_def)
qed

lemma decode_tree_json:
  assumes "\<forall>g \<in> set (groups t). \<forall>c \<in> set (conditions g). c_value_end c \<noteq> Some JNull"
  shows "decode_tree (json_of_tree t) = Some t"
proof -
  have "map_options decode_group (map json_of_group (groups t)) = Some (map id (groups t))"
    by (rule map_options_map) (use assms in \<open>simp add: decode_group_json\<close>)
  then show ?thesis by (cases t) (simp add: json_of_tree_def)
qed

end
