(* ===== verification/Condition_Eval.thy ===== *)
theory Condition_Eval
  imports Rule_Model
begin

section \<open>The Rust evaluator (\<open>services/condition_eval.rs\<close>)\<close>

text \<open>
  \<open>evaluate_with_memberships\<close> decides a rule tree for one viewer. The regular-expression crate
  is a parameter: an engine maps a pattern to \<open>None\<close> when it does not compile under the size
  limits, else to its matcher. The clock \<open>Utc::now()\<close> is the argument \<open>now\<close>. \<open>num_days\<close> is
  chrono's: both divisions truncate towards zero.
\<close>

type_synonym regex_engine = "string \<Rightarrow> (string \<Rightarrow> bool) option"

record memberships =
  list_uris :: "string set"
  starter_pack_uris :: "string set"

definition no_memberships :: memberships where
  "no_memberships = \<lparr>list_uris = {}, starter_pack_uris = {}\<rparr>"

definition num_days :: "int \<Rightarrow> int" where
  "num_days us = (us sdiv 1000000) sdiv 86400"

definition days_since :: "instant \<Rightarrow> instant option \<Rightarrow> int option" where
  "days_since now ts = map_option (\<lambda>t. num_days (now - t)) ts"

definition bool_match :: "condition \<Rightarrow> bool \<Rightarrow> bool" where
  "bool_match c actual =
     (if c_operator c \<noteq> Eq then False
      else (case as_bool (c_value c) of None \<Rightarrow> False | Some v \<Rightarrow> v = actual))"

definition int_match :: "condition \<Rightarrow> int option \<Rightarrow> bool" where
  "int_match c actual =
     (case actual of
        None \<Rightarrow> False
      | Some a \<Rightarrow>
          (let v = as_i64 (c_value c); test = (\<lambda>P. case v of None \<Rightarrow> False | Some n \<Rightarrow> P n)
           in case c_operator c of
                Eq \<Rightarrow> test (\<lambda>n. a = n)
              | Neq \<Rightarrow> test (\<lambda>n. a \<noteq> n)
              | Gt \<Rightarrow> test (\<lambda>n. a > n)
              | Gte \<Rightarrow> test (\<lambda>n. a \<ge> n)
              | Lt \<Rightarrow> test (\<lambda>n. a < n)
              | Lte \<Rightarrow> test (\<lambda>n. a \<le> n)
              | Between \<Rightarrow>
                  (case (v, Option.bind (c_value_end c) as_i64) of
                     (Some lo, Some hi) \<Rightarrow> a \<ge> lo \<and> a \<le> hi
                   | _ \<Rightarrow> False)
              | _ \<Rightarrow> False))"

definition list_contains :: "json \<Rightarrow> string \<Rightarrow> bool" where
  "list_contains value needle =
     (case as_array value of
        None \<Rightarrow> False
      | Some arr \<Rightarrow> needle \<in> set (List.map_filter as_str arr))"

definition string_match :: "regex_engine \<Rightarrow> condition \<Rightarrow> string option \<Rightarrow> bool" where
  "string_match rx c actual =
     (case actual of
        None \<Rightarrow> c_operator c = Neq
      | Some a \<Rightarrow>
          (let v = as_str (c_value c)
           in case c_operator c of
                Eq \<Rightarrow> (case v of None \<Rightarrow> False | Some s \<Rightarrow> a = s)
              | Neq \<Rightarrow> (case v of None \<Rightarrow> False | Some s \<Rightarrow> a \<noteq> s)
              | Contains \<Rightarrow>
                  (case v of None \<Rightarrow> False
                   | Some s \<Rightarrow> str_contains (to_ascii_lowercase a) (to_ascii_lowercase s))
              | Regex \<Rightarrow>
                  (case v of None \<Rightarrow> False
                   | Some pattern \<Rightarrow> (case rx pattern of None \<Rightarrow> False | Some re \<Rightarrow> re a))
              | In \<Rightarrow> list_contains (c_value c) a
              | NotIn \<Rightarrow> \<not> list_contains (c_value c) a
              | _ \<Rightarrow> False))"

fun evaluate_target ::
  "regex_engine \<Rightarrow> instant \<Rightarrow> condition_target \<Rightarrow> condition \<Rightarrow> facts \<Rightarrow> memberships \<Rightarrow> bool"
where
  "evaluate_target rx now IsFollower c f m = bool_match c (f_is_follower f)"
| "evaluate_target rx now IsFollowedBack c f m = bool_match c (f_is_followed_back f)"
| "evaluate_target rx now IsMutual c f m = bool_match c (f_is_mutual f)"
| "evaluate_target rx now HasCustomDomain c f m = bool_match c (f_has_custom_domain f)"
| "evaluate_target rx now HasAvatar c f m = bool_match c (f_has_avatar f)"
| "evaluate_target rx now HasBanner c f m = bool_match c (f_has_banner f)"
| "evaluate_target rx now FollowAgeDays c f m = int_match c (days_since now (f_followed_at f))"
| "evaluate_target rx now LikedPostsCount c f m = int_match c (Some (f_liked_posts_count f))"
| "evaluate_target rx now RepostedPostsCount c f m = int_match c (Some (f_reposted_posts_count f))"
| "evaluate_target rx now RepliedPostsCount c f m = int_match c (Some (f_replied_posts_count f))"
| "evaluate_target rx now AccountAgeDays c f m = int_match c (days_since now (f_bsky_created_at f))"
| "evaluate_target rx now PostsCount c f m = int_match c (Some (f_posts_count f))"
| "evaluate_target rx now FollowersCount c f m = int_match c (Some (f_followers_count f))"
| "evaluate_target rx now FollowsCount c f m = int_match c (Some (f_follows_count f))"
| "evaluate_target rx now IsOnList c f m =
     (case as_str (c_value c) of Some uri \<Rightarrow> uri \<in> list_uris m | None \<Rightarrow> False)"
| "evaluate_target rx now IsOnStarterPack c f m =
     (case as_str (c_value c) of Some uri \<Rightarrow> uri \<in> starter_pack_uris m | None \<Rightarrow> False)"
| "evaluate_target rx now Handle c f m = string_match rx c (Some (f_handle f))"
| "evaluate_target rx now HandleDomain c f m = string_match rx c (f_handle_domain f)"
| "evaluate_target rx now DisplayName c f m = string_match rx c (f_display_name f)"
| "evaluate_target rx now Description c f m = string_match rx c (f_description f)"
| "evaluate_target rx now PdsHost c f m = string_match rx c (f_pds_host f)"

definition evaluate_single ::
  "regex_engine \<Rightarrow> instant \<Rightarrow> condition \<Rightarrow> facts \<Rightarrow> memberships \<Rightarrow> bool" where
  "evaluate_single rx now c f m = evaluate_target rx now (c_target c) c f m"

definition evaluate_with_memberships ::
  "regex_engine \<Rightarrow> instant \<Rightarrow> rule_tree \<Rightarrow> facts \<Rightarrow> memberships \<Rightarrow> bool" where
  "evaluate_with_memberships rx now tree f m =
     (if grant_on_any_relation tree then True
      else if groups tree = [] then False
      else (\<exists>g \<in> set (groups tree).
              conditions g \<noteq> [] \<and> (\<forall>c \<in> set (conditions g). evaluate_single rx now c f m)))"

definition evaluate :: "regex_engine \<Rightarrow> instant \<Rightarrow> rule_tree \<Rightarrow> facts \<Rightarrow> bool" where
  "evaluate rx now tree f = evaluate_with_memberships rx now tree f no_memberships"

lemma evaluate_with_memberships_iff:
  "evaluate_with_memberships rx now tree f m \<longleftrightarrow>
     grant_on_any_relation tree \<or>
     (\<exists>g \<in> set (groups tree).
        conditions g \<noteq> [] \<and> (\<forall>c \<in> set (conditions g). evaluate_single rx now c f m))"
  by (auto simp: evaluate_with_memberships_def)

lemma sdiv_nonneg_eq: "0 \<le> (a::int) \<Longrightarrow> 0 < b \<Longrightarrow> a sdiv b = a div b"
  by (simp add: signed_divide_int_def sgn_if)

text \<open>For an instant that is not in the future, truncating and flooring agree.\<close>

lemma num_days_floor:
  assumes "0 \<le> us" shows "num_days us = us div 86400000000"
proof -
  have "0 \<le> us div 1000000" using assms by (simp add: pos_imp_zdiv_nonneg_iff)
  then have "num_days us = us div 1000000 div 86400"
    using assms by (simp add: num_days_def sdiv_nonneg_eq)
  also have "\<dots> = us div 86400000000" by (simp add: zdiv_zmult2_eq [symmetric])
  finally show ?thesis .
qed

lemma list_contains_arr [simp]:
  "list_contains (JArr xs) s \<longleftrightarrow> JStr s \<in> set xs"
  by (force simp: list_contains_def List.map_filter_def as_str_Some_iff)

end
