(* ===== verification/Errors.thy ===== *)
theory Errors
  imports Json
begin

section \<open>Application errors and their HTTP form (\<open>error.rs\<close>)\<close>

text \<open>
  \<open>app_error\<close> has the variants of \<open>AppError\<close>. An \<open>sqlx::Error\<close> is either a database error,
  with its SQLSTATE code, constraint name and message, or another error with its message.
  \<open>error_response\<close> is \<open>into_response\<close>: a status and a JSON body. The log lines are left out.
\<close>

datatype sqlx_error =
    SqlxDatabase (sql_code: "string option") (sql_constraint: "string option") string
  | SqlxOther string

record field_error =
  fe_field :: string
  fe_message :: string

datatype app_error =
    Database sqlx_error
  | RoleLogic string
  | RoleLinkNotFound
  | RoleLinkDisabled
  | RemovalHeld
  | UserLimitReached nat
  | BskyApi string
  | BadRequest string
  | Unauthorized
  | UnauthorizedWith string
  | Forbidden string
  | NotFound string
  | ValidationFailed "field_error list"
  | StaleVersion
  | Internal string

type_synonym http_reply = "nat \<times> json"

definition err_json :: "string \<Rightarrow> json" where
  "err_json msg = JObj [(''error'', JStr msg)]"

text \<open>\<open>classify_db_error\<close>: SQLSTATE classes 23505, 23503, 23514 and 23502, anything else is 500.\<close>

definition constraint_json :: "string \<Rightarrow> string \<Rightarrow> string \<Rightarrow> json" where
  "constraint_json msg cd constr =
     JObj [(''error'', JStr msg), (''code'', JStr cd), (''constraint'', JStr constr)]"

fun classify_db_error :: "sqlx_error \<Rightarrow> http_reply" where
  "classify_db_error (SqlxDatabase cd constr m) =
     (let c = (case cd of None \<Rightarrow> [] | Some x \<Rightarrow> x);
          k = (case constr of None \<Rightarrow> [] | Some x \<Rightarrow> x)
      in if c = ''23505'' then
           (409, constraint_json ''A record with that value already exists.'' ''UNIQUE_VIOLATION'' k)
         else if c = ''23503'' then
           (409, constraint_json ''Operation would violate a referential constraint.''
                   ''FOREIGN_KEY_VIOLATION'' k)
         else if c = ''23514'' then
           (400, constraint_json ''One or more fields failed a database check.'' ''CHECK_VIOLATION'' k)
         else if c = ''23502'' then
           (400, JObj [(''error'', JStr ''A required field was missing.''),
                       (''code'', JStr ''NOT_NULL_VIOLATION'')])
         else (500, err_json ''Internal server error''))"
| "classify_db_error (SqlxOther m) = (500, err_json ''Internal server error'')"

definition json_of_field_error :: "field_error \<Rightarrow> json" where
  "json_of_field_error f =
     JObj [(''field'', JStr (fe_field f)), (''message'', JStr (fe_message f))]"

fun error_response :: "app_error \<Rightarrow> http_reply" where
  "error_response (Database e) = classify_db_error e"
| "error_response (RoleLogic e) = (502, err_json ''Failed to sync roles'')"
| "error_response RoleLinkNotFound = (404, err_json ''Role link not found'')"
| "error_response RoleLinkDisabled = (403, err_json ''Role link is disabled'')"
| "error_response RemovalHeld =
     (409, err_json ''Removals are waiting for confirmation in the RoleLogic dashboard'')"
| "error_response (UserLimitReached limit) = (403, err_json ''Role link user limit reached'')"
| "error_response (BskyApi e) = (502, err_json ''Failed to reach Bluesky'')"
| "error_response (BadRequest msg) = (400, err_json msg)"
| "error_response Unauthorized = (401, err_json ''Invalid or missing authorization'')"
| "error_response (UnauthorizedWith msg) = (401, err_json msg)"
| "error_response (Forbidden msg) = (403, err_json msg)"
| "error_response (NotFound msg) = (404, err_json msg)"
| "error_response (ValidationFailed fs) =
     (422, JObj [(''error'', JStr ''Validation failed''),
                 (''field_errors'', JArr (map json_of_field_error fs))])"
| "error_response StaleVersion =
     (409, JObj [(''error'', JStr ''The configuration was edited from another tab. Reload and try again.''),
                 (''code'', JStr ''STALE_VERSION'')])"
| "error_response (Internal e) = (500, err_json ''Internal server error'')"

text \<open>The \<open>Display\<close> text of \<open>thiserror\<close>'s attributes; \<open>sqlx\<close>'s own text is the message carried.\<close>

fun sqlx_message :: "sqlx_error \<Rightarrow> string" where
  "sqlx_message (SqlxDatabase _ _ m) = m"
| "sqlx_message (SqlxOther m) = m"

fun error_text :: "app_error \<Rightarrow> string" where
  "error_text (Database e) = ''Database error: '' @ sqlx_message e"
| "error_text (RoleLogic e) = ''RoleLogic API error: '' @ e"
| "error_text RoleLinkNotFound = ''Role link not found on RoleLogic''"
| "error_text RoleLinkDisabled = ''Role link is disabled or paused on RoleLogic''"
| "error_text RemovalHeld = ''Role link removals are held for owner confirmation on RoleLogic''"
| "error_text (UserLimitReached limit) = ''Role link user limit reached ('' @ show_nat limit @ '')''"
| "error_text (BskyApi e) = ''Bluesky API error: '' @ e"
| "error_text (BadRequest m) = ''Invalid request: '' @ m"
| "error_text Unauthorized = ''Unauthorized''"
| "error_text (UnauthorizedWith m) = ''Unauthorized: '' @ m"
| "error_text (Forbidden m) = ''Forbidden: '' @ m"
| "error_text (NotFound m) = ''Not found: '' @ m"
| "error_text (ValidationFailed _) = ''Validation failed''"
| "error_text StaleVersion = ''Configuration was edited; reload and try again''"
| "error_text (Internal e) = ''Internal error: '' @ e"

lemma classify_db_error_status: "fst (classify_db_error e) \<in> {400, 409, 500}"
  by (cases e) (auto simp: Let_def)

text \<open>
  The text a client may read in place of the cause of a server-side failure: what a database
  driver, RoleLogic, Bluesky or the gateway reported stays in the log.
\<close>

fun opaque_error :: "app_error \<Rightarrow> app_error" where
  "opaque_error (Database (SqlxDatabase cd constr m)) = Database (SqlxDatabase cd constr [])"
| "opaque_error (Database (SqlxOther m)) = Database (SqlxOther [])"
| "opaque_error (RoleLogic m) = RoleLogic []"
| "opaque_error (BskyApi m) = BskyApi []"
| "opaque_error (Internal m) = Internal []"
| "opaque_error e = e"

lemma error_response_opaque: "error_response (opaque_error e) = error_response e"
  by (cases e rule: opaque_error.cases) simp_all

lemma error_response_status:
  "fst (error_response e) \<in> {400, 401, 403, 404, 409, 422, 500, 502}"
  using classify_db_error_status by (cases e) force+

end
