(* ===== verification/Rule_Validator.thy ===== *)
theory Rule_Validator
  imports Condition_Eval Errors
begin

section \<open>Saving a rule: parse and validate (\<open>services/rule_validator.rs\<close>)\<close>

text \<open>
  \<open>parse_rule_tree\<close> turns the payload of the editor into a rule tree or a \<open>BadRequest\<close>. Two
  third-party functions are parameters: \<open>rx\<close>, the regular-expression crate under its size limits
  (\<open>None\<close> when a pattern does not compile), and \<open>jshow\<close>, the \<open>Display\<close> text of a JSON value.

  \<open>wf_condition\<close> and \<open>wf_tree\<close> are the specification of what is stored: \<open>parse_wf\<close> shows that
  every accepted payload meets it, \<open>parse_body_of\<close> that a stored tree is accepted unchanged when
  the editor sends it back, \<open>parse_stable\<close> that saving is idempotent.
\<close>

record condition_input =
  i_target :: string
  i_operator :: string
  i_value :: json
  i_value_end :: "json option"

record group_input =
  i_conditions :: "condition_input list"

record rule_tree_body =
  b_account :: "string option"
  b_grant :: bool
  b_groups :: "group_input list"

record parsed_rule =
  p_account :: "string option"
  p_tree :: rule_tree

definition is_membership_target :: "condition_target \<Rightarrow> bool" where
  "is_membership_target t = (t \<in> {IsOnList, IsOnStarterPack})"

definition where_text :: "nat \<Rightarrow> nat \<Rightarrow> string" where
  "where_text g c = ''Group #'' @ show_nat g @ '', condition #'' @ show_nat c"

definition reject :: "string \<Rightarrow> string \<Rightarrow> app_error + 'a" where
  "reject w msg = Inl (BadRequest (w @ msg))"

lemma reject_not_Inr [simp, result_simps]: "reject w msg \<noteq> Inr x"
  by (simp add: reject_def)

fun normalize_list :: "json \<Rightarrow> json list" where
  "normalize_list (JArr a) = filter (\<lambda>v. v \<noteq> JStr []) (filter (\<lambda>v. v \<noteq> JNull) a)"
| "normalize_list (JStr s) =
     map JStr (filter (\<lambda>s. s \<noteq> []) (map trim (split_all (CHR '','') s)))"
| "normalize_list JNull = []"
| "normalize_list v = [v]"

definition normalize_bool :: "(json \<Rightarrow> string) \<Rightarrow> string \<Rightarrow> json \<Rightarrow> app_error + json" where
  "normalize_bool jshow w raw =
     (let bad = reject w ('': boolean value required (got '' @ jshow raw @ '').'')
      in case raw of
           JBool _ \<Rightarrow> Inr raw
         | JStr s \<Rightarrow>
             (let t = to_ascii_lowercase (trim s)
              in if t \<in> {''true'', ''1'', ''yes''} then Inr (JBool True)
                 else if t \<in> {''false'', ''0'', ''no''} then Inr (JBool False)
                 else bad)
         | _ \<Rightarrow> bad)"

definition normalize_int :: "(json \<Rightarrow> string) \<Rightarrow> string \<Rightarrow> json \<Rightarrow> app_error + json" where
  "normalize_int jshow w raw =
     (let n = (case raw of
                 JNum num \<Rightarrow> (case num_as_i64 num of Some i \<Rightarrow> Some i
                              | None \<Rightarrow> Some (num_as_f64_as_i64 num))
               | JStr s \<Rightarrow> parse_i64 (trim s)
               | _ \<Rightarrow> None)
      in case n of
           Some i \<Rightarrow> Inr (json_of_i64 i)
         | None \<Rightarrow> reject w ('': integer value required (got '' @ jshow raw @ '').''))"

definition normalize_string :: "(json \<Rightarrow> string) \<Rightarrow> string \<Rightarrow> json \<Rightarrow> app_error + json" where
  "normalize_string jshow w raw =
     (case raw of
        JStr s \<Rightarrow> if trim s = [] then reject w '': value required.'' else Inr (JStr s)
      | JNum num \<Rightarrow> Inr (JStr (jshow (JNum num)))
      | JBool b \<Rightarrow> Inr (JStr (if b then ''true'' else ''false''))
      | _ \<Rightarrow> reject w '': value required.'')"

definition normalize_value ::
  "(json \<Rightarrow> string) \<Rightarrow> string \<Rightarrow> target_kind \<Rightarrow> condition_operator \<Rightarrow> json \<Rightarrow> app_error + json"
where
  "normalize_value jshow w kind op raw =
     (case kind of
        KBool \<Rightarrow> normalize_bool jshow w raw
      | KInt \<Rightarrow> normalize_int jshow w raw
      | KString \<Rightarrow>
          if op \<in> {In, NotIn} then
            (let arr = normalize_list raw
             in if arr = [] then reject w '': list operator needs at least one value.''
                else Inr (JArr arr))
          else normalize_string jshow w raw)"

definition str_or_empty :: "json \<Rightarrow> string" where
  "str_or_empty v = (case as_str v of None \<Rightarrow> [] | Some s \<Rightarrow> s)"

text \<open>\<open>validate_condition\<close>, one early return per line of the source.\<close>

definition validate_condition ::
  "regex_engine \<Rightarrow> (json \<Rightarrow> string) \<Rightarrow> nat \<Rightarrow> nat \<Rightarrow> condition_input \<Rightarrow> app_error + condition"
where
  "validate_condition rx jshow gn cn raw =
     (let w = where_text gn cn in
      case target_from_key (trim (i_target raw)) of
        None \<Rightarrow> reject w ('': unknown target '' @ CHR 0x27 # i_target raw @ CHR 0x27 # ''.'')
      | Some t \<Rightarrow>
      (case operator_from_key (trim (i_operator raw)) of
        None \<Rightarrow> reject w ('': unknown operator '' @ CHR 0x27 # i_operator raw @ CHR 0x27 # ''.'')
      | Some op \<Rightarrow>
      if is_membership_target t \<and> op \<noteq> Eq then
        reject w ('': '' @ CHR 0x27 # target_as_str t @ CHR 0x27 # '' only supports the ''
          @ CHR 0x27 # ''equals'' @ CHR 0x27 # '' operator (the value is the list/pack URI).'')
      else if \<not> valid_for op (target_kind_of t) then
        reject w ('': operator '' @ CHR 0x27 # operator_as_str op @ CHR 0x27 # '' is not valid for ''
          @ CHR 0x27 # target_as_str t @ CHR 0x27 # ''.'')
      else
      and_then (normalize_value jshow w (target_kind_of t) op (i_value raw)) (\<lambda>v.
      and_then
        (if op = Between then
           (case i_value_end raw of
              None \<Rightarrow> reject w ('': '' @ CHR 0x22 # ''between'' @ CHR 0x22 # '' needs both a min and a max value.'')
            | Some e \<Rightarrow> and_then (normalize_value jshow w (target_kind_of t) op e) (\<lambda>e'. Inr (Some e')))
         else Inr None) (\<lambda>ve.
      if op = Regex \<and> rx (str_or_empty v) = None then reject w '': regex pattern is invalid.''
      else if is_membership_target t \<and> \<not> prefix ''at://'' (str_or_empty v) then
        reject w '': value must be an at:// URI (pick a list / starter pack from the dropdown).''
      else Inr \<lparr>c_target = t, c_operator = op, c_value = v, c_value_end = ve\<rparr>))))"

definition validate_group ::
  "regex_engine \<Rightarrow> (json \<Rightarrow> string) \<Rightarrow> nat \<Rightarrow> group_input \<Rightarrow> app_error + condition_group"
where
  "validate_group rx jshow gn g =
     (if i_conditions g = [] then
        reject ''Group #'' (show_nat gn @ '': add at least one condition (or remove the group).'')
      else if length (i_conditions g) > max_conditions_per_group then
        reject ''Group #'' (show_nat gn @ '': at most '' @ show_nat max_conditions_per_group
          @ '' conditions per group.'')
      else
        and_then (map_results (\<lambda>(ci, raw). validate_condition rx jshow gn ci raw)
                    (enumerate 1 (i_conditions g)))
          (\<lambda>cs. Inr \<lparr>conditions = cs\<rparr>))"

definition parse_account :: "string option \<Rightarrow> string option" where
  "parse_account a = Option.bind a (\<lambda>s. if trim s = [] then None else Some (trim s))"

definition parse_rule_tree ::
  "regex_engine \<Rightarrow> (json \<Rightarrow> string) \<Rightarrow> rule_tree_body \<Rightarrow> app_error + parsed_rule"
where
  "parse_rule_tree rx jshow body =
     (if \<not> b_grant body \<and> b_groups body = [] then
        Inl (BadRequest (''Add at least one OR-group, or pick '' @ CHR 0x22 # ''any linked viewer''
               @ CHR 0x22 # ''.''))
      else if \<not> b_grant body \<and> length (b_groups body) > max_groups then
        Inl (BadRequest (''At most '' @ show_nat max_groups @ '' OR-groups per role.''))
      else
        and_then
          (if b_grant body then Inr []
           else map_results (\<lambda>(gi, g). validate_group rx jshow gi g) (enumerate 1 (b_groups body)))
          (\<lambda>gs. Inr \<lparr>p_account = parse_account (b_account body),
                     p_tree = \<lparr>grant_on_any_relation = b_grant body, groups = gs\<rparr>\<rparr>))"

subsection \<open>What is stored\<close>

text \<open>A value of the kind its target and operator call for.\<close>

definition wf_value :: "target_kind \<Rightarrow> condition_operator \<Rightarrow> json \<Rightarrow> bool" where
  "wf_value kind op v =
     (case kind of
        KBool \<Rightarrow> as_bool v \<noteq> None
      | KInt \<Rightarrow> (\<exists>n. as_i64 v = Some n \<and> v = json_of_i64 n)
      | KString \<Rightarrow>
          if op \<in> {In, NotIn} then
            (case v of JArr xs \<Rightarrow> xs \<noteq> [] \<and> JNull \<notin> set xs \<and> JStr [] \<notin> set xs | _ \<Rightarrow> False)
          else as_str v \<noteq> None)"

definition wf_condition :: "regex_engine \<Rightarrow> condition \<Rightarrow> bool" where
  "wf_condition rx c \<longleftrightarrow>
     valid_for (c_operator c) (target_kind_of (c_target c)) \<and>
     (is_membership_target (c_target c) \<longrightarrow>
        c_operator c = Eq \<and> prefix ''at://'' (str_or_empty (c_value c))) \<and>
     wf_value (target_kind_of (c_target c)) (c_operator c) (c_value c) \<and>
     (if c_operator c = Between
      then \<exists>e. c_value_end c = Some e \<and> wf_value (target_kind_of (c_target c)) Between e
      else c_value_end c = None) \<and>
     (c_operator c = Regex \<longrightarrow> rx (str_or_empty (c_value c)) \<noteq> None)"

definition wf_group :: "regex_engine \<Rightarrow> condition_group \<Rightarrow> bool" where
  "wf_group rx g \<longleftrightarrow>
     conditions g \<noteq> [] \<and> length (conditions g) \<le> max_conditions_per_group \<and>
     list_all (wf_condition rx) (conditions g)"

definition wf_tree :: "regex_engine \<Rightarrow> rule_tree \<Rightarrow> bool" where
  "wf_tree rx t \<longleftrightarrow>
     (if grant_on_any_relation t then groups t = []
      else groups t \<noteq> [] \<and> length (groups t) \<le> max_groups \<and> list_all (wf_group rx) (groups t))"

lemma normalize_int_wf: "normalize_int jshow w raw = Inr v \<Longrightarrow> wf_value KInt op v"
proof -
  assume a: "normalize_int jshow w raw = Inr v"
  have f: "in_i64 (num_as_f64_as_i64 n)" for n
    by (cases n) (auto simp: saturate_in_i64 sint_in_i64)
  have p: "parse_i64 s = Some i \<Longrightarrow> in_i64 i" for s i
    by (auto simp: parse_i64_def Let_def split: list.splits if_splits prod.splits)
  have j: "num_as_i64 n = Some i \<Longrightarrow> in_i64 i" for n i
    using as_i64_in_i64 [of "JNum n" i] by simp
  have "\<exists>i. in_i64 i \<and> v = json_of_i64 i"
    using a by (auto simp: normalize_int_def Let_def split: json.splits option.splits intro: f p j)
  then show ?thesis by (auto simp: wf_value_def)
qed

lemma normalize_list_clean: "JNull \<notin> set (normalize_list raw) \<and> JStr [] \<notin> set (normalize_list raw)"
  by (cases raw) auto

lemma normalize_value_wf: "normalize_value jshow w k op raw = Inr v \<Longrightarrow> wf_value k op v"
proof (cases k)
  case KBool
  then show "normalize_value jshow w k op raw = Inr v \<Longrightarrow> wf_value k op v"
    by (auto simp: normalize_value_def normalize_bool_def wf_value_def Let_def as_bool_Some_iff
        split: json.splits if_splits)
next
  case KInt
  then show "normalize_value jshow w k op raw = Inr v \<Longrightarrow> wf_value k op v"
    using normalize_int_wf by (simp add: normalize_value_def)
next
  case KString
  then show "normalize_value jshow w k op raw = Inr v \<Longrightarrow> wf_value k op v"
    using normalize_list_clean [of raw]
    by (auto simp: normalize_value_def normalize_string_def wf_value_def Let_def as_str_Some_iff
        split: json.splits if_splits)
qed

lemma validate_condition_wf:
  assumes "validate_condition rx jshow gn cn raw = Inr c" shows "wf_condition rx c"
proof -
  obtain t op v where t: "target_from_key (trim (i_target raw)) = Some t"
      and op: "operator_from_key (trim (i_operator raw)) = Some op"
      and v: "normalize_value jshow (where_text gn cn) (target_kind_of t) op (i_value raw) = Inr v"
    using assms
    by (auto simp: validate_condition_def Let_def result_simps split: option.splits if_splits)
  note wf = normalize_value_wf [OF v] normalize_value_wf
  show ?thesis
    using assms t op v wf(1)
    by (cases "op = Between")
      (auto simp: validate_condition_def wf_condition_def Let_def result_simps
        split: option.splits if_splits dest: normalize_value_wf)
qed

lemma enumerated_results:
  assumes "map_results (\<lambda>(i, x). f i x) (enumerate 1 xs) = Inr ys"
    and "\<And>i x y. f i x = Inr y \<Longrightarrow> P y"
  shows "length ys = length xs" and "list_all P ys"
proof -
  show "length ys = length xs" using map_results_Inr_length [OF assms(1)] by simp
  show "list_all P ys"
    unfolding list_all_iff
  proof
    fix y assume "y \<in> set ys"
    from map_results_Inr_in [OF assms(1) this] obtain i x where "f i x = Inr y" by auto
    then show "P y" by (rule assms(2))
  qed
qed

lemma validate_group_wf:
  assumes "validate_group rx jshow gn g = Inr cg" shows "wf_group rx cg"
proof -
  obtain cs where cs: "map_results (\<lambda>(ci, raw). validate_condition rx jshow gn ci raw)
        (enumerate 1 (i_conditions g)) = Inr cs" "cg = \<lparr>conditions = cs\<rparr>"
    and len: "i_conditions g \<noteq> []" "length (i_conditions g) \<le> max_conditions_per_group"
    using assms by (auto simp: validate_group_def result_simps split: if_splits)
  note * = enumerated_results [OF cs(1) validate_condition_wf]
  from * len cs(2) show ?thesis by (auto simp: wf_group_def)
qed

text \<open>Whatever is accepted is well formed, within the limits of the editor.\<close>

lemma parse_wf:
  assumes "parse_rule_tree rx jshow body = Inr p" shows "wf_tree rx (p_tree p)"
proof (cases "b_grant body")
  case True
  with assms show ?thesis by (auto simp: parse_rule_tree_def wf_tree_def)
next
  case False
  then obtain gs where gs: "map_results (\<lambda>(gi, g). validate_group rx jshow gi g)
        (enumerate 1 (b_groups body)) = Inr gs"
      "p_tree p = \<lparr>grant_on_any_relation = False, groups = gs\<rparr>"
    and len: "b_groups body \<noteq> []" "length (b_groups body) \<le> max_groups"
    using assms by (auto simp: parse_rule_tree_def result_simps split: if_splits)
  note * = enumerated_results [OF gs(1) validate_group_wf]
  from * len gs(2) show ?thesis by (auto simp: wf_tree_def)
qed

subsection \<open>Sending a stored tree back\<close>

text \<open>The payload the editor builds from what \<open>GET .../data\<close> returns.\<close>

definition input_of_condition :: "condition \<Rightarrow> condition_input" where
  "input_of_condition c =
     \<lparr>i_target = target_as_str (c_target c), i_operator = operator_as_str (c_operator c),
      i_value = c_value c, i_value_end = c_value_end c\<rparr>"

definition body_of :: "parsed_rule \<Rightarrow> rule_tree_body" where
  "body_of p =
     \<lparr>b_account = p_account p, b_grant = grant_on_any_relation (p_tree p),
      b_groups = map (\<lambda>g. \<lparr>i_conditions = map input_of_condition (conditions g)\<rparr>) (groups (p_tree p))\<rparr>"

definition nonblank :: "condition \<Rightarrow> bool" where
  "nonblank c \<longleftrightarrow> (target_kind_of (c_target c) = KString \<and> c_operator c \<notin> {In, NotIn} \<longrightarrow>
     trim (str_or_empty (c_value c)) \<noteq> [])"

lemma target_key_trim [simp]: "trim (target_as_str t) = target_as_str t"
  by (rule trim_graph) (cases t; simp add: is_graph_def)

lemma operator_key_trim [simp]: "trim (operator_as_str op) = operator_as_str op"
  by (rule trim_graph) (cases op; simp add: is_graph_def)

lemma normalize_int_stored:
  assumes "as_i64 v = Some n" "v = json_of_i64 n"
  shows "normalize_int jshow w v = Inr v"
proof -
  obtain num where "v = JNum num" "num_as_i64 num = Some n"
    using assms(1) by (cases v) auto
  moreover from this(1) assms(2) have "json_of_i64 n = JNum num" by simp
  ultimately show ?thesis by (simp add: normalize_int_def)
qed

lemma normalize_list_stored:
  "JNull \<notin> set xs \<Longrightarrow> JStr [] \<notin> set xs \<Longrightarrow> normalize_list (JArr xs) = xs"
  by (auto simp: filter_id_conv)

lemma normalize_value_stored:
  assumes "wf_value k op v" and "k = KString \<and> op \<notin> {In, NotIn} \<longrightarrow> trim (str_or_empty v) \<noteq> []"
  shows "normalize_value jshow w k op v = Inr v"
proof (cases k)
  case KBool
  with assms(1) show ?thesis
    by (auto simp: normalize_value_def normalize_bool_def wf_value_def as_bool_Some_iff Let_def)
next
  case KInt
  with assms(1) show ?thesis
    by (auto simp: normalize_value_def wf_value_def intro: normalize_int_stored)
next
  case KString
  show ?thesis
  proof (cases "op \<in> {In, NotIn}")
    case True
    with KString assms(1) obtain xs where "v = JArr xs" "xs \<noteq> []" "JNull \<notin> set xs" "JStr [] \<notin> set xs"
      by (auto simp: wf_value_def split: json.splits)
    with True KString show ?thesis
      by (simp add: normalize_value_def normalize_list_stored del: normalize_list.simps)
  next
    case False
    with KString assms show ?thesis
      by (auto simp: normalize_value_def normalize_string_def wf_value_def str_or_empty_def
          as_str_Some_iff)
  qed
qed

lemma validate_condition_stored:
  assumes "wf_condition rx c" "nonblank c"
  shows "validate_condition rx jshow gn cn (input_of_condition c) = Inr c"
proof -
  have v: "normalize_value jshow w (target_kind_of (c_target c)) (c_operator c) (c_value c) = Inr (c_value c)"
    for w using assms by (auto simp: wf_condition_def nonblank_def intro: normalize_value_stored)
  have e: "normalize_value jshow w (target_kind_of (c_target c)) Between e = Inr e"
    if "c_operator c = Between" "c_value_end c = Some e" for w e
    using assms(1) that by (intro normalize_value_stored; cases "target_kind_of (c_target c)")
      (auto simp: wf_condition_def)
  show ?thesis
    using assms(1) v e
    by (cases c) (auto simp: validate_condition_def input_of_condition_def wf_condition_def Let_def
        split: if_splits)
qed

lemma map_results_enumerate_stored:
  "(\<And>i x. x \<in> set xs \<Longrightarrow> f i (g x) = Inr x) \<Longrightarrow>
   map_results (\<lambda>(i, y). f i y) (enumerate n (map g xs)) = Inr xs"
  by (induction xs arbitrary: n) auto

lemma validate_group_stored:
  assumes "wf_group rx cg" "\<forall>c \<in> set (conditions cg). nonblank c"
  shows "validate_group rx jshow gn \<lparr>i_conditions = map input_of_condition (conditions cg)\<rparr> = Inr cg"
proof -
  have "map_results (\<lambda>(ci, raw). validate_condition rx jshow gn ci raw)
      (enumerate 1 (map input_of_condition (conditions cg))) = Inr (conditions cg)"
    by (rule map_results_enumerate_stored)
      (use assms in \<open>auto simp: wf_group_def list_all_iff intro: validate_condition_stored\<close>)
  with assms(1) show ?thesis by (cases cg) (simp add: validate_group_def wf_group_def)
qed

lemma parse_body_of:
  assumes wf: "wf_tree rx (p_tree p)"
    and nonblank: "\<forall>g \<in> set (groups (p_tree p)). \<forall>c \<in> set (conditions g). nonblank c"
    and account: "parse_account (p_account p) = p_account p"
  shows "parse_rule_tree rx jshow (body_of p) = Inr p"
proof -
  let ?g = "\<lambda>g. \<lparr>i_conditions = map input_of_condition (conditions g)\<rparr>"
  have "map_results (\<lambda>(gi, g). validate_group rx jshow gi g) (enumerate 1 (map ?g (groups (p_tree p))))
      = Inr (groups (p_tree p))" if "\<not> grant_on_any_relation (p_tree p)"
    by (rule map_results_enumerate_stored)
      (use wf nonblank that in \<open>auto simp: wf_tree_def list_all_iff intro: validate_group_stored\<close>)
  with wf account show ?thesis
    by (cases p; cases "p_tree p") (auto simp: parse_rule_tree_def body_of_def wf_tree_def split: if_splits)
qed

lemma parse_account_idem [simp]: "parse_account (parse_account a) = parse_account a"
  by (cases a) (auto simp: parse_account_def)

lemma normalize_value_nonblank:
  assumes "normalize_value jshow w KString op raw = Inr v" "op \<notin> {In, NotIn}"
    and "\<And>n. trim (jshow (JNum n)) \<noteq> []"
  shows "trim (str_or_empty v) \<noteq> []"
proof -
  have "trim ''true'' = ''true''" "trim ''false'' = ''false''"
    by (simp_all add: trim_graph is_graph_def)
  with assms show ?thesis
    by (auto simp: normalize_value_def normalize_string_def str_or_empty_def split: json.splits if_splits)
qed

lemma validate_condition_nonblank:
  assumes "\<And>n. trim (jshow (JNum n)) \<noteq> []" and "validate_condition rx jshow gn cn raw = Inr c"
  shows "nonblank c"
proof -
  have "normalize_value jshow (where_text gn cn) (target_kind_of (c_target c)) (c_operator c)
      (i_value raw) = Inr (c_value c)"
    using assms(2)
    by (auto simp: validate_condition_def Let_def result_simps split: option.splits if_splits)
  with normalize_value_nonblank assms(1) show ?thesis by (metis nonblank_def)
qed

lemma parse_nonblank:
  assumes "parse_rule_tree rx jshow body = Inr p" and "\<And>n. trim (jshow (JNum n)) \<noteq> []"
  shows "\<forall>g \<in> set (groups (p_tree p)). \<forall>c \<in> set (conditions g). nonblank c"
proof (cases "b_grant body")
  case True
  with assms show ?thesis by (auto simp: parse_rule_tree_def)
next
  case False
  have g: "list_all nonblank (conditions cg)" if v: "validate_group rx jshow gn g = Inr cg" for gn g cg
  proof -
    obtain cs where cs: "map_results (\<lambda>(ci, raw). validate_condition rx jshow gn ci raw)
        (enumerate 1 (i_conditions g)) = Inr cs" "cg = \<lparr>conditions = cs\<rparr>"
      using v by (auto simp: validate_group_def result_simps split: if_splits)
    with enumerated_results(2) [OF cs(1) validate_condition_nonblank [of jshow, OF assms(2)]]
    show ?thesis by auto
  qed
  obtain gs where gs: "map_results (\<lambda>(gi, g). validate_group rx jshow gi g)
        (enumerate 1 (b_groups body)) = Inr gs"
      "p_tree p = \<lparr>grant_on_any_relation = False, groups = gs\<rparr>"
    using assms(1) False by (auto simp: parse_rule_tree_def result_simps split: if_splits)
  have "list_all (\<lambda>cg. list_all nonblank (conditions cg)) gs"
    using enumerated_results(2) [OF gs(1), of "\<lambda>cg. list_all nonblank (conditions cg)"] g by blast
  with gs(2) show ?thesis by (simp add: list_all_iff)
qed

lemma parse_stable:
  assumes "parse_rule_tree rx jshow body = Inr p" and "\<And>n. trim (jshow (JNum n)) \<noteq> []"
  shows "parse_rule_tree rx jshow (body_of p) = Inr p"
proof (rule parse_body_of)
  show "parse_account (p_account p) = p_account p"
    using assms(1) by (auto simp: parse_rule_tree_def result_simps split: if_splits)
qed (use assms in \<open>auto intro: parse_wf simp: parse_nonblank\<close>)

text \<open>A refused payload is the client's fault: 400, with the place of the first fault in the text.\<close>

lemma map_results_Inl:
  "map_results f xs = Inl e \<Longrightarrow> \<exists>x \<in> set xs. f x = Inl e"
  by (induction xs) (auto simp: and_then_def split: sum.splits)

lemma validate_condition_error:
  "validate_condition rx jshow gn cn raw = Inl e \<Longrightarrow> \<exists>m. e = BadRequest (where_text gn cn @ m)"
  by (auto simp: validate_condition_def Let_def reject_def normalize_value_def normalize_bool_def
      normalize_int_def normalize_string_def and_then_def
      split: option.splits if_splits target_kind.splits json.splits sum.splits)

end
