(* ===== verification/Rule_Backends.thy ===== *)
theory Rule_Backends
  imports Condition_Eval
begin

section \<open>What a rule backend promises\<close>

text \<open>
  The program decides rule trees twice: in Rust for one viewer, and in SQL for a whole server.
  \<open>dnf_backend\<close> is the contract both implement (an OR of non-empty AND-groups, with
  \<open>grant_on_any_relation\<close> overriding), and the consequences that role owners rely on are proved
  once from it. \<open>backend_refinement\<close> relates two backends whose atoms agree on the conditions
  that occur.
\<close>

locale dnf_backend =
  fixes atom :: "condition \<Rightarrow> 'env \<Rightarrow> bool"
    and accepts :: "rule_tree \<Rightarrow> 'env \<Rightarrow> bool"
  assumes accepts_iff:
    "accepts t e \<longleftrightarrow> grant_on_any_relation t \<or>
       (\<exists>g \<in> set (groups t). conditions g \<noteq> [] \<and> (\<forall>c \<in> set (conditions g). atom c e))"
begin

text \<open>Convention 42: an unconfigured link grants to nobody.\<close>

lemma convention_42:
  "\<not> grant_on_any_relation t \<Longrightarrow> \<forall>g \<in> set (groups t). conditions g = [] \<Longrightarrow> \<not> accepts t e"
  by (auto simp: accepts_iff)

lemma accepts_groups_cong:
  "grant_on_any_relation s = grant_on_any_relation t \<Longrightarrow>
   (\<lambda>g. set (conditions g)) ` set (groups s) = (\<lambda>g. set (conditions g)) ` set (groups t) \<Longrightarrow>
   accepts s e = accepts t e"
proof -
  have *: "accepts t e \<longleftrightarrow> grant_on_any_relation t \<or>
      (\<exists>C \<in> (\<lambda>g. set (conditions g)) ` set (groups t). C \<noteq> {} \<and> (\<forall>c \<in> C. atom c e))" for t
    by (auto simp: accepts_iff)
  assume "grant_on_any_relation s = grant_on_any_relation t"
    and "(\<lambda>g. set (conditions g)) ` set (groups s) = (\<lambda>g. set (conditions g)) ` set (groups t)"
  then show ?thesis by (simp only: *)
qed

text \<open>Another OR-group never takes the role away, another AND-condition never gives it.\<close>

lemma accepts_more_groups:
  "accepts t e \<Longrightarrow> set (groups t) \<subseteq> set (groups s) \<Longrightarrow>
   grant_on_any_relation t = grant_on_any_relation s \<Longrightarrow> accepts s e"
  by (auto simp: accepts_iff)

lemma accepts_append_groups:
  "accepts (t\<lparr>groups := gs @ hs\<rparr>) e \<longleftrightarrow> accepts (t\<lparr>groups := gs\<rparr>) e \<or> accepts (t\<lparr>groups := hs\<rparr>) e"
  by (auto simp: accepts_iff)

lemma accepts_fewer_conditions:
  "accepts \<lparr>grant_on_any_relation = False, groups = [\<lparr>conditions = cs @ ds\<rparr>]\<rparr> e \<Longrightarrow> cs \<noteq> [] \<Longrightarrow>
   accepts \<lparr>grant_on_any_relation = False, groups = [\<lparr>conditions = cs\<rparr>]\<rparr> e"
  by (auto simp: accepts_iff)

end

locale backend_refinement =
  abs: dnf_backend atom_a accepts_a + conc: dnf_backend atom_c accepts_c
  for atom_a :: "condition \<Rightarrow> 'a \<Rightarrow> bool" and accepts_a
    and atom_c :: "condition \<Rightarrow> 'c \<Rightarrow> bool" and accepts_c +
  fixes view :: "'c \<Rightarrow> 'a"
    and covered :: "condition \<Rightarrow> 'c \<Rightarrow> bool"
  assumes atoms_agree: "covered c e \<Longrightarrow> atom_c c e = atom_a c (view e)"
begin

lemma trees_agree:
  "\<forall>g \<in> set (groups t). \<forall>c \<in> set (conditions g). covered c e \<Longrightarrow>
   accepts_c t e = accepts_a t (view e)"
  unfolding abs.accepts_iff conc.accepts_iff by (metis atoms_agree)

end

text \<open>The Rust evaluator is one backend: its environment is the facts and the memberships.\<close>

interpretation rust: dnf_backend
  "\<lambda>c (f, m). evaluate_single rx now c f m"
  "\<lambda>t (f, m). evaluate_with_memberships rx now t f m"
  for rx now
  by unfold_locales (auto simp: evaluate_with_memberships_iff split: prod.splits)

end
