(* ===== verification/Sql.thy ===== *)
theory Sql
  imports Prelude
begin

section \<open>The fragment of SQL that the rule builder emits\<close>

text \<open>
  An abstract syntax for the \<open>WHERE\<close> clauses of \<open>rule_sql.rs\<close>, its text form and its
  semantics in PostgreSQL: three-valued truth, \<open>NULL\<close> comparisons, \<open>LIKE\<close> with its escape
  character, \<open>FLOOR\<close> on ages. \<open>LOWER\<close> depends on the database's collation and \<open>~\<close> is
  PostgreSQL's own regular-expression engine, so both are fields of the environment.
  A clause over operands of the wrong types is a planning error in PostgreSQL; here it evaluates
  to unknown, and \<open>pred_typed\<close> is the typing discipline that excludes it.
\<close>

subsection \<open>Three-valued truth\<close>

datatype sql3 = SFalse | SUnknown | STrue

primrec sql3_rank :: "sql3 \<Rightarrow> nat" where
  "sql3_rank SFalse = 0"
| "sql3_rank SUnknown = 1"
| "sql3_rank STrue = 2"

instantiation sql3 :: linorder
begin

definition less_eq_sql3 :: "sql3 \<Rightarrow> sql3 \<Rightarrow> bool" where
  "less_eq_sql3 a b \<longleftrightarrow> sql3_rank a \<le> sql3_rank b"

definition less_sql3 :: "sql3 \<Rightarrow> sql3 \<Rightarrow> bool" where
  "less_sql3 a b \<longleftrightarrow> sql3_rank a < sql3_rank b"

instance
proof
  fix a b :: sql3
  assume "a \<le> b" "b \<le> a"
  then show "a = b" by (cases a; cases b) (simp_all add: less_eq_sql3_def)
qed (auto simp: less_eq_sql3_def less_sql3_def)

end

text \<open>\<open>AND\<close> is the minimum and \<open>OR\<close> the maximum of false, unknown, true.\<close>

definition sql_and :: "sql3 \<Rightarrow> sql3 \<Rightarrow> sql3" where "sql_and a b = min a b"
definition sql_or :: "sql3 \<Rightarrow> sql3 \<Rightarrow> sql3" where "sql_or a b = max a b"
definition sql_of_bool :: "bool \<Rightarrow> sql3" where "sql_of_bool b = (if b then STrue else SFalse)"

definition sql_all :: "sql3 list \<Rightarrow> sql3" where "sql_all xs = foldr sql_and xs STrue"
definition sql_any :: "sql3 list \<Rightarrow> sql3" where "sql_any xs = foldr sql_or xs SFalse"

lemma sql_and_STrue [simp]: "sql_and a b = STrue \<longleftrightarrow> a = STrue \<and> b = STrue"
  by (cases a; cases b) (simp_all add: sql_and_def min_def less_eq_sql3_def)

lemma sql_or_STrue [simp]: "sql_or a b = STrue \<longleftrightarrow> a = STrue \<or> b = STrue"
  by (cases a; cases b) (simp_all add: sql_or_def max_def less_eq_sql3_def)

lemma sql_of_bool_STrue [simp]: "sql_of_bool b = STrue \<longleftrightarrow> b"
  by (simp add: sql_of_bool_def)

lemma sql_all_STrue [simp]: "sql_all xs = STrue \<longleftrightarrow> (\<forall>x \<in> set xs. x = STrue)"
  by (induction xs) (auto simp: sql_all_def)

lemma sql_any_STrue [simp]: "sql_any xs = STrue \<longleftrightarrow> (\<exists>x \<in> set xs. x = STrue)"
  by (induction xs) (auto simp: sql_any_def)

subsection \<open>Values, binds and expressions\<close>

datatype sql_type = TBool | TNum | TText | TTextArr | TTime

datatype sql_val = VNull | VBool bool | VNum int | VText string | VTextArr "string list" | VTime int

fun has_type :: "sql_val \<Rightarrow> sql_type \<Rightarrow> bool" where
  "has_type VNull t = True"
| "has_type (VBool _) t = (t = TBool)"
| "has_type (VNum _) t = (t = TNum)"
| "has_type (VText _) t = (t = TText)"
| "has_type (VTextArr _) t = (t = TTextArr)"
| "has_type (VTime _) t = (t = TTime)"

datatype sql_expr =
    SCol string string
  | SBool bool
  | SInt int
  | SCoalesce sql_expr sql_expr
  | SAgeDays sql_expr
  | SBoth sql_expr sql_expr

fun render_expr :: "sql_expr \<Rightarrow> string" where
  "render_expr (SCol a c) = a @ ''.'' @ c"
| "render_expr (SBool b) = (if b then ''true'' else ''false'')"
| "render_expr (SInt n) = show_int n"
| "render_expr (SCoalesce e d) = ''COALESCE('' @ render_expr e @ '', '' @ render_expr d @ '')''"
| "render_expr (SAgeDays e) =
     ''FLOOR(EXTRACT(EPOCH FROM (now() - '' @ render_expr e @ '')) / 86400)''"
| "render_expr (SBoth a b) = ''('' @ render_expr a @ '' AND '' @ render_expr b @ '')''"

record sql_env =
  env_now :: int
  env_col :: "string \<Rightarrow> string \<Rightarrow> sql_val"
  env_member :: "string \<Rightarrow> string \<Rightarrow> bool"
    \<comment> \<open>table and URI: is \<open>bu.did\<close> a member?\<close>
  env_lower :: "string \<Rightarrow> string"
  env_regex :: "string \<Rightarrow> string \<Rightarrow> bool"
    \<comment> \<open>pattern and subject\<close>

definition val_and :: "sql_val \<Rightarrow> sql_val \<Rightarrow> sql_val" where
  "val_and a b =
     (let t = (\<lambda>v. case v of VBool True \<Rightarrow> STrue | VBool False \<Rightarrow> SFalse | _ \<Rightarrow> SUnknown)
      in case sql_and (t a) (t b) of STrue \<Rightarrow> VBool True | SFalse \<Rightarrow> VBool False | SUnknown \<Rightarrow> VNull)"

fun eval_expr :: "sql_env \<Rightarrow> sql_expr \<Rightarrow> sql_val" where
  "eval_expr env (SCol a c) = env_col env a c"
| "eval_expr env (SBool b) = VBool b"
| "eval_expr env (SInt n) = VNum n"
| "eval_expr env (SCoalesce e d) =
     (if eval_expr env e = VNull then eval_expr env d else eval_expr env e)"
| "eval_expr env (SAgeDays e) =
     (case eval_expr env e of
        VTime t \<Rightarrow> VNum ((env_now env - t) div (86400 * 1000000))
      | _ \<Rightarrow> VNull)"
| "eval_expr env (SBoth a b) = val_and (eval_expr env a) (eval_expr env b)"

text \<open>\<open>Bind\<close>: the values bound to the clause's placeholders, in push order.\<close>

datatype bind = BBool bool | BInt int | BText string | BTextArray "string list"

fun bind_val :: "bind \<Rightarrow> sql_val" where
  "bind_val (BBool b) = VBool b"
| "bind_val (BInt n) = VNum n"
| "bind_val (BText s) = VText s"
| "bind_val (BTextArray ss) = VTextArr ss"

fun bind_type :: "bind \<Rightarrow> sql_type" where
  "bind_type (BBool b) = TBool"
| "bind_type (BInt n) = TNum"
| "bind_type (BText s) = TText"
| "bind_type (BTextArray ss) = TTextArr"

text \<open>Placeholder \<open>$i\<close>: the first \<open>off\<close> are bound by the caller, the clause's own follow.\<close>

definition nth_bind :: "nat \<Rightarrow> bind list \<Rightarrow> nat \<Rightarrow> bind option" where
  "nth_bind off bs i = (if off < i \<and> i - off \<le> length bs then Some (bs ! (i - off - 1)) else None)"

definition param :: "nat \<Rightarrow> bind list \<Rightarrow> nat \<Rightarrow> sql_val" where
  "param off bs i = (case nth_bind off bs i of None \<Rightarrow> VNull | Some b \<Rightarrow> bind_val b)"

subsection \<open>LIKE\<close>

text \<open>
  \<open>%\<close> matches any sequence, \<open>_\<close> one character (one UTF-8 lead byte and its continuation
  bytes), a backslash makes the next byte literal.
\<close>

definition drop_utf8_char :: "string \<Rightarrow> string option" where
  "drop_utf8_char s =
     (case s of [] \<Rightarrow> None
      | c # cs \<Rightarrow> Some (dropWhile (\<lambda>b. 128 \<le> (of_char b :: nat) \<and> (of_char b :: nat) < 192) cs))"

lemma drop_utf8_char_length: "drop_utf8_char s = Some t \<Longrightarrow> length t < length s"
  by (cases s) (auto simp: drop_utf8_char_def intro: le_imp_less_Suc length_dropWhile_le)

abbreviation backslash :: char where "backslash \<equiv> CHR 0x5C"

function sql_like :: "string \<Rightarrow> string \<Rightarrow> bool" where
  "sql_like [] s = (s = [])"
| "sql_like (p # ps) s =
     (if p = CHR ''%'' then
        sql_like ps s \<or> (case s of [] \<Rightarrow> False | c # t \<Rightarrow> sql_like (p # ps) t)
      else if p = backslash then
        (case (ps, s) of (q # qs, c # t) \<Rightarrow> c = q \<and> sql_like qs t | _ \<Rightarrow> False)
      else if p = CHR ''_'' then
        (case drop_utf8_char s of None \<Rightarrow> False | Some t \<Rightarrow> sql_like ps t)
      else (case s of [] \<Rightarrow> False | c # t \<Rightarrow> c = p \<and> sql_like ps t))"
  by pat_completeness auto
termination
  by (relation "measure (\<lambda>(p, s). length p + length s)") (auto dest: drop_utf8_char_length)

declare sql_like.simps [simp del]

lemma sql_like_Nil [simp]: "sql_like [] s \<longleftrightarrow> s = []"
  by (simp add: sql_like.simps)

lemma sql_like_percent: "sql_like (CHR ''%'' # ps) s \<longleftrightarrow> (\<exists>a b. s = a @ b \<and> sql_like ps b)"
proof (induction s)
  case Nil
  then show ?case by (simp add: sql_like.simps(2))
next
  case (Cons c t)
  have "sql_like (CHR ''%'' # ps) (c # t) \<longleftrightarrow> sql_like ps (c # t) \<or> sql_like (CHR ''%'' # ps) t"
    by (subst sql_like.simps(2)) simp
  also have "\<dots> \<longleftrightarrow> (\<exists>a b. c # t = a @ b \<and> sql_like ps b)"
    unfolding Cons.IH by (auto simp: Cons_eq_append_conv)
  finally show ?case .
qed

lemma sql_like_escaped: "sql_like (backslash # q # ps) s \<longleftrightarrow> (\<exists>t. s = q # t \<and> sql_like ps t)"
  by (cases s) (auto simp: sql_like.simps(2))

lemma sql_like_literal:
  "p \<noteq> CHR ''%'' \<Longrightarrow> p \<noteq> backslash \<Longrightarrow> p \<noteq> CHR ''_'' \<Longrightarrow>
   sql_like (p # ps) s \<longleftrightarrow> (\<exists>t. s = p # t \<and> sql_like ps t)"
  by (cases s) (auto simp: sql_like.simps(2))

subsection \<open>Predicates and WHERE clauses\<close>

datatype sql_cmp = CEq | CNe | CGt | CGe | CLt | CLe

fun cmp_text :: "sql_cmp \<Rightarrow> string" where
  "cmp_text CEq = ''=''"
| "cmp_text CNe = ''<>''"
| "cmp_text CGt = ''>''"
| "cmp_text CGe = ''>=''"
| "cmp_text CLt = ''<''"
| "cmp_text CLe = ''<=''"

fun cmp_int :: "sql_cmp \<Rightarrow> int \<Rightarrow> int \<Rightarrow> bool" where
  "cmp_int CEq a b = (a = b)"
| "cmp_int CNe a b = (a \<noteq> b)"
| "cmp_int CGt a b = (a > b)"
| "cmp_int CGe a b = (a \<ge> b)"
| "cmp_int CLt a b = (a < b)"
| "cmp_int CLe a b = (a \<le> b)"

fun eval_cmp :: "sql_cmp \<Rightarrow> sql_val \<Rightarrow> sql_val \<Rightarrow> sql3" where
  "eval_cmp op (VNum a) (VNum b) = sql_of_bool (cmp_int op a b)"
| "eval_cmp CEq (VBool a) (VBool b) = sql_of_bool (a = b)"
| "eval_cmp CNe (VBool a) (VBool b) = sql_of_bool (a \<noteq> b)"
| "eval_cmp CEq (VText a) (VText b) = sql_of_bool (a = b)"
| "eval_cmp CNe (VText a) (VText b) = sql_of_bool (a \<noteq> b)"
| "eval_cmp _ _ _ = SUnknown"

datatype sql_pred =
    PTrue
  | PFalse
  | PCmp sql_expr sql_cmp nat
  | POrd sql_expr sql_cmp nat
  | PBetween sql_expr nat nat
  | PDistinct sql_expr nat
  | PLikeLower sql_expr nat
  | PRegex sql_expr nat
  | PAny sql_expr nat
  | PNotAll sql_expr nat
  | PMember string string nat

definition dollar :: "nat \<Rightarrow> string" where "dollar i = ''$'' @ show_nat i"

fun render_pred :: "sql_pred \<Rightarrow> string" where
  "render_pred PTrue = ''TRUE''"
| "render_pred PFalse = ''FALSE''"
| "render_pred (PCmp e op i) = render_expr e @ '' '' @ cmp_text op @ '' '' @ dollar i"
| "render_pred (POrd e op i) = ''('' @ render_expr e @ '') '' @ cmp_text op @ '' '' @ dollar i"
| "render_pred (PBetween e i j) =
     ''(('' @ render_expr e @ '') >= '' @ dollar i @ '' AND ('' @ render_expr e @ '') <= '' @ dollar j @ '')''"
| "render_pred (PDistinct e i) = render_expr e @ '' IS DISTINCT FROM '' @ dollar i"
| "render_pred (PLikeLower e i) = ''LOWER('' @ render_expr e @ '') LIKE LOWER('' @ dollar i @ '')''"
| "render_pred (PRegex e i) = render_expr e @ '' ~ '' @ dollar i"
| "render_pred (PAny e i) = render_expr e @ '' = ANY('' @ dollar i @ ''::text[])''"
| "render_pred (PNotAll e i) =
     ''('' @ render_expr e @ '' IS NOT NULL AND '' @ render_expr e @ '' <> ALL('' @ dollar i @ ''::text[]))''"
| "render_pred (PMember tab col i) =
     ''EXISTS (SELECT 1 FROM '' @ tab @ '' m WHERE m.'' @ col @ '' = '' @ dollar i
       @ '' AND m.member_did = bu.did)''"

fun eval_pred :: "sql_env \<Rightarrow> (nat \<Rightarrow> sql_val) \<Rightarrow> sql_pred \<Rightarrow> sql3" where
  "eval_pred env pm PTrue = STrue"
| "eval_pred env pm PFalse = SFalse"
| "eval_pred env pm (PCmp e op i) = eval_cmp op (eval_expr env e) (pm i)"
| "eval_pred env pm (POrd e op i) = eval_cmp op (eval_expr env e) (pm i)"
| "eval_pred env pm (PBetween e i j) =
     sql_and (eval_cmp CGe (eval_expr env e) (pm i)) (eval_cmp CLe (eval_expr env e) (pm j))"
| "eval_pred env pm (PDistinct e i) = sql_of_bool (eval_expr env e \<noteq> pm i)"
| "eval_pred env pm (PLikeLower e i) =
     (case (eval_expr env e, pm i) of
        (VText s, VText p) \<Rightarrow> sql_of_bool (sql_like (env_lower env p) (env_lower env s))
      | _ \<Rightarrow> SUnknown)"
| "eval_pred env pm (PRegex e i) =
     (case (eval_expr env e, pm i) of
        (VText s, VText p) \<Rightarrow> sql_of_bool (env_regex env p s)
      | _ \<Rightarrow> SUnknown)"
| "eval_pred env pm (PAny e i) =
     (case pm i of
        VTextArr ss \<Rightarrow> sql_any (map (\<lambda>s. eval_cmp CEq (eval_expr env e) (VText s)) ss)
      | _ \<Rightarrow> SUnknown)"
| "eval_pred env pm (PNotAll e i) =
     sql_and (sql_of_bool (eval_expr env e \<noteq> VNull))
       (case pm i of
          VTextArr ss \<Rightarrow> sql_all (map (\<lambda>s. eval_cmp CNe (eval_expr env e) (VText s)) ss)
        | _ \<Rightarrow> SUnknown)"
| "eval_pred env pm (PMember tab col i) =
     (case pm i of VText uri \<Rightarrow> sql_of_bool (env_member env tab uri) | _ \<Rightarrow> SUnknown)"

text \<open>A clause is an OR of groups, a group an AND of predicates; an empty group is \<open>FALSE\<close>.\<close>

datatype sql_group = GFalse | GAnd "sql_pred list"
datatype sql_where = WTrue | WFalse | WOr "sql_group list"

fun join :: "string \<Rightarrow> string list \<Rightarrow> string" where
  "join sep [] = []"
| "join sep [x] = x"
| "join sep (x # y # ys) = x @ sep @ join sep (y # ys)"

fun render_group :: "sql_group \<Rightarrow> string" where
  "render_group GFalse = ''FALSE''"
| "render_group (GAnd ps) = ''('' @ join '' AND '' (map render_pred ps) @ '')''"

fun render_where :: "sql_where \<Rightarrow> string" where
  "render_where WTrue = ''TRUE''"
| "render_where WFalse = ''FALSE''"
| "render_where (WOr gs) = ''('' @ join '' OR '' (map render_group gs) @ '')''"

fun eval_group :: "sql_env \<Rightarrow> (nat \<Rightarrow> sql_val) \<Rightarrow> sql_group \<Rightarrow> sql3" where
  "eval_group env pm GFalse = SFalse"
| "eval_group env pm (GAnd ps) = sql_all (map (eval_pred env pm) ps)"

fun eval_where :: "sql_env \<Rightarrow> (nat \<Rightarrow> sql_val) \<Rightarrow> sql_where \<Rightarrow> sql3" where
  "eval_where env pm WTrue = STrue"
| "eval_where env pm WFalse = SFalse"
| "eval_where env pm (WOr gs) = sql_any (map (eval_group env pm) gs)"

subsection \<open>Placeholders and types\<close>

fun pred_params :: "sql_pred \<Rightarrow> nat list" where
  "pred_params PTrue = []"
| "pred_params PFalse = []"
| "pred_params (PCmp e op i) = [i]"
| "pred_params (POrd e op i) = [i]"
| "pred_params (PBetween e i j) = [i, j]"
| "pred_params (PDistinct e i) = [i]"
| "pred_params (PLikeLower e i) = [i]"
| "pred_params (PRegex e i) = [i]"
| "pred_params (PAny e i) = [i]"
| "pred_params (PNotAll e i) = [i]"
| "pred_params (PMember tab col i) = [i]"

fun group_params :: "sql_group \<Rightarrow> nat list" where
  "group_params GFalse = []"
| "group_params (GAnd ps) = concat (map pred_params ps)"

fun where_params :: "sql_where \<Rightarrow> nat list" where
  "where_params WTrue = []"
| "where_params WFalse = []"
| "where_params (WOr gs) = concat (map group_params gs)"

lemma eval_pred_cong:
  "(\<And>i. i \<in> set (pred_params p) \<Longrightarrow> pm i = pm' i) \<Longrightarrow> eval_pred env pm p = eval_pred env pm' p"
  by (cases p) auto

type_synonym col_types = "string \<Rightarrow> string \<Rightarrow> sql_type option"

fun expr_type :: "col_types \<Rightarrow> sql_expr \<Rightarrow> sql_type option" where
  "expr_type ct (SCol a c) = ct a c"
| "expr_type ct (SBool b) = Some TBool"
| "expr_type ct (SInt n) = Some TNum"
| "expr_type ct (SCoalesce e d) =
     (if expr_type ct e = expr_type ct d then expr_type ct e else None)"
| "expr_type ct (SAgeDays e) = (if expr_type ct e = Some TTime then Some TNum else None)"
| "expr_type ct (SBoth a b) =
     (if expr_type ct a = Some TBool \<and> expr_type ct b = Some TBool then Some TBool else None)"

text \<open>\<open>pred_typed ct bt p\<close>: PostgreSQL finds an operator for every operand pair of \<open>p\<close>.\<close>

fun pred_typed :: "col_types \<Rightarrow> (nat \<Rightarrow> sql_type option) \<Rightarrow> sql_pred \<Rightarrow> bool" where
  "pred_typed ct bt PTrue = True"
| "pred_typed ct bt PFalse = True"
| "pred_typed ct bt (PCmp e op i) =
     (expr_type ct e \<noteq> None \<and> expr_type ct e = bt i \<and> (op \<in> {CEq, CNe} \<or> bt i = Some TNum))"
| "pred_typed ct bt (POrd e op i) = (expr_type ct e = Some TNum \<and> bt i = Some TNum)"
| "pred_typed ct bt (PBetween e i j) =
     (expr_type ct e = Some TNum \<and> bt i = Some TNum \<and> bt j = Some TNum)"
| "pred_typed ct bt (PDistinct e i) = (expr_type ct e \<noteq> None \<and> expr_type ct e = bt i)"
| "pred_typed ct bt (PLikeLower e i) = (expr_type ct e = Some TText \<and> bt i = Some TText)"
| "pred_typed ct bt (PRegex e i) = (expr_type ct e = Some TText \<and> bt i = Some TText)"
| "pred_typed ct bt (PAny e i) = (expr_type ct e = Some TText \<and> bt i = Some TTextArr)"
| "pred_typed ct bt (PNotAll e i) = (expr_type ct e = Some TText \<and> bt i = Some TTextArr)"
| "pred_typed ct bt (PMember tab col i) = (bt i = Some TText)"

fun group_typed :: "col_types \<Rightarrow> (nat \<Rightarrow> sql_type option) \<Rightarrow> sql_group \<Rightarrow> bool" where
  "group_typed ct bt GFalse = True"
| "group_typed ct bt (GAnd ps) = list_all (pred_typed ct bt) ps"

fun where_typed :: "col_types \<Rightarrow> (nat \<Rightarrow> sql_type option) \<Rightarrow> sql_where \<Rightarrow> bool" where
  "where_typed ct bt WTrue = True"
| "where_typed ct bt WFalse = True"
| "where_typed ct bt (WOr gs) = list_all (group_typed ct bt) gs"

end
