(* ===== verification/Tables.thy ===== *)
theory Tables
  imports Prelude
begin

section \<open>Tables, their statements and step systems\<close>

text \<open>
  A table of the database is the list of its rows in storage order. The SQL statements of the
  sources are of four shapes: \<open>INSERT ... ON CONFLICT (key) DO UPDATE\<close> (or \<open>DO NOTHING\<close>),
  \<open>UPDATE ... WHERE\<close>, \<open>DELETE ... WHERE\<close> and \<open>SELECT\<close> by key. The locale \<open>keyed_table\<close> is
  the contract of the first shape: when the update keeps the key, the key stays unique, the
  written row is found and every other row is untouched.
\<close>

definition update_where :: "('r \<Rightarrow> bool) \<Rightarrow> ('r \<Rightarrow> 'r) \<Rightarrow> 'r list \<Rightarrow> 'r list" where
  "update_where P f rows = map (\<lambda>r. if P r then f r else r) rows"

definition upsert :: "('r \<Rightarrow> 'k) \<Rightarrow> ('r \<Rightarrow> 'r \<Rightarrow> 'r) \<Rightarrow> 'r \<Rightarrow> 'r list \<Rightarrow> 'r list" where
  "upsert key merge new rows =
     (if key new \<in> key ` set rows
      then update_where (\<lambda>r. key r = key new) (\<lambda>r. merge r new) rows
      else rows @ [new])"

definition delete_where :: "('r \<Rightarrow> bool) \<Rightarrow> 'r list \<Rightarrow> 'r list" where
  "delete_where P rows = filter (\<lambda>r. \<not> P r) rows"

definition find_row :: "('r \<Rightarrow> 'k) \<Rightarrow> 'k \<Rightarrow> 'r list \<Rightarrow> 'r option" where
  "find_row key k rows = find (\<lambda>r. key r = k) rows"

definition unique_key :: "('r \<Rightarrow> 'k) \<Rightarrow> 'r list \<Rightarrow> bool" where
  "unique_key key rows = distinct (map key rows)"

text \<open>\<open>ON CONFLICT DO NOTHING\<close>.\<close>

definition keep_old :: "'r \<Rightarrow> 'r \<Rightarrow> 'r" where
  "keep_old old new = old"

lemma find_row_Some_in: "find_row key k rows = Some r \<Longrightarrow> r \<in> set rows \<and> key r = k"
  by (auto simp: find_row_def find_Some_iff)

lemma find_row_None_iff: "find_row key k rows = None \<longleftrightarrow> k \<notin> key ` set rows"
  by (auto simp: find_row_def find_None_iff)

lemma find_row_append:
  "find_row key k (xs @ ys) =
     (case find_row key k xs of None \<Rightarrow> find_row key k ys | Some r \<Rightarrow> Some r)"
  by (induction xs) (auto simp: find_row_def)

lemma find_row_single: "find_row key k [r] = (if key r = k then Some r else None)"
  by (simp add: find_row_def)

lemma find_row_unique:
  "unique_key key rows \<Longrightarrow> r \<in> set rows \<Longrightarrow> find_row key (key r) rows = Some r"
proof (induction rows)
  case Nil
  then show ?case by simp
next
  case (Cons x xs)
  then show ?case by (cases "r = x") (auto simp: find_row_def unique_key_def)
qed

lemma unique_key_Nil [simp]: "unique_key key []"
  by (simp add: unique_key_def)

lemma unique_key_delete_where [intro, table_simps]:
  "unique_key key rows \<Longrightarrow> unique_key key (delete_where P rows)"
  by (simp add: unique_key_def delete_where_def distinct_map_filter)

lemma unique_key_update_where:
  assumes "unique_key key rows" and "\<And>r. P r \<Longrightarrow> key (f r) = key r"
  shows "unique_key key (update_where P f rows)"
proof -
  have "map key (update_where P f rows) = map key rows"
    using assms(2) by (simp add: update_where_def)
  with assms(1) show ?thesis by (simp add: unique_key_def)
qed

lemma map_key_update_where:
  "(\<And>r. P r \<Longrightarrow> key (f r) = key r) \<Longrightarrow> map key (update_where P f rows) = map key rows"
  by (simp add: update_where_def)

lemma keys_update_where:
  assumes "\<And>r. P r \<Longrightarrow> key (f r) = key r"
  shows "key ` set (update_where P f rows) = key ` set rows"
  using map_key_update_where [of P key f rows, OF assms] by (metis set_map)

lemma find_row_delete_where [table_simps]:
  "(\<And>r. r \<in> set rows \<Longrightarrow> key r = k \<Longrightarrow> \<not> P r) \<Longrightarrow>
   find_row key k (delete_where P rows) = find_row key k rows"
  by (induction rows) (auto simp: find_row_def delete_where_def)

lemma find_row_delete_where_None [table_simps]:
  "(\<And>r. r \<in> set rows \<Longrightarrow> key r = k \<Longrightarrow> P r) \<Longrightarrow> find_row key k (delete_where P rows) = None"
  by (auto simp: find_row_None_iff delete_where_def)

lemma find_row_update_where:
  "(\<And>r. P r \<Longrightarrow> key (f r) = key r) \<Longrightarrow>
   find_row key k (update_where P f rows) =
     map_option (\<lambda>r. if P r then f r else r) (find_row key k rows)"
  by (induction rows) (auto simp: find_row_def update_where_def)

lemma set_delete_where [simp]: "set (delete_where P rows) = {r \<in> set rows. \<not> P r}"
  by (auto simp: delete_where_def)

lemma set_update_where: "set (update_where P f rows) = (\<lambda>r. if P r then f r else r) ` set rows"
  by (auto simp: update_where_def)

text \<open>A second unique column stays unique when the statement has looked for the value elsewhere.\<close>

lemma unique_update_other:
  assumes "unique_key key rows" "unique_key f rows"
    and "\<forall>v \<in> set rows. key v \<noteq> k \<longrightarrow> f v \<noteq> z" and "\<And>r. f (g r) = z"
  shows "unique_key f (update_where (\<lambda>r. key r = k) g rows)"
  using assms(1-3)
proof (induction rows)
  case (Cons v vs)
  then have "unique_key f (update_where (\<lambda>r. key r = k) g vs)" by (simp add: unique_key_def)
  moreover have "f (if key v = k then g v else v) \<noteq> f (if key w = k then g w else w)" if "w \<in> set vs" for w
  proof -
    have "key v \<notin> key ` set vs" "f v \<notin> f ` set vs" using Cons.prems(1,2) by (simp_all add: unique_key_def)
    with that have "key w \<noteq> key v" "f w \<noteq> f v" by (metis imageI)+
    with Cons.prems(3) that assms(4) [of v] assms(4) [of w] show ?thesis by auto
  qed
  then have "f (if key v = k then g v else v) \<notin> set (map (\<lambda>w. f (if key w = k then g w else w)) vs)"
    unfolding set_map by blast
  ultimately show ?case by (simp add: unique_key_def update_where_def comp_def)
qed (simp add: update_where_def)

lemma unique_upsert_other:
  assumes "unique_key key rows" "unique_key f rows"
    and "\<forall>v \<in> set rows. key v \<noteq> key u \<longrightarrow> f v \<noteq> f u" and "\<And>r. f (merge r u) = f u"
  shows "unique_key f (upsert key merge u rows)"
proof (cases "key u \<in> key ` set rows")
  case True
  have "unique_key f (update_where (\<lambda>r. key r = key u) (\<lambda>r. merge r u) rows)"
    using assms by (intro unique_update_other [where z = "f u"])
  with True show ?thesis by (simp add: upsert_def)
next
  case False
  have "f v \<noteq> f u" if "v \<in> set rows" for v
    using assms(3) False that by (metis image_eqI)
  then have "f u \<notin> f ` set rows" by (metis imageE)
  with assms(2) False show ?thesis by (simp add: upsert_def unique_key_def)
qed

lemma update_whereE:
  assumes "r \<in> set (update_where P f rows)"
  obtains (hit) r0 where "r0 \<in> set rows" "P r0" "r = f r0"
  | (miss) "r \<in> set rows" "\<not> P r"
proof -
  from assms obtain r0 where "r0 \<in> set rows" "r = (if P r0 then f r0 else r0)"
    unfolding set_update_where by (rule imageE)
  with that show thesis by (cases "P r0") simp_all
qed

locale keyed_table =
  fixes key :: "'r \<Rightarrow> 'k"
    and merge :: "'r \<Rightarrow> 'r \<Rightarrow> 'r"
  assumes merge_key: "key old = key new \<Longrightarrow> key (merge old new) = key new"
begin

lemma map_key_upsert:
  "map key (upsert key merge new rows) =
     (if key new \<in> key ` set rows then map key rows else map key rows @ [key new])"
  by (auto simp: upsert_def update_where_def merge_key)

lemma keys_upsert: "key ` set (upsert key merge new rows) = insert (key new) (key ` set rows)"
proof -
  have "set (map key (upsert key merge new rows)) = insert (key new) (set (map key rows))"
    unfolding map_key_upsert by auto
  then show ?thesis by (simp only: set_map)
qed

lemma unique_upsert: "unique_key key rows \<Longrightarrow> unique_key key (upsert key merge new rows)"
  by (simp add: unique_key_def map_key_upsert)

lemma find_upsert:
  "find_row key k (upsert key merge new rows) =
     (if k = key new
      then (case find_row key k rows of None \<Rightarrow> Some new | Some old \<Rightarrow> Some (merge old new))
      else find_row key k rows)"
proof (cases "key new \<in> key ` set rows")
  case True
  have "find_row key k (update_where (\<lambda>r. key r = key new) (\<lambda>r. merge r new) rows) =
      map_option (\<lambda>r. if key r = key new then merge r new else r) (find_row key k rows)"
    by (rule find_row_update_where) (simp add: merge_key)
  with True have eq: "find_row key k (upsert key merge new rows) =
      map_option (\<lambda>r. if key r = key new then merge r new else r) (find_row key k rows)"
    by (simp add: upsert_def)
  show ?thesis
  proof (cases "find_row key k rows")
    case None
    then have "k \<notin> key ` set rows" by (simp add: find_row_None_iff)
    with True have "k \<noteq> key new" by auto
    with None eq show ?thesis by simp
  next
    case (Some r)
    then have "key r = k" by (auto dest: find_row_Some_in)
    with Some eq show ?thesis by auto
  qed
next
  case False
  then have "find_row key (key new) rows = None" by (auto simp: find_row_None_iff)
  with False show ?thesis
    by (auto simp: upsert_def find_row_append find_row_single split: option.splits)
qed

lemma find_upsert_other:
  "k \<noteq> key new \<Longrightarrow> find_row key k (upsert key merge new rows) = find_row key k rows"
  by (simp add: find_upsert)

lemma upsert_fresh: "key new \<notin> key ` set rows \<Longrightarrow> upsert key merge new rows = rows @ [new]"
  by (simp add: upsert_def)

end

interpretation keep: keyed_table key keep_old for key
  by unfold_locales (simp add: keep_old_def)

lemma keep_upsert: "upsert key keep_old new rows = (if key new \<in> key ` set rows then rows else rows @ [new])"
  by (simp add: upsert_def update_where_def keep_old_def)

subsection \<open>Step systems\<close>

inductive reach :: "('s \<Rightarrow> bool) \<Rightarrow> ('s \<Rightarrow> 's \<Rightarrow> bool) \<Rightarrow> 's \<Rightarrow> bool"
  for init :: "'s \<Rightarrow> bool" and step :: "'s \<Rightarrow> 's \<Rightarrow> bool" where
  reach_init: "init s \<Longrightarrow> reach init step s"
| reach_step: "reach init step s \<Longrightarrow> step s t \<Longrightarrow> reach init step t"

locale step_invariant =
  fixes init :: "'s \<Rightarrow> bool"
    and step :: "'s \<Rightarrow> 's \<Rightarrow> bool"
    and inv :: "'s \<Rightarrow> bool"
  assumes init_inv: "init s \<Longrightarrow> inv s"
    and step_inv: "inv s \<Longrightarrow> step s t \<Longrightarrow> inv t"
begin

lemma reach_inv: "reach init step s \<Longrightarrow> inv s"
  by (induction rule: reach.induct) (auto intro: init_inv step_inv)

lemma steps_inv: "inv s \<Longrightarrow> step\<^sup>*\<^sup>* s t \<Longrightarrow> inv t"
  by (rotate_tac 1, induction rule: rtranclp_induct) (auto intro: step_inv)

end

end
