(* ===== verification/Schema.thy ===== *)
theory Schema
  imports Condition_Eval Tables
begin

section \<open>The database (\<open>migrations/\<close>) and the rows the rules read\<close>

text \<open>
  One record per table of the migrations, with the columns the sources read or write; instants
  are microseconds, \<open>INTEGER\<close> columns are \<open>int\<close>. A database is the record of its tables. The
  statements are those of \<open>Tables\<close>; \<open>ON DELETE CASCADE\<close> is spelled out in the three deletions
  that can fire it. \<open>db_ok\<close> collects the primary keys, the unique constraints and the foreign keys
  that PostgreSQL enforces, the unique index on \<open>lower(handle)\<close> of \<open>002_bsky_accounts.sql\<close> included;
  \<open>LOWER\<close> there is that of the collation the database was created with, its field \<open>db_lower\<close>, which no
  statement changes.

  \<open>facts_of_rows\<close> is \<open>FACTS_SELECT\<close> with \<open>From<FactsRow>\<close>, \<open>load_memberships\<close> its companion,
  both of \<open>sync.rs\<close>; \<open>row_env\<close> is what the same rows are to a \<open>WHERE\<close> clause over the aliases
  \<open>bu\<close> and \<open>ar\<close>.
\<close>

subsection \<open>Rows\<close>

record role_link =
  rl_guild :: string
  rl_role :: string
  rl_token :: string
  rl_account :: "string option"
  rl_tree :: json
  rl_version :: int
  rl_updated_at :: instant

record assignment =
  as_guild :: string
  as_role :: string
  as_user :: string

record bsky_account =
  ba_did :: string
  ba_handle :: string
  ba_pds_host :: string
  ba_display_name :: "string option"
  ba_description :: "string option"
  ba_has_avatar :: bool
  ba_has_banner :: bool
  ba_followers_count :: int
  ba_follows_count :: int
  ba_posts_count :: int
  ba_created_at :: "instant option"
  ba_access_enc :: "u8 list"
  ba_refresh_enc :: "u8 list"
  ba_token_expires_at :: instant
  ba_refresh_failed_at :: "instant option"
  ba_last_synced_at :: "instant option"
  ba_updated_at :: instant

record bsky_user =
  bu_discord_id :: string
  bu_did :: string
  bu_handle :: string
  bu_handle_domain :: "string option"
  bu_has_custom_domain :: bool
  bu_pds_host :: "string option"
  bu_display_name :: "string option"
  bu_description :: "string option"
  bu_has_avatar :: bool
  bu_has_banner :: bool
  bu_posts_count :: int
  bu_followers_count :: int
  bu_follows_count :: int
  bu_created_at :: "instant option"
  bu_discord_name :: "string option"
  bu_linked_at :: instant
  bu_refreshed_at :: instant

record account_relation =
  ar_account :: string
  ar_viewer :: string
  ar_is_follower :: bool
  ar_followed_at :: "instant option"
  ar_is_followed_back :: bool
  ar_liked :: int
  ar_reposted :: int
  ar_replied :: int
  ar_last_synced_at :: instant

record bsky_list =
  li_uri :: string
  li_owner :: string
  li_name :: string
  li_description :: "string option"
  li_purpose :: "string option"

record starter_pack =
  sp_uri :: string
  sp_owner :: string
  sp_name :: string
  sp_description :: "string option"
  sp_list_uri :: "string option"

record membership =
  mb_uri :: string
  mb_did :: string

datatype job_status = Pending | InProgress | Completed | Dead

record job =
  j_id :: int
  j_kind :: string
  j_payload :: json
  j_status :: job_status
  j_attempts :: int
  j_max_attempts :: int
  j_next_run_at :: instant
  j_last_error :: "string option"
  j_locked_by :: "string option"
  j_locked_at :: "instant option"
  j_completed_at :: "instant option"

record guild_setting =
  gs_guild :: string
  gs_view_permission :: string

record guild_account =
  ga_guild :: string
  ga_account :: string
  ga_connected_by :: "string option"
  ga_connected_at :: instant

record db =
  role_links :: "role_link list"
  assignments :: "assignment list"
  accounts :: "bsky_account list"
  users :: "bsky_user list"
  relations :: "account_relation list"
  bsky_lists :: "bsky_list list"
  list_members :: "membership list"
  packs :: "starter_pack list"
  pack_members :: "membership list"
  jobs :: "job list"
  next_job_id :: int
  settings :: "guild_setting list"
  guild_accounts :: "guild_account list"
  db_lower :: "string \<Rightarrow> string"
    \<comment> \<open>\<open>LOWER\<close> under the collation of this database, which the index on account handles uses\<close>

definition empty_db :: db where
  "empty_db = \<lparr>role_links = [], assignments = [], accounts = [], users = [], relations = [],
     bsky_lists = [], list_members = [], packs = [], pack_members = [], jobs = [], next_job_id = 1,
     settings = [], guild_accounts = [], db_lower = to_ascii_lowercase\<rparr>"

text \<open>A database after the migrations, under any collation.\<close>

definition fresh_db :: "db \<Rightarrow> bool" where
  "fresh_db d \<longleftrightarrow> d = empty_db\<lparr>db_lower := db_lower d\<rparr>"

subsection \<open>Keys\<close>

definition link_key :: "role_link \<Rightarrow> string \<times> string" where
  "link_key r = (rl_guild r, rl_role r)"
definition assignment_key :: "assignment \<Rightarrow> string \<times> string \<times> string" where
  "assignment_key a = (as_guild a, as_role a, as_user a)"
definition assignment_link :: "assignment \<Rightarrow> string \<times> string" where
  "assignment_link a = (as_guild a, as_role a)"
definition relation_key :: "account_relation \<Rightarrow> string \<times> string" where
  "relation_key r = (ar_account r, ar_viewer r)"
definition member_key :: "membership \<Rightarrow> string \<times> string" where
  "member_key m = (mb_uri m, mb_did m)"
definition guild_account_key :: "guild_account \<Rightarrow> string \<times> string" where
  "guild_account_key g = (ga_guild g, ga_account g)"

definition find_link :: "string \<Rightarrow> string \<Rightarrow> db \<Rightarrow> role_link option" where
  "find_link g r d = find_row link_key (g, r) (role_links d)"

subsection \<open>Constraints\<close>

definition keys_ok :: "db \<Rightarrow> bool" where
  "keys_ok d \<longleftrightarrow>
     unique_key link_key (role_links d) \<and> unique_key assignment_key (assignments d) \<and>
     unique_key ba_did (accounts d) \<and> unique_key (\<lambda>a. db_lower d (ba_handle a)) (accounts d) \<and>
     unique_key bu_discord_id (users d) \<and> unique_key bu_did (users d) \<and> unique_key relation_key (relations d) \<and>
     unique_key li_uri (bsky_lists d) \<and> unique_key member_key (list_members d) \<and>
     unique_key sp_uri (packs d) \<and> unique_key member_key (pack_members d) \<and>
     unique_key j_id (jobs d) \<and> unique_key gs_guild (settings d) \<and>
     unique_key guild_account_key (guild_accounts d)"

definition refs_ok :: "db \<Rightarrow> bool" where
  "refs_ok d \<longleftrightarrow>
     assignment_link ` set (assignments d) \<subseteq> link_key ` set (role_links d) \<and>
     ar_account ` set (relations d) \<subseteq> ba_did ` set (accounts d) \<and>
     li_owner ` set (bsky_lists d) \<subseteq> ba_did ` set (accounts d) \<and>
     sp_owner ` set (packs d) \<subseteq> ba_did ` set (accounts d) \<and>
     mb_uri ` set (list_members d) \<subseteq> li_uri ` set (bsky_lists d) \<and>
     mb_uri ` set (pack_members d) \<subseteq> sp_uri ` set (packs d) \<and>
     ga_account ` set (guild_accounts d) \<subseteq> ba_did ` set (accounts d)"

definition db_ok :: "db \<Rightarrow> bool" where
  "db_ok d \<longleftrightarrow> keys_ok d \<and> refs_ok d"

text \<open>Deleting a parent deletes its children.\<close>

definition delete_links :: "(role_link \<Rightarrow> bool) \<Rightarrow> db \<Rightarrow> db" where
  "delete_links P d = d\<lparr>role_links := delete_where P (role_links d),
     assignments := delete_where
       (\<lambda>a. assignment_link a \<in> link_key ` {r \<in> set (role_links d). P r}) (assignments d)\<rparr>"

definition delete_lists :: "(bsky_list \<Rightarrow> bool) \<Rightarrow> db \<Rightarrow> db" where
  "delete_lists P d = d\<lparr>bsky_lists := delete_where P (bsky_lists d),
     list_members := delete_where (\<lambda>m. mb_uri m \<in> li_uri ` {l \<in> set (bsky_lists d). P l}) (list_members d)\<rparr>"

definition delete_packs :: "(starter_pack \<Rightarrow> bool) \<Rightarrow> db \<Rightarrow> db" where
  "delete_packs P d = d\<lparr>packs := delete_where P (packs d),
     pack_members := delete_where (\<lambda>m. mb_uri m \<in> sp_uri ` {p \<in> set (packs d). P p}) (pack_members d)\<rparr>"

lemma keys_ok_empty [simp]: "keys_ok (empty_db\<lparr>db_lower := low\<rparr>)"
  by (simp add: keys_ok_def empty_db_def)

lemma db_ok_empty [simp]: "db_ok (empty_db\<lparr>db_lower := low\<rparr>)"
  by (simp add: db_ok_def refs_ok_def) (simp add: empty_db_def)

lemma cascade_subset:
  "f ` set xs \<subseteq> g ` set ys \<Longrightarrow>
   f ` {x \<in> set xs. f x \<notin> g ` {y \<in> set ys. P y}} \<subseteq> g ` {y \<in> set ys. \<not> P y}"
  by blast

lemma image_keep_subset: "f ` set xs \<subseteq> A \<Longrightarrow> f ` {x \<in> set xs. Q x} \<subseteq> A"
  by blast

lemma delete_links_ok: "db_ok d \<Longrightarrow> db_ok (delete_links P d)"
  by (simp add: db_ok_def keys_ok_def refs_ok_def delete_links_def unique_key_delete_where
      cascade_subset)

lemma delete_lists_ok: "db_ok d \<Longrightarrow> db_ok (delete_lists P d)"
  by (simp add: db_ok_def keys_ok_def refs_ok_def delete_lists_def unique_key_delete_where
      cascade_subset image_keep_subset)

lemma delete_packs_ok: "db_ok d \<Longrightarrow> db_ok (delete_packs P d)"
  by (simp add: db_ok_def keys_ok_def refs_ok_def delete_packs_def unique_key_delete_where
      cascade_subset image_keep_subset)

subsection \<open>Facts of a viewer\<close>

definition facts_of_rows :: "bsky_user \<Rightarrow> account_relation option \<Rightarrow> facts" where
  "facts_of_rows u ar =
     \<lparr>f_is_follower = (case ar of None \<Rightarrow> False | Some r \<Rightarrow> ar_is_follower r),
      f_followed_at = (case ar of None \<Rightarrow> None | Some r \<Rightarrow> ar_followed_at r),
      f_is_followed_back = (case ar of None \<Rightarrow> False | Some r \<Rightarrow> ar_is_followed_back r),
      f_liked_posts_count = (case ar of None \<Rightarrow> 0 | Some r \<Rightarrow> ar_liked r),
      f_reposted_posts_count = (case ar of None \<Rightarrow> 0 | Some r \<Rightarrow> ar_reposted r),
      f_replied_posts_count = (case ar of None \<Rightarrow> 0 | Some r \<Rightarrow> ar_replied r),
      f_handle = bu_handle u, f_handle_domain = bu_handle_domain u,
      f_has_custom_domain = bu_has_custom_domain u, f_display_name = bu_display_name u,
      f_description = bu_description u, f_has_avatar = bu_has_avatar u,
      f_has_banner = bu_has_banner u, f_posts_count = bu_posts_count u,
      f_followers_count = bu_followers_count u, f_follows_count = bu_follows_count u,
      f_bsky_created_at = bu_created_at u, f_pds_host = bu_pds_host u\<rparr>"

text \<open>The join condition of both selects; the key makes the joined row unique.\<close>

definition join_relation :: "db \<Rightarrow> string \<Rightarrow> bsky_user \<Rightarrow> account_relation option" where
  "join_relation d account u = find_row relation_key (account, bu_did u) (relations d)"

definition facts_select :: "db \<Rightarrow> string \<Rightarrow> string \<Rightarrow> (string \<times> facts) option" where
  "facts_select d discord_id account =
     map_option (\<lambda>u. (bu_did u, facts_of_rows u (join_relation d account u)))
       (find_row bu_discord_id discord_id (users d))"

definition load_memberships :: "db \<Rightarrow> string option \<Rightarrow> string \<Rightarrow> memberships" where
  "load_memberships d account viewer =
     (case account of
        None \<Rightarrow> no_memberships
      | Some did \<Rightarrow>
          \<lparr>list_uris = mb_uri ` {m \<in> set (list_members d). mb_did m = viewer \<and>
                         (\<exists>l \<in> set (bsky_lists d). li_uri l = mb_uri m \<and> li_owner l = did)},
           starter_pack_uris = mb_uri ` {m \<in> set (pack_members d). mb_did m = viewer \<and>
                         (\<exists>p \<in> set (packs d). sp_uri p = mb_uri m \<and> sp_owner p = did)}\<rparr>)"

end
