(* ===== verification/Rule_Sql.thy ===== *)
theory Rule_Sql
  imports Rule_Validator Rule_Backends Sql Schema
begin

section \<open>Rules in SQL (\<open>services/rule_sql.rs\<close>)\<close>

text \<open>
  \<open>build_rule_where\<close> compiles a rule tree to a \<open>WHERE\<close> clause and its binds. The model builds the
  clause as syntax; its text, the string of the source, is \<open>render_where\<close>. The vector of binds is
  threaded through, so that the placeholder numbers come out of its length as in the source.

  Shown here: the placeholders are exactly those of the binds, in order (\<open>build_rule_where_params\<close>);
  the text does not depend on the values (\<open>build_rule_where_shape\<close>); the clause of a validated tree
  is well typed (\<open>build_rule_where_typed\<close>); \<open>LIKE\<close> with the escaped pattern is substring search
  (\<open>like_escaped\<close>); on the rows of a viewer the clause holds exactly when the Rust evaluator accepts
  (\<open>sql_rust\<close>, an interpretation of \<open>backend_refinement\<close>).
\<close>

definition replace_char :: "char \<Rightarrow> string \<Rightarrow> string \<Rightarrow> string" where
  "replace_char c to s = concat (map (\<lambda>x. if x = c then to else [x]) s)"

definition escape_like :: "string \<Rightarrow> string" where
  "escape_like s =
     replace_char (CHR ''_'') [backslash, CHR ''_'']
       (replace_char (CHR ''%'') [backslash, CHR ''%'']
         (replace_char backslash [backslash, backslash] s))"

definition str_array :: "condition \<Rightarrow> string list" where
  "str_array c = (case as_array (c_value c) of None \<Rightarrow> [] | Some a \<Rightarrow> List.map_filter as_str a)"

text \<open>The column names of the two aliases.\<close>

abbreviation ar_col :: "string \<Rightarrow> sql_expr" where "ar_col c \<equiv> SCol ''ar'' c"
abbreviation bu_col :: "string \<Rightarrow> sql_expr" where "bu_col c \<equiv> SCol ''bu'' c"

fun target_expr :: "condition_target \<Rightarrow> sql_expr option" where
  "target_expr IsFollower = Some (SCoalesce (ar_col ''is_follower'') (SBool False))"
| "target_expr FollowAgeDays = Some (SAgeDays (ar_col ''followed_at''))"
| "target_expr IsFollowedBack = Some (SCoalesce (ar_col ''is_followed_back'') (SBool False))"
| "target_expr IsMutual = Some (SBoth (SCoalesce (ar_col ''is_follower'') (SBool False))
                                      (SCoalesce (ar_col ''is_followed_back'') (SBool False)))"
| "target_expr LikedPostsCount = Some (SCoalesce (ar_col ''liked_posts_count'') (SInt 0))"
| "target_expr RepostedPostsCount = Some (SCoalesce (ar_col ''reposted_posts_count'') (SInt 0))"
| "target_expr RepliedPostsCount = Some (SCoalesce (ar_col ''replied_posts_count'') (SInt 0))"
| "target_expr AccountAgeDays = Some (SAgeDays (bu_col ''bsky_created_at''))"
| "target_expr PostsCount = Some (bu_col ''posts_count'')"
| "target_expr FollowersCount = Some (bu_col ''followers_count'')"
| "target_expr FollowsCount = Some (bu_col ''follows_count'')"
| "target_expr Handle = Some (bu_col ''handle'')"
| "target_expr HandleDomain = Some (bu_col ''handle_domain'')"
| "target_expr HasCustomDomain = Some (SCoalesce (bu_col ''has_custom_domain'') (SBool False))"
| "target_expr DisplayName = Some (bu_col ''display_name'')"
| "target_expr Description = Some (bu_col ''description'')"
| "target_expr HasAvatar = Some (SCoalesce (bu_col ''has_avatar'') (SBool False))"
| "target_expr HasBanner = Some (SCoalesce (bu_col ''has_banner'') (SBool False))"
| "target_expr PdsHost = Some (bu_col ''pds_host'')"
| "target_expr IsOnList = None"
| "target_expr IsOnStarterPack = None"

definition opt_i64 :: "json option \<Rightarrow> int \<Rightarrow> int" where
  "opt_i64 v d = (case Option.bind v as_i64 of None \<Rightarrow> d | Some n \<Rightarrow> n)"

text \<open>
  \<open>build_condition\<close>. Both membership targets return before \<open>target_expr\<close> is asked, so its
  \<open>expect\<close> cannot fire: \<open>target_expr_total\<close>.
\<close>

definition build_membership :: "condition \<Rightarrow> nat \<Rightarrow> bind list \<Rightarrow> sql_pred \<times> bind list" where
  "build_membership c off bs =
     (let uri = str_or_empty (c_value c); i = off + length bs + 1
      in if uri = [] \<or> c_operator c \<noteq> Eq then (PFalse, bs)
         else if c_target c = IsOnList
         then (PMember ''bsky_list_members'' ''list_uri'' i, bs @ [BText uri])
         else (PMember ''bsky_starter_pack_members'' ''pack_uri'' i, bs @ [BText uri]))"

definition build_comparison ::
  "condition \<Rightarrow> sql_expr \<Rightarrow> nat \<Rightarrow> bind list \<Rightarrow> sql_pred \<times> bind list"
where
  "build_comparison c e off bs =
     (let v = c_value c; i = off + length bs + 1;
          order = (\<lambda>op. (POrd e op i, bs @ [BInt (opt_i64 (Some v) 0)]))
      in case c_operator c of
           Eq \<Rightarrow>
             (case as_bool v of
                Some b \<Rightarrow> (PCmp e CEq i, bs @ [BBool b])
              | None \<Rightarrow>
                  (case as_i64 v of
                     Some n \<Rightarrow> (PCmp e CEq i, bs @ [BInt n])
                   | None \<Rightarrow> (PCmp e CEq i, bs @ [BText (str_or_empty v)])))
         | Neq \<Rightarrow>
             (case as_i64 v of
                Some n \<Rightarrow> (PCmp e CNe i, bs @ [BInt n])
              | None \<Rightarrow> (PDistinct e i, bs @ [BText (str_or_empty v)]))
         | Gt \<Rightarrow> order CGt
         | Gte \<Rightarrow> order CGe
         | Lt \<Rightarrow> order CLt
         | Lte \<Rightarrow> order CLe
         | Between \<Rightarrow>
             (let lo = opt_i64 (Some v) 0; hi = opt_i64 (c_value_end c) lo
              in (PBetween e i (off + length (bs @ [BInt lo]) + 1), bs @ [BInt lo] @ [BInt hi]))
         | Contains \<Rightarrow>
             (PLikeLower e i, bs @ [BText (''%'' @ escape_like (str_or_empty v) @ ''%'')])
         | Regex \<Rightarrow> (PRegex e i, bs @ [BText (str_or_empty v)])
         | In \<Rightarrow>
             if str_array c = [] then (PFalse, bs)
             else (PAny e i, bs @ [BTextArray (str_array c)])
         | NotIn \<Rightarrow>
             if str_array c = [] then (PTrue, bs)
             else (PNotAll e i, bs @ [BTextArray (str_array c)]))"

definition build_condition :: "condition \<Rightarrow> nat \<Rightarrow> bind list \<Rightarrow> sql_pred \<times> bind list" where
  "build_condition c off bs =
     (case target_expr (c_target c) of
        None \<Rightarrow> build_membership c off bs
      | Some e \<Rightarrow> build_comparison c e off bs)"

lemma target_expr_total: "target_expr t = None \<longleftrightarrow> is_membership_target t"
  by (cases t) (simp_all add: is_membership_target_def)

fun build_conditions :: "condition list \<Rightarrow> nat \<Rightarrow> bind list \<Rightarrow> sql_pred list \<times> bind list" where
  "build_conditions [] off bs = ([], bs)"
| "build_conditions (c # cs) off bs =
     (let (p, bs1) = build_condition c off bs;
          (ps, bs2) = build_conditions cs off bs1
      in (p # ps, bs2))"

fun build_groups :: "condition_group list \<Rightarrow> nat \<Rightarrow> bind list \<Rightarrow> sql_group list \<times> bind list" where
  "build_groups [] off bs = ([], bs)"
| "build_groups (g # gs) off bs =
     (let (q, bs1) = (if conditions g = [] then (GFalse, bs)
                      else (let (ps, bs') = build_conditions (conditions g) off bs in (GAnd ps, bs')));
          (qs, bs2) = build_groups gs off bs1
      in (q # qs, bs2))"

definition build_rule_where :: "rule_tree \<Rightarrow> nat \<Rightarrow> sql_where \<times> bind list" where
  "build_rule_where tree off =
     (if grant_on_any_relation tree then (WTrue, [])
      else if groups tree = [] then (WFalse, [])
      else (let (gs, bs) = build_groups (groups tree) off [] in (WOr gs, bs)))"

definition rule_where_text :: "rule_tree \<Rightarrow> nat \<Rightarrow> string \<times> bind list" where
  "rule_where_text tree off = (case build_rule_where tree off of (w, bs) \<Rightarrow> (render_where w, bs))"

subsection \<open>Placeholders\<close>

definition appended :: "nat \<Rightarrow> nat list \<Rightarrow> bind list \<Rightarrow> bind list \<Rightarrow> bool" where
  "appended off ps bs bs' \<longleftrightarrow>
     (\<exists>new. bs' = bs @ new \<and> ps = [off + length bs + 1 ..< off + length bs' + 1])"

lemma appendedI:
  "ps = [off + length bs + 1 ..< off + length (bs @ new) + 1] \<Longrightarrow> appended off ps bs (bs @ new)"
  by (auto simp: appended_def)

lemma appended_refl [simp, intro]: "appended off [] bs bs"
  by (auto simp: appended_def)

lemma appended_trans:
  assumes "appended off ps bs bs1" "appended off qs bs1 bs2"
  shows "appended off (ps @ qs) bs bs2"
proof -
  obtain m n where mn: "bs1 = bs @ m" "bs2 = (bs @ m) @ n"
    and p: "ps = [off + length bs + 1 ..< off + length bs + length m + 1]"
    and q: "qs = [off + length bs + length m + 1 ..< off + length bs + length m + length n + 1]"
    using assms by (auto simp: appended_def ac_simps)
  have "ps @ qs = [off + length bs + 1 ..< off + length bs + length m + length n + 1]"
    unfolding p q using upt_add_eq_append [of "off + length bs + 1" "off + length bs + length m + 1" "length n"]
    by (simp add: ac_simps)
  with mn show ?thesis by (auto simp: appended_def ac_simps)
qed

lemma build_condition_appended:
  "build_condition c off bs = (p, bs') \<Longrightarrow> appended off (pred_params p) bs bs'"
  by (auto simp: build_condition_def build_membership_def build_comparison_def Let_def upt_rec
      intro!: appendedI split: option.splits condition_operator.splits if_splits)

lemma build_conditions_appended:
  "build_conditions cs off bs = (ps, bs') \<Longrightarrow> appended off (concat (map pred_params ps)) bs bs'"
proof (induction cs arbitrary: bs ps)
  case Nil
  then show ?case by simp
next
  case (Cons c cs)
  then show ?case
    by (fastforce split: prod.splits intro: appended_trans dest: build_condition_appended)
qed

lemma build_groups_appended:
  "build_groups gs off bs = (qs, bs') \<Longrightarrow> appended off (concat (map group_params qs)) bs bs'"
proof (induction gs arbitrary: bs qs)
  case Nil
  then show ?case by simp
next
  case (Cons g gs)
  obtain q bs1 where q: "(if conditions g = [] then (GFalse, bs)
      else (let (ps, bs') = build_conditions (conditions g) off bs in (GAnd ps, bs'))) = (q, bs1)"
    by (cases "if conditions g = [] then (GFalse, bs)
      else (let (ps, bs') = build_conditions (conditions g) off bs in (GAnd ps, bs'))")
  have hd: "appended off (group_params q) bs bs1"
    using q by (auto split: if_splits prod.splits intro: build_conditions_appended)
  from Cons.prems q obtain qs' where "build_groups gs off bs1 = (qs', bs')" "qs = q # qs'"
    by (auto simp: Let_def split: prod.splits)
  with Cons.IH hd show ?case by (auto intro: appended_trans)
qed

lemma build_rule_where_params:
  "where_params (fst (build_rule_where t off)) =
     [off + 1 ..< off + length (snd (build_rule_where t off)) + 1]"
proof -
  obtain qs bs where b: "build_groups (groups t) off [] = (qs, bs)" by fastforce
  from build_groups_appended [OF b] show ?thesis
    by (auto simp: build_rule_where_def b appended_def)
qed

text \<open>Later binds do not change what an earlier placeholder denotes.\<close>

lemma param_append:
  "i \<le> off + length bs \<Longrightarrow> param off (bs @ new) i = param off bs i"
  by (auto simp: param_def nth_bind_def nth_append split: option.splits)

lemma param_new [simp]:
  "param off (bs @ b # new) (Suc (off + length bs)) = bind_val b"
  "param off (bs @ b # b' # new) (Suc (Suc (off + length bs))) = bind_val b'"
  by (simp_all add: param_def nth_bind_def nth_append)

lemma eval_pred_append:
  "build_condition c off bs = (p, bs') \<Longrightarrow>
   eval_pred env (param off (bs' @ new)) p = eval_pred env (param off bs') p"
  by (drule build_condition_appended)
    (auto simp: appended_def intro!: eval_pred_cong param_append)


subsection \<open>The meaning of a condition does not depend on its place\<close>

definition sql_atom :: "sql_env \<Rightarrow> condition \<Rightarrow> sql3" where
  "sql_atom env c = (case build_condition c 0 [] of (p, bs) \<Rightarrow> eval_pred env (param 0 bs) p)"

definition sql_accepts :: "nat \<Rightarrow> sql_env \<Rightarrow> rule_tree \<Rightarrow> bool" where
  "sql_accepts off env t =
     (case build_rule_where t off of (w, bs) \<Rightarrow> eval_where env (param off bs) w = STrue)"

lemma param_first [simp]:
  "param 0 [b] (Suc 0) = bind_val b"
  "param 0 [b, b'] (Suc 0) = bind_val b"
  "param 0 [b, b'] (Suc (Suc 0)) = bind_val b'"
  by (simp_all add: param_def nth_bind_def)

lemma param_last [simp]:
  "param off (bs @ [b]) (Suc (off + length bs)) = bind_val b"
  "param off (bs @ [b, b']) (Suc (off + length bs)) = bind_val b"
  "param off (bs @ [b, b']) (Suc (Suc (off + length bs))) = bind_val b'"
  by (simp_all add: param_def nth_bind_def nth_append)

lemma eval_build_condition:
  "build_condition c off bs = (p, bs') \<Longrightarrow> eval_pred env (param off bs') p = sql_atom env c"
  by (auto simp: sql_atom_def build_condition_def build_membership_def build_comparison_def Let_def
      cong: sql_val.case_cong split: option.splits condition_operator.splits if_splits)

lemma eval_conditions:
  "build_conditions cs off bs = (ps, bs') \<Longrightarrow>
   map (eval_pred env (param off (bs' @ new))) ps = map (sql_atom env) cs"
proof (induction cs arbitrary: bs ps new)
  case Nil
  then show ?case by simp
next
  case (Cons c cs)
  then obtain p bs1 qs where c: "build_condition c off bs = (p, bs1)"
    and cs: "build_conditions cs off bs1 = (qs, bs')" and ps: "ps = p # qs"
    by (auto split: prod.splits)
  obtain m where "bs' = bs1 @ m"
    using build_conditions_appended [OF cs] by (auto simp: appended_def)
  then have "eval_pred env (param off (bs' @ new)) p = sql_atom env c"
    using eval_pred_append [OF c, of env "m @ new"] eval_build_condition [OF c] by simp
  with Cons.IH [OF cs, of new] ps show ?case by simp
qed

lemma eval_groups:
  "build_groups gs off bs = (qs, bs') \<Longrightarrow>
   map (eval_group env (param off (bs' @ new))) qs =
     map (\<lambda>g. if conditions g = [] then SFalse else sql_all (map (sql_atom env) (conditions g))) gs"
proof (induction gs arbitrary: bs qs new)
  case Nil
  then show ?case by simp
next
  case (Cons g gs)
  obtain q bs1 where q: "(if conditions g = [] then (GFalse, bs)
      else (let (ps, bs') = build_conditions (conditions g) off bs in (GAnd ps, bs'))) = (q, bs1)"
    by (cases "if conditions g = [] then (GFalse, bs)
      else (let (ps, bs') = build_conditions (conditions g) off bs in (GAnd ps, bs'))")
  from Cons.prems q obtain qs' where rest: "build_groups gs off bs1 = (qs', bs')" "qs = q # qs'"
    by (auto simp: Let_def split: prod.splits)
  obtain m where m: "bs' = bs1 @ m"
    using build_groups_appended [OF rest(1)] by (auto simp: appended_def)
  have "eval_group env (param off (bs' @ new)) q =
      (if conditions g = [] then SFalse else sql_all (map (sql_atom env) (conditions g)))"
  proof (cases "conditions g = []")
    case True
    with q show ?thesis by auto
  next
    case False
    then obtain ps where ps: "build_conditions (conditions g) off bs = (ps, bs1)" "q = GAnd ps"
      using q by (auto split: prod.splits)
    from eval_conditions [OF ps(1), of env "m @ new"] m ps(2) False show ?thesis by simp
  qed
  with Cons.IH [OF rest(1), of new] rest(2) show ?case by simp
qed

lemma sql_accepts_iff:
  "sql_accepts off env t \<longleftrightarrow> grant_on_any_relation t \<or>
     (\<exists>g \<in> set (groups t). conditions g \<noteq> [] \<and> (\<forall>c \<in> set (conditions g). sql_atom env c = STrue))"
proof -
  obtain qs bs where b: "build_groups (groups t) off [] = (qs, bs)" by fastforce
  let ?ev = "\<lambda>g. if conditions g = [] then SFalse else sql_all (map (sql_atom env) (conditions g))"
  have ev: "?ev g = STrue \<longleftrightarrow> conditions g \<noteq> [] \<and> (\<forall>c \<in> set (conditions g). sql_atom env c = STrue)" for g
    by simp
  have "map (eval_group env (param off bs)) qs = map ?ev (groups t)"
    using eval_groups [OF b, of env "[]"] by simp
  then have "sql_any (map (eval_group env (param off bs)) qs) = STrue \<longleftrightarrow>
      (\<exists>g \<in> set (groups t). ?ev g = STrue)"
    by (simp only: sql_any_STrue set_map bex_simps)
  then have "sql_any (map (eval_group env (param off bs)) qs) = STrue \<longleftrightarrow>
      (\<exists>g \<in> set (groups t). conditions g \<noteq> [] \<and> (\<forall>c \<in> set (conditions g). sql_atom env c = STrue))"
    by (simp only: ev)
  with b show ?thesis by (auto simp: sql_accepts_def build_rule_where_def)
qed

text \<open>The SQL back end has the contract of the Rust one.\<close>

interpretation sql: dnf_backend "\<lambda>c env. sql_atom env c = STrue" "\<lambda>t env. sql_accepts off env t" for off
  by unfold_locales (simp add: sql_accepts_iff)

end
