(* ===== verification/Rule_Sql_Correct.thy ===== *)
theory Rule_Sql_Correct
  imports Rule_Sql
begin

section \<open>The SQL clause agrees with the Rust evaluator\<close>

text \<open>
  \<open>row_env\<close> is the environment in which PostgreSQL evaluates the clause on one row of
  \<open>bsky_users bu LEFT JOIN account_relations ar\<close>. \<open>covered\<close> names what the agreement of a condition
  rests on: it passed the validator, no instant lies in the future, \<open>LOWER\<close> folds ASCII as the
  source's \<open>to_ascii_lowercase\<close> and only ASCII text is searched, both regular-expression engines
  give the pattern one meaning, a list or pack in a condition belongs to the bound account, and a
  \<open>not in\<close> list names a string. Under it, \<open>sql_rust\<close> is the refinement; the lemmas of the last
  subsection show that dropping an assumption breaks it.
\<close>

subsection \<open>LIKE with an escaped pattern\<close>

definition esc :: "char \<Rightarrow> string" where
  "esc c = (if c = backslash \<or> c = CHR ''%'' \<or> c = CHR ''_'' then [backslash, c] else [c])"

lemma replace_char_simps [simp]:
  "replace_char c to [] = []"
  "replace_char c to (x # xs) = (if x = c then to else [x]) @ replace_char c to xs"
  by (simp_all add: replace_char_def)

lemma replace_char_append [simp]:
  "replace_char c to (xs @ ys) = replace_char c to xs @ replace_char c to ys"
  by (simp add: replace_char_def)

lemma escape_like_simps [simp]:
  "escape_like [] = []"
  "escape_like (c # cs) = esc c @ escape_like cs"
  by (simp_all add: escape_like_def esc_def)

lemma like_prefix: "sql_like (escape_like v @ ''%'') s \<longleftrightarrow> prefix v s"
proof (induction v arbitrary: s)
  case Nil
  then show ?case by (simp add: sql_like_percent)
next
  case (Cons c v)
  then show ?case
    by (auto simp: esc_def sql_like_escaped sql_like_literal prefix_def)
qed

lemma like_substring: "sql_like (''%'' @ escape_like v @ ''%'') s \<longleftrightarrow> str_contains s v"
  by (auto simp: sql_like_percent like_prefix str_contains_def sublist_def prefix_def)

lemma ascii_lower_special [simp]:
  "ascii_lower c = backslash \<longleftrightarrow> c = backslash"
  "ascii_lower c = CHR ''%'' \<longleftrightarrow> c = CHR ''%''"
  "ascii_lower c = CHR ''_'' \<longleftrightarrow> c = CHR ''_''"
proof -
  have *: "ascii_lower c = d \<longleftrightarrow> c = d"
    if "\<not> (97 \<le> (of_char d :: nat) \<and> (of_char d :: nat) \<le> 122)"
      "\<not> (65 \<le> (of_char d :: nat) \<and> (of_char d :: nat) \<le> 90)" for d :: char
  proof
    assume eq: "ascii_lower c = d"
    show "c = d"
    proof (cases "65 \<le> (of_char c :: nat) \<and> (of_char c :: nat) \<le> 90")
      case True
      with eq have "(of_char d :: nat) = of_char c + 32"
        by (auto simp: ascii_lower_def Let_def)
      with True that show ?thesis by auto
    qed (use eq in \<open>auto simp: ascii_lower_def Let_def split: if_splits\<close>)
  next
    assume "c = d"
    with that show "ascii_lower c = d" by (auto simp: ascii_lower_def Let_def)
  qed
  show "ascii_lower c = backslash \<longleftrightarrow> c = backslash"
    "ascii_lower c = CHR ''%'' \<longleftrightarrow> c = CHR ''%''" "ascii_lower c = CHR ''_'' \<longleftrightarrow> c = CHR ''_''"
    by (simp_all add: *)
qed

lemma to_ascii_lowercase_simps [simp]:
  "to_ascii_lowercase [] = []"
  "to_ascii_lowercase (c # cs) = ascii_lower c # to_ascii_lowercase cs"
  "to_ascii_lowercase (s @ t) = to_ascii_lowercase s @ to_ascii_lowercase t"
  by (simp_all add: to_ascii_lowercase_def)

lemma lowercase_escape_like:
  "to_ascii_lowercase (escape_like v) = escape_like (to_ascii_lowercase v)"
proof (induction v)
  case Nil
  then show ?case by simp
next
  case (Cons c v)
  have "to_ascii_lowercase (esc c) = esc (ascii_lower c)"
    by (auto simp: esc_def)
  with Cons show ?case by simp
qed

text \<open>\<open>LOWER(x) LIKE LOWER('%' || escaped || '%')\<close> is the source's case-insensitive \<open>contains\<close>.\<close>

lemma like_escaped:
  "sql_like (to_ascii_lowercase (''%'' @ escape_like v @ ''%'')) (to_ascii_lowercase s) \<longleftrightarrow>
   str_contains (to_ascii_lowercase s) (to_ascii_lowercase v)"
proof -
  have pct: "ascii_lower CHR ''%'' = CHR ''%''" by simp
  then have "to_ascii_lowercase (''%'' @ escape_like v @ ''%'') =
      ''%'' @ escape_like (to_ascii_lowercase v) @ ''%''"
    by (simp add: lowercase_escape_like)
  then show ?thesis by (simp only: like_substring)
qed

subsection \<open>The text of the clause does not depend on the values\<close>

text \<open>All that the text depends on of a condition.\<close>

definition same_shape :: "condition \<Rightarrow> condition \<Rightarrow> bool" where
  "same_shape c d \<longleftrightarrow>
     c_target c = c_target d \<and> c_operator c = c_operator d \<and>
     (as_bool (c_value c) = None) = (as_bool (c_value d) = None) \<and>
     (as_i64 (c_value c) = None) = (as_i64 (c_value d) = None) \<and>
     (str_or_empty (c_value c) = []) = (str_or_empty (c_value d) = []) \<and>
     (str_array c = []) = (str_array d = [])"

definition same_shape_tree :: "rule_tree \<Rightarrow> rule_tree \<Rightarrow> bool" where
  "same_shape_tree s t \<longleftrightarrow>
     grant_on_any_relation s = grant_on_any_relation t \<and>
     list_all2 (\<lambda>g h. list_all2 same_shape (conditions g) (conditions h)) (groups s) (groups t)"

lemma build_condition_shape:
  assumes "same_shape c d" "length bs = length bs'"
  shows "fst (build_condition c off bs) = fst (build_condition d off bs') \<and>
    length (snd (build_condition c off bs)) = length (snd (build_condition d off bs'))"
  using assms
  by (cases "c_operator c")
    (auto simp: same_shape_def build_condition_def build_membership_def build_comparison_def Let_def
      split: option.splits)

lemma build_conditions_shape:
  "list_all2 same_shape cs ds \<Longrightarrow> length bs = length bs' \<Longrightarrow>
   fst (build_conditions cs off bs) = fst (build_conditions ds off bs') \<and>
   length (snd (build_conditions cs off bs)) = length (snd (build_conditions ds off bs'))"
proof (induction cs ds arbitrary: bs bs' rule: list_all2_induct)
  case Nil
  then show ?case by simp
next
  case (Cons c cs d ds)
  from build_condition_shape [OF Cons.hyps(1) Cons.prems, of off]
    Cons.IH [of "snd (build_condition c off bs)" "snd (build_condition d off bs')"]
  show ?case by (auto split: prod.splits)
qed

lemma build_groups_shape:
  "list_all2 (\<lambda>g h. list_all2 same_shape (conditions g) (conditions h)) gs hs \<Longrightarrow>
   length bs = length bs' \<Longrightarrow>
   fst (build_groups gs off bs) = fst (build_groups hs off bs') \<and>
   length (snd (build_groups gs off bs)) = length (snd (build_groups hs off bs'))"
proof (induction gs hs arbitrary: bs bs' rule: list_all2_induct)
  case Nil
  then show ?case by simp
next
  case (Cons g gs h hs)
  show ?case
  proof (cases "conditions g = []")
    case True
    with Cons.hyps(1) have "conditions h = []" by simp
    with True Cons.IH [OF Cons.prems] show ?thesis by (auto split: prod.splits)
  next
    case False
    with Cons.hyps(1) have "conditions h \<noteq> []" by auto
    with False build_conditions_shape [OF Cons.hyps(1) Cons.prems, of off]
      Cons.IH [of "snd (build_conditions (conditions g) off bs)"
        "snd (build_conditions (conditions h) off bs')"]
    show ?thesis by (auto split: prod.splits)
  qed
qed

lemma build_rule_where_shape:
  assumes "same_shape_tree s t"
  shows "fst (rule_where_text s off) = fst (rule_where_text t off)"
proof -
  have g: "groups s = [] \<longleftrightarrow> groups t = []"
    using assms by (auto simp: same_shape_tree_def)
  have "fst (build_groups (groups s) off []) = fst (build_groups (groups t) off [])"
    using build_groups_shape [of "groups s" "groups t" "[]" "[]" off] assms
    by (simp add: same_shape_tree_def)
  with assms g show ?thesis
    by (auto simp: rule_where_text_def build_rule_where_def same_shape_tree_def split: prod.splits)
qed

subsection \<open>Types\<close>

definition bsky_columns :: col_types where
  "bsky_columns a c =
     (if a = ''ar'' then
        (if c \<in> {''is_follower'', ''is_followed_back''} then Some TBool
         else if c = ''followed_at'' then Some TTime
         else if c \<in> {''liked_posts_count'', ''reposted_posts_count'', ''replied_posts_count''}
         then Some TNum else None)
      else if a = ''bu'' then
        (if c \<in> {''has_custom_domain'', ''has_avatar'', ''has_banner''} then Some TBool
         else if c = ''bsky_created_at'' then Some TTime
         else if c \<in> {''posts_count'', ''followers_count'', ''follows_count''} then Some TNum
         else if c \<in> {''handle'', ''handle_domain'', ''display_name'', ''description'', ''pds_host''}
         then Some TText else None)
      else None)"

fun kind_type :: "target_kind \<Rightarrow> sql_type" where
  "kind_type KBool = TBool"
| "kind_type KInt = TNum"
| "kind_type KString = TText"

lemma target_expr_type:
  "target_expr t = Some e \<Longrightarrow> expr_type bsky_columns e = Some (kind_type (target_kind_of t))"
  by (cases t) (auto simp: bsky_columns_def)

definition param_type :: "nat \<Rightarrow> bind list \<Rightarrow> nat \<Rightarrow> sql_type option" where
  "param_type off bs i = map_option bind_type (nth_bind off bs i)"

lemma param_type_last [simp]:
  "param_type off (bs @ b # new) (Suc (off + length bs)) = Some (bind_type b)"
  "param_type off (bs @ b # b' # new) (Suc (Suc (off + length bs))) = Some (bind_type b')"
  by (simp_all add: param_type_def nth_bind_def nth_append)

lemma as_i64_not_bool: "as_i64 v = Some n \<Longrightarrow> as_bool v = None"
  by (cases v) auto

lemma as_str_not_i64: "as_str v = Some s \<Longrightarrow> as_i64 v = None \<and> as_bool v = None"
  by (cases v) auto

lemma build_condition_typed:
  assumes wf: "wf_condition rx c" and b: "build_condition c off bs = (p, bs')"
  shows "pred_typed bsky_columns (param_type off (bs' @ new)) p"
proof (cases "target_expr (c_target c)")
  case None
  with b show ?thesis
    by (auto simp: build_condition_def build_membership_def Let_def split: if_splits)
next
  case (Some e)
  note ty = target_expr_type [OF Some]
  have bc: "build_comparison c e off bs = (p, bs')"
    using b Some by (simp add: build_condition_def)
  show ?thesis
  proof (cases "target_kind_of (c_target c)")
    case KBool
    with wf have "c_operator c = Eq" "as_bool (c_value c) \<noteq> None"
      by (auto simp: wf_condition_def wf_value_def)
    with bc ty KBool show ?thesis by (auto simp: build_comparison_def Let_def)
  next
    case KInt
    with wf have "c_operator c \<in> {Eq, Neq, Gt, Gte, Lt, Lte, Between}" "as_i64 (c_value c) \<noteq> None"
      by (auto simp: wf_condition_def wf_value_def)
    with bc ty KInt show ?thesis
      by (auto simp: build_comparison_def Let_def dest: as_i64_not_bool split: option.splits)
  next
    case KString
    with wf have "c_operator c \<in> {Eq, Neq, Contains, Regex, In, NotIn}"
      "c_operator c \<notin> {In, NotIn} \<longrightarrow> as_str (c_value c) \<noteq> None"
      by (auto simp: wf_condition_def wf_value_def)
    with bc ty KString show ?thesis
      by (auto simp: build_comparison_def Let_def dest: as_str_not_i64 split: if_splits option.splits)
  qed
qed

lemma build_conditions_typed:
  "\<forall>c \<in> set cs. wf_condition rx c \<Longrightarrow> build_conditions cs off bs = (ps, bs') \<Longrightarrow>
   list_all (pred_typed bsky_columns (param_type off (bs' @ new))) ps"
proof (induction cs arbitrary: bs ps new)
  case Nil
  then show ?case by simp
next
  case (Cons c cs)
  then obtain p bs1 qs where c: "build_condition c off bs = (p, bs1)"
    and cs: "build_conditions cs off bs1 = (qs, bs')" and ps: "ps = p # qs"
    by (auto split: prod.splits)
  obtain m where "bs' = bs1 @ m"
    using build_conditions_appended [OF cs] by (auto simp: appended_def)
  with build_condition_typed [OF _ c, of rx "m @ new"] Cons cs ps show ?case by simp
qed

lemma build_groups_typed:
  "\<forall>g \<in> set gs. list_all (wf_condition rx) (conditions g) \<Longrightarrow> build_groups gs off bs = (qs, bs') \<Longrightarrow>
   list_all (group_typed bsky_columns (param_type off (bs' @ new))) qs"
proof (induction gs arbitrary: bs qs new)
  case Nil
  then show ?case by simp
next
  case (Cons g gs)
  obtain q bs1 where q: "(if conditions g = [] then (GFalse, bs)
      else (let (ps, bs') = build_conditions (conditions g) off bs in (GAnd ps, bs'))) = (q, bs1)"
    by (cases "if conditions g = [] then (GFalse, bs)
      else (let (ps, bs') = build_conditions (conditions g) off bs in (GAnd ps, bs'))")
  from Cons.prems(2) q obtain qs' where rest: "build_groups gs off bs1 = (qs', bs')" "qs = q # qs'"
    by (auto simp: Let_def split: prod.splits)
  obtain m where m: "bs' = bs1 @ m"
    using build_groups_appended [OF rest(1)] by (auto simp: appended_def)
  have "group_typed bsky_columns (param_type off (bs1 @ (m @ new))) q"
    using q build_conditions_typed [of "conditions g" rx off bs _ bs1 "m @ new"] Cons.prems(1)
    by (auto simp: list_all_iff split: if_splits prod.splits)
  with m Cons.IH [OF _ rest(1), of new] Cons.prems(1) rest(2) show ?case by simp
qed

lemma build_rule_where_typed:
  assumes "wf_tree rx t"
  shows "case build_rule_where t off of (w, bs) \<Rightarrow> where_typed bsky_columns (param_type off bs) w"
proof -
  obtain qs bs where b: "build_groups (groups t) off [] = (qs, bs)" by fastforce
  from assms have "\<not> grant_on_any_relation t \<longrightarrow> (\<forall>g \<in> set (groups t). list_all (wf_condition rx) (conditions g))"
    by (auto simp: wf_tree_def wf_group_def list_all_iff)
  with build_groups_typed [OF _ b, of rx "[]"] b show ?thesis
    by (auto simp: build_rule_where_def)
qed

subsection \<open>The rows of a viewer\<close>

fun opt_val :: "('a \<Rightarrow> sql_val) \<Rightarrow> 'a option \<Rightarrow> sql_val" where
  "opt_val f None = VNull"
| "opt_val f (Some x) = f x"

definition ar_row_col :: "account_relation option \<Rightarrow> string \<Rightarrow> sql_val" where
  "ar_row_col ar c =
     (case ar of
        None \<Rightarrow> VNull
      | Some r \<Rightarrow>
          if c = ''is_follower'' then VBool (ar_is_follower r)
          else if c = ''followed_at'' then opt_val VTime (ar_followed_at r)
          else if c = ''is_followed_back'' then VBool (ar_is_followed_back r)
          else if c = ''liked_posts_count'' then VNum (ar_liked r)
          else if c = ''reposted_posts_count'' then VNum (ar_reposted r)
          else if c = ''replied_posts_count'' then VNum (ar_replied r)
          else VNull)"

definition bu_row_col :: "bsky_user \<Rightarrow> string \<Rightarrow> sql_val" where
  "bu_row_col u c =
     (if c = ''handle'' then VText (bu_handle u)
      else if c = ''handle_domain'' then opt_val VText (bu_handle_domain u)
      else if c = ''has_custom_domain'' then VBool (bu_has_custom_domain u)
      else if c = ''pds_host'' then opt_val VText (bu_pds_host u)
      else if c = ''display_name'' then opt_val VText (bu_display_name u)
      else if c = ''description'' then opt_val VText (bu_description u)
      else if c = ''has_avatar'' then VBool (bu_has_avatar u)
      else if c = ''has_banner'' then VBool (bu_has_banner u)
      else if c = ''posts_count'' then VNum (bu_posts_count u)
      else if c = ''followers_count'' then VNum (bu_followers_count u)
      else if c = ''follows_count'' then VNum (bu_follows_count u)
      else if c = ''bsky_created_at'' then opt_val VTime (bu_created_at u)
      else VNull)"

definition row_member :: "db \<Rightarrow> bsky_user \<Rightarrow> string \<Rightarrow> string \<Rightarrow> bool" where
  "row_member d u tab uri =
     (\<exists>m \<in> set (if tab = ''bsky_list_members'' then list_members d
                else if tab = ''bsky_starter_pack_members'' then pack_members d else []).
        mb_uri m = uri \<and> mb_did m = bu_did u)"

type_synonym pg_engine = "(string \<Rightarrow> string) \<times> (string \<Rightarrow> string \<Rightarrow> bool)"

definition row_env :: "pg_engine \<Rightarrow> instant \<Rightarrow> db \<Rightarrow> string \<Rightarrow> bsky_user \<Rightarrow> sql_env" where
  "row_env pg now d account u =
     \<lparr>env_now = now,
      env_col = (\<lambda>a c. if a = ''ar'' then ar_row_col (join_relation d account u) c
                      else if a = ''bu'' then bu_row_col u c else VNull),
      env_member = row_member d u, env_lower = fst pg, env_regex = snd pg\<rparr>"

definition row_facts :: "db \<Rightarrow> string \<Rightarrow> bsky_user \<Rightarrow> facts" where
  "row_facts d account u = facts_of_rows u (join_relation d account u)"

fun bool_fact :: "condition_target \<Rightarrow> facts \<Rightarrow> bool" where
  "bool_fact IsFollower f = f_is_follower f"
| "bool_fact IsFollowedBack f = f_is_followed_back f"
| "bool_fact IsMutual f = f_is_mutual f"
| "bool_fact HasCustomDomain f = f_has_custom_domain f"
| "bool_fact HasAvatar f = f_has_avatar f"
| "bool_fact HasBanner f = f_has_banner f"
| "bool_fact _ f = False"

fun int_fact :: "instant \<Rightarrow> condition_target \<Rightarrow> facts \<Rightarrow> int option" where
  "int_fact now FollowAgeDays f = days_since now (f_followed_at f)"
| "int_fact now LikedPostsCount f = Some (f_liked_posts_count f)"
| "int_fact now RepostedPostsCount f = Some (f_reposted_posts_count f)"
| "int_fact now RepliedPostsCount f = Some (f_replied_posts_count f)"
| "int_fact now AccountAgeDays f = days_since now (f_bsky_created_at f)"
| "int_fact now PostsCount f = Some (f_posts_count f)"
| "int_fact now FollowersCount f = Some (f_followers_count f)"
| "int_fact now FollowsCount f = Some (f_follows_count f)"
| "int_fact now _ f = None"

fun string_fact :: "condition_target \<Rightarrow> facts \<Rightarrow> string option" where
  "string_fact Handle f = Some (f_handle f)"
| "string_fact HandleDomain f = f_handle_domain f"
| "string_fact DisplayName f = f_display_name f"
| "string_fact Description f = f_description f"
| "string_fact PdsHost f = f_pds_host f"
| "string_fact _ f = None"

lemma evaluate_by_kind:
  "target_kind_of t = KBool \<Longrightarrow> evaluate_target rx now t c f m = bool_match c (bool_fact t f)"
  "target_kind_of t = KInt \<Longrightarrow> evaluate_target rx now t c f m = int_match c (int_fact now t f)"
  "target_kind_of t = KString \<Longrightarrow> \<not> is_membership_target t \<Longrightarrow>
     evaluate_target rx now t c f m = string_match rx c (string_fact t f)"
  by (cases t; simp add: is_membership_target_def)+

definition not_future :: "instant \<Rightarrow> facts \<Rightarrow> bool" where
  "not_future now f \<longleftrightarrow>
     pred_option (\<lambda>t. t \<le> now) (f_followed_at f) \<and> pred_option (\<lambda>t. t \<le> now) (f_bsky_created_at f)"

lemma bool_column:
  "target_kind_of t = KBool \<Longrightarrow> target_expr t = Some e \<Longrightarrow>
   eval_expr (row_env pg now d account u) e = VBool (bool_fact t (row_facts d account u))"
  by (cases t)
    (auto simp: row_env_def row_facts_def facts_of_rows_def ar_row_col_def bu_row_col_def f_is_mutual_def
      val_and_def sql_and_def less_eq_sql3_def min_def split: option.splits bool.splits)

lemma age_column:
  "eval_expr env e = opt_val VTime ts \<Longrightarrow> pred_option (\<lambda>t. t \<le> env_now env) ts \<Longrightarrow>
   eval_expr env (SAgeDays e) = opt_val VNum (days_since (env_now env) ts)"
  by (cases ts) (simp_all add: days_since_def num_days_floor)

lemma int_column:
  assumes "not_future now (row_facts d account u)"
    and "target_kind_of t = KInt" "target_expr t = Some e"
  shows "eval_expr (row_env pg now d account u) e = opt_val VNum (int_fact now t (row_facts d account u))"
proof -
  let ?env = "row_env pg now d account u" and ?f = "row_facts d account u"
  have now: "env_now ?env = now" by (simp add: row_env_def)
  have "eval_expr ?env (ar_col ''followed_at'') = opt_val VTime (f_followed_at ?f)"
    "eval_expr ?env (bu_col ''bsky_created_at'') = opt_val VTime (f_bsky_created_at ?f)"
    by (auto simp: row_env_def row_facts_def facts_of_rows_def ar_row_col_def bu_row_col_def
        split: option.splits)
  then have ages: "eval_expr ?env (SAgeDays (ar_col ''followed_at'')) = opt_val VNum (days_since now (f_followed_at ?f))"
    "eval_expr ?env (SAgeDays (bu_col ''bsky_created_at'')) = opt_val VNum (days_since now (f_bsky_created_at ?f))"
    using age_column [of ?env] assms(1) by (simp_all only: now not_future_def)
  show ?thesis
  proof (cases "t = FollowAgeDays \<or> t = AccountAgeDays")
    case True
    with ages assms(3) show ?thesis by (auto simp del: eval_expr.simps)
  next
    case False
    with assms(2,3) show ?thesis
      by (cases t)
        (auto simp: row_env_def row_facts_def facts_of_rows_def ar_row_col_def bu_row_col_def
          split: option.splits)
  qed
qed

lemma string_column:
  "target_kind_of t = KString \<Longrightarrow> target_expr t = Some e \<Longrightarrow>
   eval_expr (row_env pg now d account u) e = opt_val VText (string_fact t (row_facts d account u))"
  by (cases t)
    (auto simp: row_env_def row_facts_def facts_of_rows_def bu_row_col_def)

subsection \<open>One condition\<close>

definition is_ascii :: "string \<Rightarrow> bool" where
  "is_ascii s = list_all (\<lambda>c. (of_char c :: nat) < 128) s"

definition owned_by :: "db \<Rightarrow> string \<Rightarrow> condition \<Rightarrow> bool" where
  "owned_by d account c =
     (case c_target c of
        IsOnList \<Rightarrow> (\<forall>l \<in> set (bsky_lists d). li_uri l = str_or_empty (c_value c) \<longrightarrow> li_owner l = account)
      | IsOnStarterPack \<Rightarrow> (\<forall>p \<in> set (packs d). sp_uri p = str_or_empty (c_value c) \<longrightarrow> sp_owner p = account)
      | _ \<Rightarrow> True)"

definition covered ::
  "regex_engine \<Rightarrow> pg_engine \<Rightarrow> instant \<Rightarrow> condition \<Rightarrow> db \<times> string \<times> bsky_user \<Rightarrow> bool"
where
  "covered rx pg now c e =
     (case e of (d, account, u) \<Rightarrow>
        wf_condition rx c \<and> refs_ok d \<and>
        not_future now (row_facts d account u) \<and>
        owned_by d account c \<and>
        (c_operator c = Contains \<longrightarrow>
           (\<forall>s. is_ascii s \<longrightarrow> fst pg s = to_ascii_lowercase s) \<and> is_ascii (str_or_empty (c_value c)) \<and>
           pred_option is_ascii (string_fact (c_target c) (row_facts d account u))) \<and>
        (c_operator c = Regex \<longrightarrow> rx (str_or_empty (c_value c)) = Some (snd pg (str_or_empty (c_value c)))) \<and>
        (c_operator c = NotIn \<longrightarrow> str_array c \<noteq> []))"

lemma is_ascii_escape: "is_ascii v \<Longrightarrow> is_ascii (''%'' @ escape_like v @ ''%'')"
  by (induction v) (auto simp: is_ascii_def esc_def)

lemma comparison_atom:
  "target_expr (c_target c) = Some e \<Longrightarrow>
   sql_atom env c = (case build_comparison c e 0 [] of (p, bs) \<Rightarrow> eval_pred env (param 0 bs) p)"
  by (simp add: sql_atom_def build_condition_def)

lemma atom_bool:
  assumes "as_bool (c_value c) = Some v" "c_operator c = Eq" "target_expr (c_target c) = Some e"
    and "eval_expr env e = VBool b"
  shows "sql_atom env c = STrue \<longleftrightarrow> bool_match c b"
  using assms by (auto simp: comparison_atom build_comparison_def bool_match_def)

lemma atom_int:
  assumes n: "as_i64 (c_value c) = Some n"
    and op: "c_operator c \<in> {Eq, Neq, Gt, Gte, Lt, Lte, Between}"
    and hi: "c_operator c = Between \<longrightarrow> Option.bind (c_value_end c) as_i64 \<noteq> None"
    and e: "target_expr (c_target c) = Some e" "eval_expr env e = opt_val VNum a"
  shows "sql_atom env c = STrue \<longleftrightarrow> int_match c a"
proof -
  have b: "as_bool (c_value c) = None" using n by (rule as_i64_not_bool)
  show ?thesis
    using n op hi e b
    by (cases a)
      (auto simp: comparison_atom build_comparison_def int_match_def opt_i64_def Let_def
        simp flip: bind_eq_Some_conv split: option.splits)
qed

lemma any_text_eq [simp]:
  "sql_any (map (\<lambda>s. sql_of_bool (x = s)) ss) = STrue \<longleftrightarrow> x \<in> set ss"
  by (induction ss) (simp_all add: sql_any_def)

lemma any_unknown [simp]: "sql_any (map (\<lambda>s. SUnknown) ss) \<noteq> STrue"
  by (induction ss) (simp_all add: sql_any_def)

lemma all_text_ne [simp]:
  "sql_all (map (\<lambda>s. sql_of_bool (x \<noteq> s)) ss) = STrue \<longleftrightarrow> x \<notin> set ss"
  by (induction ss) (simp_all add: sql_all_def)

lemma atom_string:
  assumes wf: "wf_value KString (c_operator c) (c_value c)"
    and op: "c_operator c \<in> {Eq, Neq, Contains, Regex, In, NotIn}"
    and e: "target_expr (c_target c) = Some e" "eval_expr env e = opt_val VText a"
    and lower: "c_operator c = Contains \<Longrightarrow> (\<forall>s. is_ascii s \<longrightarrow> env_lower env s = to_ascii_lowercase s)
      \<and> is_ascii (str_or_empty (c_value c)) \<and> pred_option is_ascii a"
    and regex: "c_operator c = Regex \<Longrightarrow>
      rx (str_or_empty (c_value c)) = Some (env_regex env (str_or_empty (c_value c)))"
    and notin: "c_operator c = NotIn \<Longrightarrow> str_array c \<noteq> []"
  shows "sql_atom env c = STrue \<longleftrightarrow> string_match rx c a"
proof (cases "c_operator c \<in> {In, NotIn}")
  case True
  with wf obtain xs where xs: "c_value c = JArr xs" by (auto simp: wf_value_def split: json.splits)
  have mem: "s \<in> set (str_array c) \<longleftrightarrow> JStr s \<in> set xs" for s
    using xs list_contains_arr [of xs s] by (simp add: str_array_def list_contains_def)
  have "list_contains (c_value c) s \<longleftrightarrow> s \<in> set (str_array c)" for s
    using xs by (simp add: mem)
  with True e notin show ?thesis
    by (cases a)
      (auto simp: comparison_atom build_comparison_def string_match_def Let_def
        simp del: sql_any_STrue sql_all_STrue)
next
  case False
  with wf obtain s where s: "c_value c = JStr s" by (auto simp: wf_value_def as_str_Some_iff)
  show ?thesis
  proof (cases "c_operator c = Contains")
    case True
    show ?thesis
    proof (cases a)
      case (Some x)
      have "env_lower env x = to_ascii_lowercase x"
        "env_lower env (''%'' @ escape_like s @ ''%'') = to_ascii_lowercase (''%'' @ escape_like s @ ''%'')"
        using lower [OF True] is_ascii_escape s Some by (auto simp: str_or_empty_def)
      with True Some s e like_escaped [of s x] show ?thesis
        by (simp add: comparison_atom build_comparison_def string_match_def str_or_empty_def
            del: to_ascii_lowercase_simps)
    qed (use True s e in \<open>auto simp: comparison_atom build_comparison_def string_match_def\<close>)
  next
    case nc: False
    with False op s e regex show ?thesis
      by (cases a)
        (auto simp: comparison_atom build_comparison_def string_match_def str_or_empty_def Let_def)
  qed
qed

lemma atom_membership:
  assumes refs: "refs_ok d" and own: "owned_by d account c"
    and wf: "wf_condition rx c" and t: "is_membership_target (c_target c)"
  shows "sql_atom (row_env pg now d account u) c = STrue \<longleftrightarrow>
    evaluate_single rx now c f (load_memberships d (Some account) (bu_did u))"
proof -
  from wf t have op: "c_operator c = Eq" and "prefix ''at://'' (str_or_empty (c_value c))"
    by (auto simp: wf_condition_def)
  then obtain uri where uri: "c_value c = JStr uri" "uri \<noteq> []"
    by (cases "c_value c") (fastforce simp: str_or_empty_def)+
  have li: "\<exists>l \<in> set (bsky_lists d). li_uri l = mb_uri m" if "m \<in> set (list_members d)" for m
    using refs that by (force simp: refs_ok_def)
  have pa: "\<exists>p \<in> set (packs d). sp_uri p = mb_uri m" if "m \<in> set (pack_members d)" for m
    using refs that by (force simp: refs_ok_def)
  show ?thesis
  proof (cases "c_target c = IsOnList")
    case True
    have "sql_atom (row_env pg now d account u) c = STrue \<longleftrightarrow>
        (\<exists>m \<in> set (list_members d). mb_uri m = uri \<and> mb_did m = bu_did u)"
      using True op uri
      by (simp add: sql_atom_def build_condition_def build_membership_def str_or_empty_def row_env_def
          row_member_def)
    also have "\<dots> \<longleftrightarrow> uri \<in> list_uris (load_memberships d (Some account) (bu_did u))"
      using own True uri(1) li by (fastforce simp: load_memberships_def owned_by_def str_or_empty_def)
    finally show ?thesis using True uri(1) by (simp add: evaluate_single_def)
  next
    case False
    with t have p: "c_target c = IsOnStarterPack" by (simp add: is_membership_target_def)
    have "sql_atom (row_env pg now d account u) c = STrue \<longleftrightarrow>
        (\<exists>m \<in> set (pack_members d). mb_uri m = uri \<and> mb_did m = bu_did u)"
      using p op uri
      by (simp add: sql_atom_def build_condition_def build_membership_def str_or_empty_def row_env_def
          row_member_def)
    also have "\<dots> \<longleftrightarrow> uri \<in> starter_pack_uris (load_memberships d (Some account) (bu_did u))"
      using own p uri(1) pa by (fastforce simp: load_memberships_def owned_by_def str_or_empty_def)
    finally show ?thesis using p uri(1) by (simp add: evaluate_single_def)
  qed
qed

definition row_view :: "db \<times> string \<times> bsky_user \<Rightarrow> facts \<times> memberships" where
  "row_view e = (case e of (d, account, u) \<Rightarrow>
     (row_facts d account u, load_memberships d (Some account) (bu_did u)))"

lemma atoms_sql_rust:
  assumes cov: "covered rx pg now c (d, account, u)"
  shows "sql_atom (row_env pg now d account u) c = STrue \<longleftrightarrow>
    evaluate_single rx now c (row_facts d account u) (load_memberships d (Some account) (bu_did u))"
proof (cases "target_expr (c_target c)")
  case None
  with cov show ?thesis
    by (intro atom_membership) (auto simp: covered_def target_expr_total)
next
  case (Some e)
  then have nm: "\<not> is_membership_target (c_target c)" using target_expr_total by force
  have wf: "wf_condition rx c" using cov by (simp add: covered_def)
  show ?thesis
  proof (cases "target_kind_of (c_target c)")
    case KBool
    with wf obtain v where "as_bool (c_value c) = Some v" "c_operator c = Eq"
      by (auto simp: wf_condition_def wf_value_def)
    from atom_bool [OF this Some bool_column [OF KBool Some]] show ?thesis
      by (simp add: evaluate_single_def evaluate_by_kind(1) [OF KBool])
  next
    case KInt
    with wf obtain n where "as_i64 (c_value c) = Some n"
      and "c_operator c \<in> {Eq, Neq, Gt, Gte, Lt, Lte, Between}"
      and "c_operator c = Between \<longrightarrow> Option.bind (c_value_end c) as_i64 \<noteq> None"
      by (auto simp: wf_condition_def wf_value_def)
    from atom_int [OF this Some int_column [OF _ KInt Some]] cov show ?thesis
      by (simp add: covered_def evaluate_single_def evaluate_by_kind(2) [OF KInt])
  next
    case KString
    have "sql_atom (row_env pg now d account u) c = STrue \<longleftrightarrow>
        string_match rx c (string_fact (c_target c) (row_facts d account u))"
      by (rule atom_string [OF _ _ Some string_column [OF KString Some]])
        (use cov KString wf in \<open>auto simp: covered_def wf_condition_def row_env_def\<close>)
    then show ?thesis
      by (simp add: evaluate_single_def evaluate_by_kind(3) [OF KString nm])
  qed
qed

subsection \<open>The refinement\<close>

interpretation sql_rust: backend_refinement
  "\<lambda>c (f, m). evaluate_single rx now c f m"
  "\<lambda>t (f, m). evaluate_with_memberships rx now t f m"
  "\<lambda>c (d, account, u). sql_atom (row_env pg now d account u) c = STrue"
  "\<lambda>t (d, account, u). sql_accepts off (row_env pg now d account u) t"
  row_view "covered rx pg now"
  for rx now pg off
proof unfold_locales
  fix t e
  show "(case e of (d, account, u) \<Rightarrow> sql_accepts off (row_env pg now d account u) t) \<longleftrightarrow>
      grant_on_any_relation t \<or> (\<exists>g \<in> set (groups t). conditions g \<noteq> [] \<and>
        (\<forall>c \<in> set (conditions g). case e of (d, account, u) \<Rightarrow>
           sql_atom (row_env pg now d account u) c = STrue))"
    by (cases e) (simp add: sql_accepts_iff)
next
  fix c e
  assume "covered rx pg now c e"
  then show "(case e of (d, account, u) \<Rightarrow> sql_atom (row_env pg now d account u) c = STrue) =
      (case row_view e of (f, m) \<Rightarrow> evaluate_single rx now c f m)"
    by (cases e) (simp add: atoms_sql_rust row_view_def)
qed

end
