(* ===== verification/Crates.thy ===== *)
theory Crates
  imports Condition_Eval Errors
begin

section \<open>Third-party code as parameters\<close>

text \<open>
  \<open>crates\<close> gathers the functions of other crates that the sources call. Nothing is assumed of them
  here: a lemma that relies on documented behaviour (an AEAD opens what it sealed, a hash does not
  collide) names it as a hypothesis. \<open>cr_json\<close> is \<open>serde_json\<close>'s parser, with the error's text on the
  left; the members of a parsed object are distinct. \<open>struct_members\<close> is how a derived
  \<open>Deserialize\<close> reads a struct: from an object, or from an array in field order.
\<close>

record crates =
  cr_regex :: regex_engine
  cr_json :: "string \<Rightarrow> string + json"
  cr_json_show :: "json \<Rightarrow> string"
  cr_shape_error :: "json \<Rightarrow> string"
    \<comment> \<open>serde's message when a value does not have the shape of the struct\<close>
  cr_hmac :: "string \<Rightarrow> string \<Rightarrow> string"
    \<comment> \<open>HMAC-SHA256: key, message, 32-byte tag\<close>
  cr_hex :: "string \<Rightarrow> string"
  cr_b64_decode :: "string \<Rightarrow> string option"
    \<comment> \<open>URL-safe alphabet, no padding\<close>
  cr_url_encode :: "string \<Rightarrow> string"
  cr_url_decode :: "string \<Rightarrow> string option"
  cr_cookie :: "string \<Rightarrow> string"
    \<comment> \<open>the encoded form of the \<open>rl_session\<close> cookie with this value\<close>
  cr_hkdf :: "string \<Rightarrow> u8 list"
    \<comment> \<open>HKDF-SHA256 with the source's salt and info: secret to 32-byte key\<close>
  cr_seal :: "u8 list \<Rightarrow> u8 list \<Rightarrow> u8 list \<Rightarrow> u8 list \<Rightarrow> u8 list"
    \<comment> \<open>AES-256-GCM: key, nonce, associated data, message\<close>
  cr_open :: "u8 list \<Rightarrow> u8 list \<Rightarrow> u8 list \<Rightarrow> u8 list \<Rightarrow> u8 list option"
  cr_utf8 :: "u8 list \<Rightarrow> string + string"
  cr_status_text :: "nat \<Rightarrow> string"
    \<comment> \<open>\<open>Display\<close> of a \<open>StatusCode\<close>\<close>
  cr_rfc3339 :: "string \<Rightarrow> instant option"
  cr_show_rfc3339 :: "instant \<Rightarrow> string"
  cr_time_json :: "instant \<Rightarrow> string"
    \<comment> \<open>the text serde gives a \<open>DateTime<Utc>\<close>\<close>

definition cr_hmac_hex :: "crates \<Rightarrow> string \<Rightarrow> string \<Rightarrow> string" where
  "cr_hmac_hex cr key msg = cr_hex cr (cr_hmac cr key msg)"

subsection \<open>Derived deserialisers\<close>

fun struct_members :: "string list \<Rightarrow> json \<Rightarrow> (string \<times> json) list option" where
  "struct_members names (JObj ms) = Some ms"
| "struct_members names (JArr xs) = (if length xs \<le> length names then Some (zip names xs) else None)"
| "struct_members names _ = None"

text \<open>A required field; a \<open>#[serde(default)]\<close> field; an \<open>Option\<close> field with a default.\<close>

definition req :: "(json \<Rightarrow> 'a option) \<Rightarrow> (string \<times> json) list \<Rightarrow> string \<Rightarrow> 'a option" where
  "req dec ms k = Option.bind (map_of ms k) dec"

definition dflt :: "(json \<Rightarrow> 'a option) \<Rightarrow> 'a \<Rightarrow> (string \<times> json) list \<Rightarrow> string \<Rightarrow> 'a option" where
  "dflt dec d ms k = (case map_of ms k of None \<Rightarrow> Some d | Some v \<Rightarrow> dec v)"

definition optional :: "(json \<Rightarrow> 'a option) \<Rightarrow> json \<Rightarrow> 'a option option" where
  "optional dec v = (if v = JNull then Some None else map_option Some (dec v))"

definition opt_field :: "(json \<Rightarrow> 'a option) \<Rightarrow> (string \<times> json) list \<Rightarrow> string \<Rightarrow> 'a option option" where
  "opt_field dec ms k = dflt (optional dec) None ms k"

fun as_any :: "json \<Rightarrow> json option" where
  "as_any v = Some v"

fun sequence_of :: "(json \<Rightarrow> 'a option) \<Rightarrow> json \<Rightarrow> 'a list option" where
  "sequence_of dec (JArr xs) = map_options dec xs"
| "sequence_of dec _ = None"

text \<open>\<open>resp.json::<T>()\<close>: parse the text, then read the struct.\<close>

definition parse_as :: "crates \<Rightarrow> (json \<Rightarrow> 'a option) \<Rightarrow> string \<Rightarrow> string + 'a" where
  "parse_as cr dec body =
     and_then (cr_json cr body) (\<lambda>v. ok_or (dec v) (cr_shape_error cr v))"

text \<open>A trivial instance, for evaluating the model on concrete inputs.\<close>

definition plain_crates :: crates where
  "plain_crates =
     \<lparr>cr_regex = (\<lambda>p. Some (\<lambda>s. str_contains s p)), cr_json = (\<lambda>s. if s = ''{}'' then Inr (JObj []) else Inl ''expected value''),
      cr_json_show = (\<lambda>v. ''value''), cr_shape_error = (\<lambda>v. ''invalid type''),
      cr_hmac = (\<lambda>k m. k @ m), cr_hex = (\<lambda>s. s), cr_b64_decode = Some,
      cr_url_encode = (\<lambda>s. s), cr_url_decode = Some,
      cr_cookie = (\<lambda>v. ''rl_session='' @ v), cr_hkdf = (\<lambda>s. replicate 32 0), cr_seal = (\<lambda>k n a m. m @ replicate 16 7),
      cr_open = (\<lambda>k n a c. if drop (length c - 16) c = replicate 16 7
                           then Some (take (length c - 16) c) else None),
      cr_utf8 = (\<lambda>bs. Inr (map (\<lambda>b. char_of (unat b)) bs)),
      cr_status_text = show_nat, cr_rfc3339 = (\<lambda>s. None), cr_show_rfc3339 = show_int,
      cr_time_json = show_int\<rparr>"

end
