(* ===== verification/Config.thy ===== *)
theory Config
  imports Prelude
begin

section \<open>Configuration (\<open>config.rs\<close>, the wiring of \<open>main.rs\<close>, \<open>security_headers.rs\<close>)\<close>

text \<open>
  \<open>from_env\<close> reads the environment, a function from names to values; the three \<open>expect\<close>s that stop
  the process are \<open>None\<close>. \<open>derive_origin\<close> and \<open>path_only\<close> cut \<open>BASE_URL\<close> in two;
  \<open>allowed_origins\<close> is the list CSRF checks are made against.
\<close>

fun find_sub :: "string \<Rightarrow> string \<Rightarrow> nat option" where
  "find_sub pat [] = (if pat = [] then Some 0 else None)"
| "find_sub pat (c # cs) =
     (if prefix pat (c # cs) then Some 0 else map_option Suc (find_sub pat cs))"

definition derive_origin :: "string \<Rightarrow> string" where
  "derive_origin base_url =
     (case find_sub ''://'' base_url of
        None \<Rightarrow> base_url
      | Some scheme_end \<Rightarrow>
          (let after_scheme = scheme_end + 3
           in case find_sub ''/'' (drop after_scheme base_url) of
                None \<Rightarrow> base_url
              | Some slash \<Rightarrow> take (after_scheme + slash) base_url))"

text \<open>\<open>path_only\<close> is a function of \<open>routes/verify.rs\<close>.\<close>

definition path_only :: "string \<Rightarrow> string" where
  "path_only base_url =
     (case find_sub ''://'' base_url of
        None \<Rightarrow> []
      | Some scheme_end \<Rightarrow>
          (let after_scheme = scheme_end + 3
           in case find_sub ''/'' (drop after_scheme base_url) of
                None \<Rightarrow> []
              | Some slash \<Rightarrow> trim_end_matches (CHR ''/'') (drop (after_scheme + slash) base_url)))"

text \<open>\<open>s.parse::<u32>()\<close> and \<open>u64\<close>: an optional plus, digits, no overflow.\<close>

definition parse_unsigned :: "nat \<Rightarrow> string \<Rightarrow> nat option" where
  "parse_unsigned limit s =
     (let ds = (case s of c # cs \<Rightarrow> if c = CHR ''+'' then cs else s | [] \<Rightarrow> [])
      in if ds \<noteq> [] \<and> list_all is_ascii_digit ds \<and> digits_value ds \<le> int limit
         then Some (nat (digits_value ds)) else None)"

definition u32_max :: nat where "u32_max = 4294967295"
definition u64_max :: nat where "u64_max = 18446744073709551615"

record db_pool_config =
  max_connections :: nat
  min_connections :: nat
  acquire_timeout_secs :: nat
  idle_timeout_secs :: nat

record app_config =
  database_url :: string
  session_secret :: string
  base_url :: string
  listen_addr :: string
  auth_gateway_url :: string
  internal_api_key :: string
  rl_dashboard_origin :: "string option"
  rolelogic_api_url :: string
  worker_concurrency :: nat
  db_pool :: db_pool_config
  default_pds :: string

type_synonym environment = "string \<Rightarrow> string option"

definition env_number :: "nat \<Rightarrow> nat \<Rightarrow> environment \<Rightarrow> string \<Rightarrow> nat" where
  "env_number limit d env k =
     (case Option.bind (env k) (parse_unsigned limit) of None \<Rightarrow> d | Some n \<Rightarrow> n)"

definition env_url :: "environment \<Rightarrow> string \<Rightarrow> string option" where
  "env_url env k =
     Option.bind (env k) (\<lambda>s. let t = trim_end_matches (CHR ''/'') (trim s)
                              in if t = [] then None else Some t)"

definition or_default :: "'a option \<Rightarrow> 'a \<Rightarrow> 'a" where
  "or_default x d = (case x of None \<Rightarrow> d | Some v \<Rightarrow> v)"

definition db_pool_from_env :: "environment \<Rightarrow> db_pool_config" where
  "db_pool_from_env env =
     \<lparr>max_connections = env_number u32_max 10 env ''DB_MAX_CONNECTIONS'',
      min_connections = env_number u32_max 2 env ''DB_MIN_CONNECTIONS'',
      acquire_timeout_secs = env_number u64_max 5 env ''DB_ACQUIRE_TIMEOUT_SECS'',
      idle_timeout_secs = env_number u64_max 600 env ''DB_IDLE_TIMEOUT_SECS''\<rparr>"

definition from_env :: "environment \<Rightarrow> app_config option" where
  "from_env env =
     Option.bind (env ''BASE_URL'') (\<lambda>base.
     Option.bind (env ''DATABASE_URL'') (\<lambda>database.
     Option.bind (env ''SESSION_SECRET'') (\<lambda>secret.
     Option.bind (env ''INTERNAL_API_KEY'') (\<lambda>key.
     Some \<lparr>database_url = database, session_secret = secret, base_url = base,
           listen_addr = or_default (env ''LISTEN_ADDR'') ''0.0.0.0:8095'',
           auth_gateway_url =
             or_default (map_option (trim_end_matches (CHR ''/'')) (env ''AUTH_GATEWAY_URL''))
               (derive_origin base),
           internal_api_key = key,
           rl_dashboard_origin =
             Some (or_default (env_url env ''RL_DASHBOARD_ORIGIN'') ''https://rolelogic.faizo.net''),
           rolelogic_api_url =
             or_default (env_url env ''ROLELOGIC_API_URL'') ''https://api-rolelogic.faizo.net'',
           worker_concurrency = env_number u32_max 4 env ''WORKER_CONCURRENCY'',
           db_pool = db_pool_from_env env,
           default_pds = or_default (env_url env ''BSKY_DEFAULT_PDS'') ''https://bsky.social''\<rparr>))))"

definition allowed_origins :: "app_config \<Rightarrow> string list" where
  "allowed_origins cfg =
     derive_origin (base_url cfg)
     # (case rl_dashboard_origin cfg of None \<Rightarrow> [] | Some dash \<Rightarrow> [dash])"

definition workers_spawned :: "app_config \<Rightarrow> nat" where
  "workers_spawned cfg = max 1 (worker_concurrency cfg)"

definition admin_iframe_csp :: "string option \<Rightarrow> string" where
  "admin_iframe_csp dashboard_origin = ''frame-ancestors '' @ or_default dashboard_origin ''*''"

text \<open>\<open>baseline\<close>: a header the handler set is kept, the others are added.\<close>

definition header_or_insert :: "string \<times> string \<Rightarrow> (string \<times> string) list \<Rightarrow> (string \<times> string) list" where
  "header_or_insert kv hs = (if fst kv \<in> fst ` set hs then hs else hs @ [kv])"

definition baseline_headers :: "(string \<times> string) list" where
  "baseline_headers =
     [(''content-security-policy'', ''frame-ancestors '' @ CHR 0x27 # ''none'' @ [CHR 0x27]),
      (''x-content-type-options'', ''nosniff''),
      (''referrer-policy'', ''strict-origin-when-cross-origin''),
      (''strict-transport-security'', ''max-age=31536000; includeSubDomains'')]"

definition baseline :: "(string \<times> string) list \<Rightarrow> (string \<times> string) list" where
  "baseline hs = foldl (\<lambda>hs kv. header_or_insert kv hs) hs baseline_headers"

lemma header_or_insert_keeps: "map_of hs k = Some v \<Longrightarrow> map_of (header_or_insert kv hs) k = Some v"
  by (auto simp: header_or_insert_def map_add_def)

lemma header_or_insert_present: "fst kv \<in> fst ` set (header_or_insert kv hs)"
  by (auto simp: header_or_insert_def)

lemma foldl_header_keeps:
  "map_of hs k = Some v \<Longrightarrow> map_of (foldl (\<lambda>hs kv. header_or_insert kv hs) hs kvs) k = Some v"
  by (induction kvs arbitrary: hs) (auto intro: header_or_insert_keeps)

lemma header_or_insert_mono: "fst ` set hs \<subseteq> fst ` set (header_or_insert kv hs)"
  by (auto simp: header_or_insert_def)

lemma foldl_header_mono:
  "fst ` set hs \<subseteq> fst ` set (foldl (\<lambda>hs kv. header_or_insert kv hs) hs kvs)"
proof (induction kvs arbitrary: hs)
  case (Cons kv kvs)
  from Cons [of "header_or_insert kv hs"] header_or_insert_mono [of hs kv] show ?case by simp
qed simp

lemma foldl_header_present:
  "kv \<in> set kvs \<Longrightarrow> fst kv \<in> fst ` set (foldl (\<lambda>hs kv. header_or_insert kv hs) hs kvs)"
proof (induction kvs arbitrary: hs)
  case (Cons kv' kvs)
  then show ?case
    using foldl_header_mono [of "header_or_insert kv' hs" kvs] header_or_insert_present [of kv' hs]
    by auto
qed simp

lemma baseline_present: "kv \<in> set baseline_headers \<Longrightarrow> fst kv \<in> fst ` set (baseline hs)"
  by (simp add: baseline_def foldl_header_present)

lemma baseline_keeps: "map_of hs k = Some v \<Longrightarrow> map_of (baseline hs) k = Some v"
  by (simp add: baseline_def foldl_header_keeps)

lemma find_sub_Some: "find_sub pat s = Some i \<Longrightarrow> prefix pat (drop i s) \<and> i \<le> length s"
  by (induction pat s arbitrary: i rule: find_sub.induct) (auto split: if_splits)

lemma dropWhile_twice: "dropWhile P (dropWhile P a @ b) = dropWhile P (a @ b)"
  by (induction a) auto

text \<open>The origin and the path make up the URL again, up to a trailing slash.\<close>

lemma origin_path: "find_sub ''://'' u \<noteq> None \<Longrightarrow>
   trim_end_matches (CHR ''/'') (derive_origin u @ path_only u) = trim_end_matches (CHR ''/'') u"
proof -
  assume "find_sub ''://'' u \<noteq> None"
  then obtain i where i: "find_sub ''://'' u = Some i" by auto
  have tail: "trim_end_matches c (xs @ trim_end_matches c ys) = trim_end_matches c (xs @ ys)"
    for c and xs ys :: string
    by (simp add: trim_end_matches_def dropWhile_twice)
  show ?thesis
  proof (cases "find_sub ''/'' (drop (i + 3) u)")
    case None
    with i show ?thesis by (simp add: derive_origin_def path_only_def)
  next
    case (Some j)
    with i show ?thesis by (simp add: derive_origin_def path_only_def tail)
  qed
qed

end
