(* ===== verification/Http.thy ===== *)
theory Http
  imports Crates Config
begin

section \<open>HTTP calls and the state they run in\<close>

text \<open>
  An outgoing call is a \<open>request\<close> handed to a transport, a function of the request and of the state of
  the outside world \<open>'w\<close>: it answers with a response or with the text of a network error and moves
  the world on. A client function is a computation on that state that may return early;
  \<open>io_then\<close> is \<open>?\<close> after \<open>await\<close>. \<open>logged\<close> records what is sent, for the statements about traffic.

  \<open>app\<close> is \<open>AppState\<close>: the configuration, the crates, the transport and the clock of the handler.
\<close>

datatype http_method = GET | POST | PUT | DELETE

record request =
  rq_method :: http_method
  rq_url :: string
  rq_query :: "(string \<times> string) list"
  rq_headers :: "(string \<times> string) list"
  rq_json :: "json option"

record response =
  rs_status :: nat
  rs_body :: string

type_synonym 'w transport = "request \<Rightarrow> 'w \<Rightarrow> (string + response) \<times> 'w"
type_synonym ('w, 'a) io = "'w \<Rightarrow> (app_error + 'a) \<times> 'w"

record 'w app =
  ap_config :: app_config
  ap_crates :: crates
  ap_send :: "request \<Rightarrow> 'w \<Rightarrow> (string + response) \<times> 'w"
  ap_now :: instant
  ap_nonce :: "nat \<Rightarrow> u8 list"
    \<comment> \<open>the random nonces the handler draws, in order\<close>
  ap_pg :: "(string \<Rightarrow> string) \<times> (string \<Rightarrow> string \<Rightarrow> bool)"
    \<comment> \<open>PostgreSQL's \<open>LOWER\<close> and \<open>~\<close>\<close>

definition now_secs :: "'w app \<Rightarrow> int" where
  "now_secs app = ap_now app div 1000000"

definition is_success :: "response \<Rightarrow> bool" where
  "is_success r \<longleftrightarrow> 200 \<le> rs_status r \<and> rs_status r < 300"

named_theorems io_simps \<open>stepping through a computation\<close>

definition io_return :: "'a \<Rightarrow> 's \<Rightarrow> ('e + 'a) \<times> 's" where
  "io_return a s = (Inr a, s)"

definition io_fail :: "'e \<Rightarrow> 's \<Rightarrow> ('e + 'a) \<times> 's" where
  "io_fail e s = (Inl e, s)"

definition io_then :: "('s \<Rightarrow> ('e + 'a) \<times> 's) \<Rightarrow> ('a \<Rightarrow> 's \<Rightarrow> ('e + 'b) \<times> 's) \<Rightarrow> 's \<Rightarrow> ('e + 'b) \<times> 's"
where
  "io_then m k s = (case m s of (Inl e, s') \<Rightarrow> (Inl e, s') | (Inr a, s') \<Rightarrow> k a s')"

definition io_lift :: "('e + 'a) \<Rightarrow> 's \<Rightarrow> ('e + 'a) \<times> 's" where
  "io_lift r s = (r, s)"

lemma io_basic [simp, io_simps]:
  "io_return a s = (Inr a, s)" "io_fail e s = (Inl e, s)" "io_lift r s = (r, s)"
  by (simp_all add: io_return_def io_fail_def io_lift_def)

lemma io_then_Inr [io_simps]:
  "io_then m k s = (Inr b, s2) \<longleftrightarrow> (\<exists>a s1. m s = (Inr a, s1) \<and> k a s1 = (Inr b, s2))"
  by (auto simp: io_then_def split: prod.splits sum.splits)

lemma io_then_Inl [io_simps]:
  "io_then m k s = (Inl e, s2) \<longleftrightarrow>
     m s = (Inl e, s2) \<or> (\<exists>a s1. m s = (Inr a, s1) \<and> k a s1 = (Inl e, s2))"
  by (auto simp: io_then_def split: prod.splits sum.splits)

lemma io_then_step [simp]:
  "m s = (Inr a, s1) \<Longrightarrow> io_then m k s = k a s1"
  "m s = (Inl e, s1) \<Longrightarrow> io_then m k s = (Inl e, s1)"
  by (simp_all add: io_then_def)

text \<open>What a computation preserves: the invariants of handlers are proved call by call.\<close>

definition preserves :: "('s \<Rightarrow> bool) \<Rightarrow> ('s \<Rightarrow> ('e + 'a) \<times> 's) \<Rightarrow> bool" where
  "preserves P m \<longleftrightarrow> (\<forall>s. P s \<longrightarrow> P (snd (m s)))"

lemma preserves_return [simp, intro]: "preserves P (io_return a)"
  by (simp add: preserves_def)

lemma preserves_fail [simp, intro]: "preserves P (io_fail a)"
  by (simp add: preserves_def)

lemma preserves_lift [simp, intro]: "preserves P (io_lift r)"
  by (simp add: preserves_def)

lemma preserves_then [intro]:
  "preserves P m \<Longrightarrow> (\<And>a. preserves P (k a)) \<Longrightarrow> preserves P (io_then m k)"
  by (auto simp: preserves_def io_then_def split: prod.splits sum.splits)

lemma preserves_if [intro]:
  "(b \<Longrightarrow> preserves P m) \<Longrightarrow> (\<not> b \<Longrightarrow> preserves P n) \<Longrightarrow> preserves P (if b then m else n)"
  by simp

text \<open>Sending: the network error becomes an application error.\<close>

definition send_req :: "'w app \<Rightarrow> (string \<Rightarrow> app_error) \<Rightarrow> request \<Rightarrow> ('w, response) io" where
  "send_req app err rq w =
     (case ap_send app rq w of (Inl e, w') \<Rightarrow> (Inl (err e), w') | (Inr r, w') \<Rightarrow> (Inr r, w'))"

definition json_body ::
  "'w app \<Rightarrow> (json \<Rightarrow> 'a option) \<Rightarrow> (string \<Rightarrow> app_error) \<Rightarrow> response \<Rightarrow> app_error + 'a"
where
  "json_body app dec err r =
     (case parse_as (ap_crates app) dec (rs_body r) of Inl e \<Rightarrow> Inl (err e) | Inr x \<Rightarrow> Inr x)"

definition logged :: "'v transport \<Rightarrow> (request list \<times> 'v) transport" where
  "logged t rq w = (case t rq (snd w) of (r, v) \<Rightarrow> (r, (fst w @ [rq], v)))"

text \<open>Lifting a client call to a state that also holds the database.\<close>

definition on_world :: "('w, 'a) io \<Rightarrow> 'd \<times> 'w \<Rightarrow> (app_error + 'a) \<times> ('d \<times> 'w)" where
  "on_world m s = (case m (snd s) of (r, w) \<Rightarrow> (r, (fst s, w)))"

definition on_db :: "('d \<Rightarrow> 'd) \<Rightarrow> 'd \<times> 'w \<Rightarrow> ('e + unit) \<times> ('d \<times> 'w)" where
  "on_db f s = (Inr (), (f (fst s), snd s))"

definition query :: "('d \<Rightarrow> 'a) \<Rightarrow> 'd \<times> 'w \<Rightarrow> ('e + 'a) \<times> ('d \<times> 'w)" where
  "query f s = (Inr (f (fst s)), s)"

lemma query_step [simp, io_simps]: "query f s = (Inr (f (fst s)), s)"
  by (simp add: query_def)

lemma on_db_step [simp, io_simps]: "on_db f s = (Inr (), (f (fst s), snd s))"
  by (simp add: on_db_def)

lemma on_world_db: "on_world m s = (r, s') \<Longrightarrow> fst s' = fst s"
  by (auto simp: on_world_def split: prod.splits)

lemma preserves_on_world [simp, intro]: "preserves (\<lambda>s. P (fst s)) (on_world m)"
  by (auto simp: preserves_def on_world_def split: prod.splits)

lemma preserves_query [simp, intro]: "preserves P (query f)"
  by (simp add: preserves_def)

lemma preserves_on_db [intro]: "(\<And>d. P d \<Longrightarrow> P (f d)) \<Longrightarrow> preserves (\<lambda>s. P (fst s)) (on_db f)"
  by (simp add: preserves_def)

text \<open>\<open>xs.chunks(n)\<close>.\<close>

function chunks :: "nat \<Rightarrow> 'a list \<Rightarrow> 'a list list" where
  "chunks n xs = (if xs = [] \<or> n = 0 then [] else take n xs # chunks n (drop n xs))"
  by pat_completeness auto
termination by (relation "measure (\<lambda>(n, xs). length xs)") auto

declare chunks.simps [simp del]

lemma concat_chunks: "0 < n \<Longrightarrow> concat (chunks n xs) = xs"
proof (induction n xs rule: chunks.induct)
  case (1 n xs)
  then show ?case by (subst chunks.simps) auto
qed

lemma chunks_size: "c \<in> set (chunks n xs) \<Longrightarrow> c \<noteq> [] \<and> length c \<le> n"
proof (induction n xs rule: chunks.induct)
  case (1 n xs)
  show ?case
  proof (cases "xs = [] \<or> n = 0")
    case True
    with "1.prems" show ?thesis by (subst (asm) chunks.simps) simp
  next
    case False
    with 1 show ?thesis by (subst (asm) (2) chunks.simps) auto
  qed
qed

end
