(* ===== verification/Rolelogic_Client.thy ===== *)
theory Rolelogic_Client
  imports Http
begin

section \<open>The RoleLogic client (\<open>services/rolelogic.rs\<close>)\<close>

text \<open>
  One definition per method of \<open>RoleLogicClient\<close>, over the transport of \<open>app\<close>. The base URL is
  the configured one without trailing slashes. \<open>link_inactive\<close>, \<open>removal_held\<close> and the "link gone" test
  classify a refusal by status and body text; each method applies the tests the source applies.
\<close>

definition put_max_users :: nat where "put_max_users = 100000"
definition chunk_size :: nat where "chunk_size = 100000"
definition link_gone_msg :: string where "link_gone_msg = ''Invalid or revoked token''"
definition link_disabled_msg :: string where "link_disabled_msg = ''This role link is disabled''"
definition link_paused_msg :: string where "link_paused_msg = ''This role link is paused''"
definition confirm_required :: string where "confirm_required = ''confirm_required''"

definition link_gone :: "response \<Rightarrow> bool" where
  "link_gone r \<longleftrightarrow> rs_status r = 403 \<and> str_contains (rs_body r) link_gone_msg"

definition link_inactive :: "response \<Rightarrow> bool" where
  "link_inactive r \<longleftrightarrow> rs_status r = 403 \<and>
     (str_contains (rs_body r) link_disabled_msg \<or> str_contains (rs_body r) link_paused_msg)"

definition removal_held :: "response \<Rightarrow> bool" where
  "removal_held r \<longleftrightarrow> rs_status r = 409 \<and> str_contains (rs_body r) confirm_required"

definition rl_base :: "'w app \<Rightarrow> string" where
  "rl_base app = trim_end_matches (CHR ''/'') (rolelogic_api_url (ap_config app))"

definition users_url :: "'w app \<Rightarrow> string \<Rightarrow> string \<Rightarrow> string" where
  "users_url app g r = rl_base app @ ''/api/role-link/'' @ g @ ''/'' @ r @ ''/users''"

definition rl_request :: "http_method \<Rightarrow> string \<Rightarrow> string \<Rightarrow> json option \<Rightarrow> request" where
  "rl_request m url token body =
     \<lparr>rq_method = m, rq_url = url, rq_query = [], rq_headers = [(''Authorization'', ''Token '' @ token)],
      rq_json = body\<rparr>"

definition rl_failed :: "'w app \<Rightarrow> string \<Rightarrow> response \<Rightarrow> app_error" where
  "rl_failed app what r =
     RoleLogic (what @ '' failed: '' @ cr_status_text (ap_crates app) (rs_status r) @ '' - '' @ rs_body r)"

definition rl_json :: "'w app \<Rightarrow> response \<Rightarrow> app_error + json" where
  "rl_json app r = json_body app as_any RoleLogic r"

text \<open>\<open>body["data"][k]\<close> as a number or a flag, with the source's default.\<close>

definition data_u64 :: "json \<Rightarrow> string \<Rightarrow> nat \<Rightarrow> nat" where
  "data_u64 body k d = (case as_u64 (json_at (json_at body ''data'') k) of None \<Rightarrow> d | Some n \<Rightarrow> n)"

definition data_bool :: "json \<Rightarrow> string \<Rightarrow> bool" where
  "data_bool body k = (case as_bool (json_at (json_at body ''data'') k) of None \<Rightarrow> False | Some b \<Rightarrow> b)"

definition get_user_info :: "'w app \<Rightarrow> string \<Rightarrow> string \<Rightarrow> string \<Rightarrow> ('w, nat \<times> nat) io" where
  "get_user_info app g r token =
     io_then (send_req app RoleLogic (rl_request GET (users_url app g r) token None)) (\<lambda>resp.
     if \<not> is_success resp then
       io_fail (if link_gone resp then RoleLinkNotFound
                else if link_inactive resp then RoleLinkDisabled
                else rl_failed app ''Get user info'' resp)
     else io_then (io_lift (rl_json app resp)) (\<lambda>body.
       io_return (data_u64 body ''user_count'' 0, data_u64 body ''user_limit'' 100)))"

definition add_user :: "'w app \<Rightarrow> string \<Rightarrow> string \<Rightarrow> string \<Rightarrow> string \<Rightarrow> ('w, bool) io" where
  "add_user app g r user token =
     io_then (send_req app RoleLogic (rl_request POST (users_url app g r @ ''/'' @ user) token None)) (\<lambda>resp.
     if \<not> is_success resp then
       io_fail (if link_gone resp then RoleLinkNotFound
                else if link_inactive resp then RoleLinkDisabled
                else if (rs_status resp = 400 \<or> rs_status resp = 403) \<and> str_contains (rs_body resp) ''limit'' then
                  UserLimitReached (data_u64 (case cr_json (ap_crates app) (rs_body resp) of
                                                Inl _ \<Rightarrow> JNull | Inr v \<Rightarrow> v) ''user_limit'' 100)
                else rl_failed app ''Add user'' resp)
     else io_then (io_lift (rl_json app resp)) (\<lambda>body. io_return (data_bool body ''added'')))"

definition remove_user :: "'w app \<Rightarrow> string \<Rightarrow> string \<Rightarrow> string \<Rightarrow> string \<Rightarrow> ('w, bool) io" where
  "remove_user app g r user token =
     io_then (send_req app RoleLogic (rl_request DELETE (users_url app g r @ ''/'' @ user) token None)) (\<lambda>resp.
     if \<not> is_success resp then
       io_fail (if link_gone resp then RoleLinkNotFound
                else if link_inactive resp then RoleLinkDisabled
                else rl_failed app ''Remove user'' resp)
     else io_then (io_lift (rl_json app resp)) (\<lambda>body. io_return (data_bool body ''removed'')))"

definition replace_users ::
  "'w app \<Rightarrow> string \<Rightarrow> string \<Rightarrow> string list \<Rightarrow> string \<Rightarrow> ('w, nat) io"
where
  "replace_users app g r users token =
     io_then (send_req app RoleLogic
                (rl_request PUT (users_url app g r) token (Some (JArr (map JStr users))))) (\<lambda>resp.
     if \<not> is_success resp then
       io_fail (if link_gone resp then RoleLinkNotFound
                else if link_inactive resp then RoleLinkDisabled
                else if removal_held resp then RemovalHeld
                else rl_failed app ''Replace users'' resp)
     else io_then (io_lift (rl_json app resp)) (\<lambda>body. io_return (data_u64 body ''user_count'' 0)))"

definition start_upload :: "'w app \<Rightarrow> string \<Rightarrow> string \<Rightarrow> string \<Rightarrow> ('w, string) io" where
  "start_upload app g r token =
     io_then (send_req app RoleLogic (rl_request POST (users_url app g r @ ''/upload'') token None)) (\<lambda>resp.
     if \<not> is_success resp then
       io_fail (if link_gone resp then RoleLinkNotFound
                else if link_inactive resp then RoleLinkDisabled
                else rl_failed app ''Start upload'' resp)
     else io_then (io_lift (rl_json app resp)) (\<lambda>body.
       io_lift (ok_or (as_str (json_at (json_at body ''data'') ''upload_id''))
                  (RoleLogic ''Start upload response missing upload_id''))))"

definition upload_url :: "'w app \<Rightarrow> string \<Rightarrow> string \<Rightarrow> string \<Rightarrow> string" where
  "upload_url app g r upload_id = users_url app g r @ ''/upload/'' @ upload_id"

definition chunk_request :: "'w app \<Rightarrow> string \<Rightarrow> string \<Rightarrow> string \<Rightarrow> string \<Rightarrow> string list \<Rightarrow> request" where
  "chunk_request app g r upload_id token users =
     rl_request POST (upload_url app g r upload_id @ ''/chunk'') token (Some (JArr (map JStr users)))"

definition upload_chunk ::
  "'w app \<Rightarrow> string \<Rightarrow> string \<Rightarrow> string \<Rightarrow> string list \<Rightarrow> string \<Rightarrow> ('w, unit) io"
where
  "upload_chunk app g r upload_id users token =
     io_then (send_req app RoleLogic (chunk_request app g r upload_id token users)) (\<lambda>resp.
     if \<not> is_success resp then io_fail (rl_failed app ''Upload chunk'' resp) else io_return ())"

definition commit_request :: "'w app \<Rightarrow> string \<Rightarrow> string \<Rightarrow> string \<Rightarrow> string \<Rightarrow> request" where
  "commit_request app g r upload_id token =
     rl_request POST (upload_url app g r upload_id @ ''/commit'') token None"

definition commit_upload :: "'w app \<Rightarrow> string \<Rightarrow> string \<Rightarrow> string \<Rightarrow> string \<Rightarrow> ('w, nat) io" where
  "commit_upload app g r upload_id token =
     io_then (send_req app RoleLogic (commit_request app g r upload_id token)) (\<lambda>resp.
     if \<not> is_success resp then
       io_fail (if removal_held resp then RemovalHeld else rl_failed app ''Commit upload'' resp)
     else io_then (io_lift (rl_json app resp)) (\<lambda>body. io_return (data_u64 body ''user_count'' 0)))"

definition cancel_request :: "'w app \<Rightarrow> string \<Rightarrow> string \<Rightarrow> string \<Rightarrow> string \<Rightarrow> request" where
  "cancel_request app g r upload_id token = rl_request DELETE (upload_url app g r upload_id) token None"

definition cancel_upload :: "'w app \<Rightarrow> string \<Rightarrow> string \<Rightarrow> string \<Rightarrow> string \<Rightarrow> ('w, unit) io" where
  "cancel_upload app g r upload_id token =
     io_then (send_req app RoleLogic (cancel_request app g r upload_id token)) (\<lambda>resp.
     if \<not> is_success resp then io_fail (rl_failed app ''Cancel upload'' resp) else io_return ())"

text \<open>The loop of \<open>upload_users\<close>: the first failure cancels the upload and is the result.\<close>

fun upload_chunks ::
  "'w app \<Rightarrow> string \<Rightarrow> string \<Rightarrow> string \<Rightarrow> string \<Rightarrow> string list list \<Rightarrow> ('w, unit) io"
where
  "upload_chunks app g r upload_id token [] w = (Inr (), w)"
| "upload_chunks app g r upload_id token (c # cs) w =
     (case upload_chunk app g r upload_id c token w of
        (Inl e, w1) \<Rightarrow> (Inl e, snd (cancel_upload app g r upload_id token w1))
      | (Inr _, w1) \<Rightarrow> upload_chunks app g r upload_id token cs w1)"

definition upload_users ::
  "'w app \<Rightarrow> string \<Rightarrow> string \<Rightarrow> string list \<Rightarrow> string \<Rightarrow> ('w, nat) io"
where
  "upload_users app g r users token =
     (if length users \<le> put_max_users then replace_users app g r users token
      else
        io_then (start_upload app g r token) (\<lambda>upload_id.
        io_then (upload_chunks app g r upload_id token (chunks chunk_size users)) (\<lambda>_.
        commit_upload app g r upload_id token)))"

subsection \<open>What is sent\<close>

text \<open>\<open>sent m w\<close>: the requests of a computation over a logged transport.\<close>

definition sent :: "(request list \<times> 'v, 'a) io \<Rightarrow> request list \<times> 'v \<Rightarrow> request list" where
  "sent m w = drop (length (fst w)) (fst (snd (m w)))"

definition appends :: "(request list \<times> 'v, 'a) io \<Rightarrow> bool" where
  "appends m \<longleftrightarrow> (\<forall>w. \<exists>rqs. fst (snd (m w)) = fst w @ rqs)"

lemma send_logged:
  assumes "ap_send app = logged t"
  shows "fst (snd (send_req app err rq w)) = fst w @ [rq]"
  using assms by (auto simp: send_req_def logged_def split: prod.splits sum.splits)

lemma send_logged_eq:
  "ap_send app = logged t \<Longrightarrow> send_req app err rq w = (x, w') \<Longrightarrow> fst w' = fst w @ [rq]"
  using send_logged [of app t err rq w] by simp

lemma one_request:
  assumes l: "ap_send app = logged t"
    and k: "\<And>resp w. snd (k resp w) = w"
  shows "fst (snd (io_then (send_req app err rq) k w)) = fst w @ [rq]"
proof -
  obtain x w1 where s: "send_req app err rq w = (x, w1)" by (cases "send_req app err rq w")
  with send_logged_eq [OF l this] k show ?thesis by (cases x) simp_all
qed

lemma lift_then_return [simp]: "snd (io_then (io_lift x) (\<lambda>a. io_return (f a)) w) = w"
  by (cases x) (simp_all add: io_then_def)

lemma lift_then_lift [simp]: "snd (io_then (io_lift x) (\<lambda>a. io_lift (f a)) w) = w"
  by (cases x) (simp_all add: io_then_def)

lemma chunk_sends:
  "ap_send app = logged t \<Longrightarrow>
   fst (snd (upload_chunk app g r u c token w)) = fst w @ [chunk_request app g r u token c]"
  unfolding upload_chunk_def by (rule one_request) auto

lemma commit_sends:
  "ap_send app = logged t \<Longrightarrow>
   fst (snd (commit_upload app g r u token w)) = fst w @ [commit_request app g r u token]"
  unfolding commit_upload_def by (rule one_request) auto

lemma cancel_sends:
  "ap_send app = logged t \<Longrightarrow>
   fst (snd (cancel_upload app g r u token w)) = fst w @ [cancel_request app g r u token]"
  unfolding cancel_upload_def by (rule one_request) auto

lemma start_sends:
  "ap_send app = logged t \<Longrightarrow>
   fst (snd (start_upload app g r token w)) =
     fst w @ [rl_request POST (users_url app g r @ ''/upload'') token None]"
  unfolding start_upload_def by (rule one_request) auto

lemma replace_sends:
  "ap_send app = logged t \<Longrightarrow>
   fst (snd (replace_users app g r us token w)) =
     fst w @ [rl_request PUT (users_url app g r) token (Some (JArr (map JStr us)))]"
  unfolding replace_users_def by (rule one_request) auto

lemma chunks_sent:
  assumes l: "ap_send app = logged t"
  shows "upload_chunks app g r u token cs w = (Inr x, w') \<Longrightarrow>
    fst w' = fst w @ map (chunk_request app g r u token) cs"
proof (induction cs arbitrary: w)
  case Nil
  then show ?case by simp
next
  case (Cons c cs)
  obtain y w1 where s: "upload_chunk app g r u c token w = (y, w1)"
    by (cases "upload_chunk app g r u c token w")
  from chunk_sends [OF l, of g r u c token w] s
  have w1: "fst w1 = fst w @ [chunk_request app g r u token c]" by simp
  from Cons.prems s obtain z where "y = Inr z" by (cases y) auto
  with Cons s w1 show ?case by auto
qed

lemma chunks_failed:
  assumes l: "ap_send app = logged t"
  shows "upload_chunks app g r u token cs w = (Inl e, w') \<Longrightarrow>
    \<exists>n < length cs. fst w' = fst w @ map (chunk_request app g r u token) (take (Suc n) cs)
      @ [cancel_request app g r u token]"
proof (induction cs arbitrary: w)
  case Nil
  then show ?case by simp
next
  case (Cons c cs)
  obtain y w1 where s: "upload_chunk app g r u c token w = (y, w1)"
    by (cases "upload_chunk app g r u c token w")
  from chunk_sends [OF l, of g r u c token w] s
  have w1: "fst w1 = fst w @ [chunk_request app g r u token c]" by simp
  show ?case
  proof (cases y)
    case (Inl e')
    with Cons.prems s have "w' = snd (cancel_upload app g r u token w1)" by auto
    with cancel_sends [OF l, of g r u token w1] w1 show ?thesis by auto
  next
    case (Inr z)
    with Cons.prems s have "upload_chunks app g r u token cs w1 = (Inl e, w')" by auto
    from Cons.IH [OF this] w1 show ?thesis by auto
  qed
qed

text \<open>
  A successful upload sends the whole set: one \<open>PUT\<close>, or a start, the chunks in order and a commit.
\<close>

lemma upload_users_sent:
  assumes l: "ap_send app = logged t" and ok: "upload_users app g r us token w = (Inr n, w')"
  shows "length us \<le> put_max_users \<and>
      fst w' = fst w @ [rl_request PUT (users_url app g r) token (Some (JArr (map JStr us)))]
    \<or> length us > put_max_users \<and> (\<exists>u. fst w' = fst w
        @ [rl_request POST (users_url app g r @ ''/upload'') token None]
        @ map (chunk_request app g r u token) (chunks chunk_size us)
        @ [commit_request app g r u token])"
proof (cases "length us \<le> put_max_users")
  case True
  with ok replace_sends [OF l, of g r us token w] show ?thesis by (simp add: upload_users_def)
next
  case False
  with ok obtain u w1 w2 where u: "start_upload app g r token w = (Inr u, w1)"
    and c: "upload_chunks app g r u token (chunks chunk_size us) w1 = (Inr (), w2)"
    and m: "commit_upload app g r u token w2 = (Inr n, w')"
    by (auto simp: upload_users_def io_simps)
  from start_sends [OF l, of g r token w] u chunks_sent [OF l c] commit_sends [OF l, of g r u token w2] m False
  show ?thesis by auto
qed

lemma upload_chunks_failed_not_committed:
  assumes l: "ap_send app = logged t" and big: "length us > put_max_users"
    and u: "start_upload app g r token w = (Inr u, w1)"
    and c: "upload_chunks app g r u token (chunks chunk_size us) w1 = (Inl e, w2)"
  shows "\<exists>n. upload_users app g r us token w = (Inl e, w2) \<and>
    fst w2 = fst w1 @ map (chunk_request app g r u token) (take n (chunks chunk_size us))
      @ [cancel_request app g r u token]"
proof -
  have "upload_users app g r us token w = (Inl e, w2)"
    using big u c by (simp add: upload_users_def)
  with chunks_failed [OF l c] show ?thesis by auto
qed

lemma chunks_cover: "concat (chunks chunk_size us) = us \<and> (\<forall>c \<in> set (chunks chunk_size us). c \<noteq> [] \<and> length c \<le> chunk_size)"
  using chunks_size by (fastforce simp: concat_chunks chunk_size_def)

end
