(* ===== verification/Gateway_Client.thy ===== *)
theory Gateway_Client
  imports Http
begin

section \<open>The Auth Gateway's internal endpoints (\<open>services/auth_gateway.rs\<close>)\<close>

text \<open>
  The two server-to-server calls of the background sync. Every failure is \<open>Internal\<close>, so that a
  gateway outage never reads as "this server has no members".
\<close>

definition plugin_slug :: string where "plugin_slug = ''bluesky-account-role''"

definition decode_user_guilds :: "json \<Rightarrow> string list option" where
  "decode_user_guilds v =
     Option.bind (struct_members [''guild_ids''] v) (\<lambda>ms. req (sequence_of as_str) ms ''guild_ids'')"

definition decode_guild_members :: "json \<Rightarrow> (string list \<times> string option) option" where
  "decode_guild_members v =
     Option.bind (struct_members [''discord_ids'', ''guild_name''] v) (\<lambda>ms.
     Option.bind (req (sequence_of as_str) ms ''discord_ids'') (\<lambda>ids.
     Option.bind (opt_field as_str ms ''guild_name'') (\<lambda>n. Some (ids, n))))"

definition internal_call ::
  "'w app \<Rightarrow> string \<Rightarrow> (json \<Rightarrow> 'a option) \<Rightarrow> string \<times> string \<Rightarrow> ('w, 'a) io"
where
  "internal_call app endpoint dec q =
     io_then (send_req app (\<lambda>e. Internal (''auth_gateway request failed: '' @ e))
       \<lparr>rq_method = GET,
        rq_url = auth_gateway_url (ap_config app) @ ''/auth/internal/'' @ endpoint,
        rq_query = [q, (''plugin'', plugin_slug)],
        rq_headers = [(''X-Internal-Key'', internal_api_key (ap_config app))], rq_json = None\<rparr>) (\<lambda>resp.
     if \<not> is_success resp then
       io_fail (Internal (''auth_gateway '' @ endpoint @ '' returned ''
         @ cr_status_text (ap_crates app) (rs_status resp) @ '': '' @ rs_body resp))
     else io_lift (json_body app dec (\<lambda>e. Internal (''auth_gateway response not JSON: '' @ e)) resp))"

definition fetch_user_guild_ids :: "'w app \<Rightarrow> string \<Rightarrow> ('w, string list) io" where
  "fetch_user_guild_ids app discord_id =
     internal_call app ''user_guild_ids'' decode_user_guilds (''discord_id'', discord_id)"

definition fetch_guild_member_ids_full :: "'w app \<Rightarrow> string \<Rightarrow> ('w, string list \<times> string option) io" where
  "fetch_guild_member_ids_full app guild_id =
     internal_call app ''guild_member_ids'' decode_guild_members (''guild_id'', guild_id)"

definition fetch_guild_member_ids :: "'w app \<Rightarrow> string \<Rightarrow> ('w, string list) io" where
  "fetch_guild_member_ids app guild_id =
     io_then (fetch_guild_member_ids_full app guild_id) (\<lambda>r. io_return (fst r))"

lemma send_req_error: "send_req app err rq w = (Inl e, w') \<Longrightarrow> \<exists>m. e = err m"
  by (auto simp: send_req_def split: prod.splits sum.splits)

lemma json_body_error: "json_body app dec err r = Inl e \<Longrightarrow> \<exists>m. e = err m"
  by (auto simp: json_body_def split: sum.splits)

lemma internal_call_error: "internal_call app endpoint dec q w = (Inl e, w') \<Longrightarrow> \<exists>m. e = Internal m"
  by (auto simp: internal_call_def io_then_Inl dest!: send_req_error json_body_error split: if_splits)

lemma members_error: "fetch_guild_member_ids app g w = (Inl e, w') \<Longrightarrow> \<exists>m. e = Internal m"
  by (auto simp: fetch_guild_member_ids_def fetch_guild_member_ids_full_def io_then_Inl
      dest: internal_call_error)

lemma guilds_error: "fetch_user_guild_ids app d w = (Inl e, w') \<Longrightarrow> \<exists>m. e = Internal m"
  by (auto simp: fetch_user_guild_ids_def dest: internal_call_error)

end
