(* ===== verification/Job_Queue.thy ===== *)
theory Job_Queue
  imports Schema Errors
begin

section \<open>The durable job queue (\<open>services/jobs.rs\<close>)\<close>

text \<open>
  Each function is one SQL statement on the \<open>jobs\<close> table; \<open>now\<close> is the statement's \<open>now()\<close>. What a
  concurrent claim holds locked (\<open>FOR UPDATE SKIP LOCKED\<close>) is the argument \<open>skip\<close> of \<open>claim_batch\<close>,
  the random jitter an argument of \<open>backoff_delay\<close>.

  \<open>queue_ok\<close> is the invariant of the table and \<open>queue\<close> its interpretation as an invariant of every
  interleaving of the operations. \<open>claim_exclusive\<close>, \<open>claim_oldest_first\<close> and \<open>claim_marks\<close> are the
  contract of a claim, \<open>unless_queued\<close> that of the debounced re-check.
\<close>

datatype job_kind = PlayerSync | ConfigSync | AccountSync

fun kind_as_str :: "job_kind \<Rightarrow> string" where
  "kind_as_str PlayerSync = ''player_sync''"
| "kind_as_str ConfigSync = ''config_sync''"
| "kind_as_str AccountSync = ''account_sync''"

definition kind_from_db :: "string \<Rightarrow> job_kind option" where
  "kind_from_db s =
     (if s = ''player_sync'' then Some PlayerSync
      else if s = ''config_sync'' then Some ConfigSync
      else if s = ''account_sync'' then Some AccountSync
      else None)"

lemma kind_roundtrip [simp]: "kind_from_db (kind_as_str k) = Some k"
  by (cases k) (simp_all add: kind_from_db_def)

definition secs :: "int \<Rightarrow> int" where "secs n = n * 1000000"

subsection \<open>Enqueueing\<close>

definition new_job :: "int \<Rightarrow> job_kind \<Rightarrow> json \<Rightarrow> instant \<Rightarrow> job" where
  "new_job i k payload run_at =
     \<lparr>j_id = i, j_kind = kind_as_str k, j_payload = payload, j_status = Pending, j_attempts = 0,
      j_max_attempts = 8, j_next_run_at = run_at, j_last_error = None, j_locked_by = None,
      j_locked_at = None, j_completed_at = None\<rparr>"

definition enqueue :: "instant \<Rightarrow> job_kind \<Rightarrow> json \<Rightarrow> int \<Rightarrow> db \<Rightarrow> db" where
  "enqueue now k payload delay_secs d =
     d\<lparr>jobs := jobs d @ [new_job (next_job_id d) k payload (now + secs delay_secs)],
       next_job_id := next_job_id d + 1\<rparr>"

text \<open>The workers are woken only for a row that is already due.\<close>

definition enqueue_notifies :: "int \<Rightarrow> bool" where
  "enqueue_notifies delay_secs \<longleftrightarrow> secs delay_secs \<le> 0"

definition player_payload :: "string \<Rightarrow> json" where
  "player_payload discord_id = JObj [(''discord_id'', JStr discord_id)]"

definition config_payload :: "string \<Rightarrow> string \<Rightarrow> json" where
  "config_payload g r = JObj [(''guild_id'', JStr g), (''role_id'', JStr r)]"

definition account_payload :: "string \<Rightarrow> json" where
  "account_payload did = JObj [(''bsky_account_did'', JStr did)]"

definition enqueue_player_sync :: "instant \<Rightarrow> string \<Rightarrow> db \<Rightarrow> db" where
  "enqueue_player_sync now discord_id = enqueue now PlayerSync (player_payload discord_id) 0"

definition enqueue_config_sync :: "instant \<Rightarrow> string \<Rightarrow> string \<Rightarrow> db \<Rightarrow> db" where
  "enqueue_config_sync now g r = enqueue now ConfigSync (config_payload g r) 5"

definition enqueue_account_sync :: "instant \<Rightarrow> string \<Rightarrow> db \<Rightarrow> db" where
  "enqueue_account_sync now did = enqueue now AccountSync (account_payload did) 0"

definition queued :: "string \<Rightarrow> json \<Rightarrow> job \<Rightarrow> bool" where
  "queued k payload j \<longleftrightarrow> j_kind j = k \<and> j_status j = Pending \<and> j_payload j = payload"

definition enqueue_config_sync_unless_queued ::
  "instant \<Rightarrow> string \<Rightarrow> string \<Rightarrow> int \<Rightarrow> db \<Rightarrow> db"
where
  "enqueue_config_sync_unless_queued now g r delay_secs d =
     (if \<exists>j \<in> set (jobs d). queued (kind_as_str ConfigSync) (config_payload g r) j then d
      else d\<lparr>jobs := jobs d @
               [new_job (next_job_id d) ConfigSync (config_payload g r) (now + secs delay_secs)],
             next_job_id := next_job_id d + 1\<rparr>)"

subsection \<open>Claiming and finishing\<close>

definition claimable :: "instant \<Rightarrow> (int \<Rightarrow> bool) \<Rightarrow> job \<Rightarrow> bool" where
  "claimable now skip j \<longleftrightarrow> j_status j = Pending \<and> j_next_run_at j \<le> now \<and> \<not> skip (j_id j)"

definition claim_ids :: "instant \<Rightarrow> (int \<Rightarrow> bool) \<Rightarrow> nat \<Rightarrow> db \<Rightarrow> int list" where
  "claim_ids now skip batch_size d =
     take batch_size (sort (map j_id (filter (claimable now skip) (jobs d))))"

definition claim_row :: "instant \<Rightarrow> string \<Rightarrow> job \<Rightarrow> job" where
  "claim_row now worker_id j =
     j\<lparr>j_status := InProgress, j_locked_by := Some worker_id, j_locked_at := Some now,
       j_attempts := j_attempts j + 1\<rparr>"

definition claim_batch :: "instant \<Rightarrow> (int \<Rightarrow> bool) \<Rightarrow> string \<Rightarrow> nat \<Rightarrow> db \<Rightarrow> job list \<times> db" where
  "claim_batch now skip worker_id batch_size d =
     (let ids = claim_ids now skip batch_size d;
          rows = update_where (\<lambda>j. j_id j \<in> set ids) (claim_row now worker_id) (jobs d)
      in (filter (\<lambda>j. j_id j \<in> set ids) rows, d\<lparr>jobs := rows\<rparr>))"

definition complete :: "instant \<Rightarrow> int \<Rightarrow> db \<Rightarrow> db" where
  "complete now i d = d\<lparr>jobs := update_where (\<lambda>j. j_id j = i)
     (\<lambda>j. j\<lparr>j_status := Completed, j_completed_at := Some now, j_locked_by := None,
            j_locked_at := None\<rparr>) (jobs d)\<rparr>"

definition clamp :: "int \<Rightarrow> int \<Rightarrow> int \<Rightarrow> int" where
  "clamp lo hi n = max lo (min hi n)"

text \<open>In milliseconds.\<close>

definition backoff_delay :: "int \<Rightarrow> int \<Rightarrow> int" where
  "backoff_delay attempt jitter_ms =
     (let capped = clamp 1 8 attempt; base_secs = 2 ^ nat capped in base_secs * 1000 + jitter_ms)"

definition fail_retry :: "instant \<Rightarrow> int \<Rightarrow> job \<Rightarrow> string \<Rightarrow> db \<Rightarrow> db" where
  "fail_retry now jitter_ms job err d = d\<lparr>jobs := update_where (\<lambda>j. j_id j = j_id job)
     (\<lambda>j. j\<lparr>j_status := Pending, j_next_run_at := now + backoff_delay (j_attempts job) jitter_ms * 1000,
            j_last_error := Some err, j_locked_by := None, j_locked_at := None\<rparr>) (jobs d)\<rparr>"

definition fail_dead :: "instant \<Rightarrow> int \<Rightarrow> string \<Rightarrow> db \<Rightarrow> db" where
  "fail_dead now i err d = d\<lparr>jobs := update_where (\<lambda>j. j_id j = i)
     (\<lambda>j. j\<lparr>j_status := Dead, j_completed_at := Some now, j_last_error := Some err,
            j_locked_by := None, j_locked_at := None\<rparr>) (jobs d)\<rparr>"

definition stuck :: "instant \<Rightarrow> int \<Rightarrow> job \<Rightarrow> bool" where
  "stuck now max_lock_secs j \<longleftrightarrow> j_status j = InProgress \<and>
     (case j_locked_at j of None \<Rightarrow> False | Some t \<Rightarrow> t < now - secs max_lock_secs)"

definition reap_stuck :: "instant \<Rightarrow> int \<Rightarrow> db \<Rightarrow> nat \<times> db" where
  "reap_stuck now max_lock_secs d =
     (length (filter (stuck now max_lock_secs) (jobs d)),
      d\<lparr>jobs := update_where (stuck now max_lock_secs)
         (\<lambda>j. j\<lparr>j_status := Pending, j_next_run_at := now, j_locked_by := None, j_locked_at := None\<rparr>)
         (jobs d)\<rparr>)"

subsection \<open>The invariant of the table\<close>

definition row_ok :: "job \<Rightarrow> bool" where
  "row_ok j \<longleftrightarrow>
     (j_status j = InProgress \<longleftrightarrow> j_locked_by j \<noteq> None) \<and>
     (j_status j = InProgress \<longleftrightarrow> j_locked_at j \<noteq> None) \<and>
     (j_status j \<in> {Completed, Dead} \<longrightarrow> j_completed_at j \<noteq> None) \<and>
     0 \<le> j_attempts j \<and> j_max_attempts j = 8 \<and> kind_from_db (j_kind j) \<noteq> None"

definition queue_ok :: "db \<Rightarrow> bool" where
  "queue_ok d \<longleftrightarrow> unique_key j_id (jobs d) \<and> list_all row_ok (jobs d) \<and>
     list_all (\<lambda>j. j_id j < next_job_id d) (jobs d)"

inductive queue_step :: "db \<Rightarrow> db \<Rightarrow> bool" where
  step_enqueue: "queue_step d (enqueue now k payload delay d)"
| step_unless: "queue_step d (enqueue_config_sync_unless_queued now g r delay d)"
| step_claim: "queue_step d (snd (claim_batch now skip worker n d))"
| step_complete: "queue_step d (complete now i d)"
| step_retry: "queue_step d (fail_retry now jitter job err d)"
| step_dead: "queue_step d (fail_dead now i err d)"
| step_reap: "queue_step d (snd (reap_stuck now limit d))"

inductive_cases queue_stepE: "queue_step d d'"

lemma update_queue_ok:
  assumes "queue_ok d" and f: "\<And>j. P j \<Longrightarrow> j_id (f j) = j_id j"
    and ok: "\<And>j. j \<in> set (jobs d) \<Longrightarrow> P j \<Longrightarrow> row_ok j \<Longrightarrow> row_ok (f j)"
  shows "queue_ok (d\<lparr>jobs := update_where P f (jobs d)\<rparr>)"
  using assms
  by (auto simp: queue_ok_def list_all_iff set_update_where intro!: unique_key_update_where)

lemma append_queue_ok:
  "queue_ok d \<Longrightarrow>
   queue_ok (d\<lparr>jobs := jobs d @ [new_job (next_job_id d) k p t], next_job_id := next_job_id d + 1\<rparr>)"
  by (auto simp: queue_ok_def unique_key_def list_all_iff new_job_def row_ok_def)

lemma enqueue_queue_ok: "queue_ok d \<Longrightarrow> queue_ok (enqueue now k payload delay d)"
  by (simp add: enqueue_def append_queue_ok)

lemma unless_queue_ok: "queue_ok d \<Longrightarrow> queue_ok (enqueue_config_sync_unless_queued now g r delay d)"
  by (simp add: enqueue_config_sync_unless_queued_def append_queue_ok)

lemma claim_queue_ok: "queue_ok d \<Longrightarrow> queue_ok (snd (claim_batch now skip worker n d))"
  by (auto simp: claim_batch_def Let_def claim_row_def row_ok_def intro!: update_queue_ok)

lemma complete_queue_ok: "queue_ok d \<Longrightarrow> queue_ok (complete now i d)"
  by (auto simp: complete_def row_ok_def intro!: update_queue_ok)

lemma retry_queue_ok: "queue_ok d \<Longrightarrow> queue_ok (fail_retry now jitter job err d)"
  by (auto simp: fail_retry_def row_ok_def intro!: update_queue_ok)

lemma dead_queue_ok: "queue_ok d \<Longrightarrow> queue_ok (fail_dead now i err d)"
  by (auto simp: fail_dead_def row_ok_def intro!: update_queue_ok)

lemma reap_queue_ok: "queue_ok d \<Longrightarrow> queue_ok (snd (reap_stuck now limit d))"
  by (auto simp: reap_stuck_def row_ok_def intro!: update_queue_ok)

lemmas queue_ok_ops = enqueue_queue_ok unless_queue_ok claim_queue_ok complete_queue_ok
  retry_queue_ok dead_queue_ok reap_queue_ok

interpretation queue: step_invariant "\<lambda>d. d = empty_db" queue_step queue_ok
proof
  fix d :: db
  assume "d = empty_db"
  then show "queue_ok d" by (simp add: queue_ok_def empty_db_def)
next
  fix d d'
  assume "queue_ok d" "queue_step d d'"
  then show "queue_ok d'" by (elim queue_stepE) (simp_all add: queue_ok_ops)
qed

subsection \<open>Claims\<close>

lemma claim_ids_in: "i \<in> set (claim_ids now skip n d) \<Longrightarrow>
    \<exists>j \<in> set (jobs d). j_id j = i \<and> claimable now skip j"
  unfolding claim_ids_def by (drule in_set_takeD) auto

lemma claim_length: "length (claim_ids now skip n d) \<le> n"
  by (simp add: claim_ids_def)

lemma claimed_were_claimable:
  assumes "queue_ok d" "j \<in> set (jobs d)" "j_id j \<in> set (claim_ids now skip n d)"
  shows "claimable now skip j"
proof -
  obtain j' where "j' \<in> set (jobs d)" "j_id j' = j_id j" "claimable now skip j'"
    using claim_ids_in [OF assms(3)] by blast
  with assms(1,2) have "j' = j"
    by (metis queue_ok_def find_row_unique option.inject)
  with \<open>claimable now skip j'\<close> show ?thesis by simp
qed

text \<open>Every returned job was due and pending and is now locked by the claimer, once more attempted.\<close>

lemma claim_marks:
  assumes "queue_ok d" "claim_batch now skip worker n d = (js, d')" "j \<in> set js"
  shows "\<exists>old \<in> set (jobs d). j = claim_row now worker old \<and> claimable now skip old \<and> j \<in> set (jobs d')"
proof -
  let ?ids = "claim_ids now skip n d"
  from assms(2,3) obtain old where "old \<in> set (jobs d)" "j_id j \<in> set ?ids" "j \<in> set (jobs d')"
    and j: "j = (if j_id old \<in> set ?ids then claim_row now worker old else old)"
    by (auto simp: claim_batch_def Let_def set_update_where)
  moreover from this have "j_id old \<in> set ?ids" by (auto simp: claim_row_def split: if_splits)
  ultimately show ?thesis using claimed_were_claimable [OF assms(1)] by auto
qed

lemma claim_count:
  assumes "queue_ok d" "claim_batch now skip worker n d = (js, d')"
  shows "length js \<le> n"
proof -
  let ?ids = "claim_ids now skip n d"
  have keys: "map j_id (jobs d') = map j_id (jobs d)"
    using assms(2) by (auto simp: claim_batch_def Let_def update_where_def claim_row_def)
  have "distinct (map j_id js)" "set (map j_id js) \<subseteq> set ?ids"
    using assms keys by (auto simp: claim_batch_def Let_def queue_ok_def unique_key_def distinct_map_filter)
  then have "length (map j_id js) \<le> length ?ids"
    by (metis card_length card_mono distinct_card le_trans List.finite_set)
  with claim_length [of now skip n d] show ?thesis by simp
qed

text \<open>Two claims never hand out the same job: the second sees only what is still pending.\<close>

lemma claim_exclusive:
  assumes ok: "queue_ok d" and c1: "claim_batch now skip w n d = (js, d1)"
    and c2: "claim_batch now' skip' w' n' d1 = (js', d2)"
  shows "j_id ` set js \<inter> j_id ` set js' = {}"
proof -
  have ok1: "queue_ok d1" using claim_queue_ok [OF ok, of now skip w n] c1 by simp
  have "False" if "j \<in> set js" "j' \<in> set js'" "j_id j = j_id j'" for j j'
  proof -
    from claim_marks [OF ok c1 that(1)] have j: "j \<in> set (jobs d1)" "j_status j = InProgress"
      by (auto simp: claim_row_def)
    from claim_marks [OF ok1 c2 that(2)] obtain old where old: "old \<in> set (jobs d1)"
      "j_id old = j_id j'" "j_status old = Pending" by (auto simp: claim_row_def claimable_def)
    from ok1 j(1) old(1,2) that(3) have "old = j"
      by (metis queue_ok_def find_row_unique option.inject)
    with j(2) old(3) show False by simp
  qed
  then show ?thesis by blast
qed

text \<open>The oldest due jobs go first: whatever is left behind has a larger id.\<close>

lemma claim_oldest_first:
  assumes "i \<in> set (claim_ids now skip n d)"
    and "j \<in> set (jobs d)" "claimable now skip j" "j_id j \<notin> set (claim_ids now skip n d)"
  shows "i \<le> j_id j"
proof -
  let ?s = "sort (map j_id (filter (claimable now skip) (jobs d)))"
  have "sorted (take n ?s @ drop n ?s)" by simp
  moreover have "j_id j \<in> set ?s" using assms(2,3) by simp
  then have "j_id j \<in> set (drop n ?s)"
    using assms(4) by (metis Un_iff append_take_drop_id claim_ids_def set_append)
  ultimately show ?thesis using assms(1) unfolding claim_ids_def sorted_append by blast
qed

subsection \<open>Retries\<close>

lemma backoff_bounds:
  assumes "0 \<le> jitter" "jitter < 1000"
  shows "2000 \<le> backoff_delay attempt jitter" "backoff_delay attempt jitter < 257000"
proof -
  have c: "1 \<le> clamp 1 8 attempt" "clamp 1 8 attempt \<le> 8" by (auto simp: clamp_def)
  have "(2::int) ^ 1 \<le> 2 ^ nat (clamp 1 8 attempt)" using c by (intro power_increasing) auto
  moreover have "(2::int) ^ nat (clamp 1 8 attempt) \<le> 2 ^ 8" using c by (intro power_increasing) auto
  ultimately show "2000 \<le> backoff_delay attempt jitter" "backoff_delay attempt jitter < 257000"
    using assms by (simp_all add: backoff_delay_def Let_def)
qed

lemma backoff_doubles:
  assumes "1 \<le> a" "a < 8" shows "backoff_delay (a + 1) 0 = 2 * backoff_delay a 0"
proof -
  have "clamp 1 8 (a + 1) = a + 1" "clamp 1 8 a = a" using assms by (auto simp: clamp_def)
  moreover have "nat (a + 1) = Suc (nat a)" using assms by simp
  ultimately show ?thesis by (simp add: backoff_delay_def Let_def)
qed

text \<open>A job put back for a retry is not due before its delay is over.\<close>

lemma retry_not_due:
  assumes "queue_ok d" "j \<in> set (jobs (fail_retry now jitter job err d))" "j_id j = j_id job"
    and "0 \<le> jitter" "claimable later skip j" "jitter < 1000"
  shows "now + 2000 * 1000 \<le> later"
  using assms backoff_bounds(1) [of jitter "j_attempts job"]
  by (auto simp: fail_retry_def set_update_where claimable_def split: if_splits)

lemma unless_queued:
  "length (filter (queued (kind_as_str ConfigSync) (config_payload g r))
     (jobs (enqueue_config_sync_unless_queued now g r delay d)))
   = max 1 (length (filter (queued (kind_as_str ConfigSync) (config_payload g r)) (jobs d)))"
proof (cases "\<exists>j \<in> set (jobs d). queued (kind_as_str ConfigSync) (config_payload g r) j")
  case True
  then have "filter (queued (kind_as_str ConfigSync) (config_payload g r)) (jobs d) \<noteq> []"
    by (auto simp: filter_empty_conv)
  then have "1 \<le> length (filter (queued (kind_as_str ConfigSync) (config_payload g r)) (jobs d))"
    by (cases "filter (queued (kind_as_str ConfigSync) (config_payload g r)) (jobs d)") auto
  with True show ?thesis by (simp add: enqueue_config_sync_unless_queued_def max_def)
next
  case False
  then have "filter (queued (kind_as_str ConfigSync) (config_payload g r)) (jobs d) = []"
    by (auto simp: filter_empty_conv)
  with False show ?thesis
    by (simp add: enqueue_config_sync_unless_queued_def new_job_def queued_def)
qed

end
