(* ===== verification/Sync.thy ===== *)
theory Sync
  imports Rule_Sql_Correct Rolelogic_Client Gateway_Client Job_Queue
begin

section \<open>The sync engine (\<open>services/sync.rs\<close>)\<close>

text \<open>
  \<open>sync_for_player\<close> brings one member's roles up to date with single calls to RoleLogic,
  \<open>sync_for_role_link\<close> replaces the whole member list of one role. The state is the database and the
  outside world; each handler runs without interleaving, and \<open>for_each_concurrent\<close> is the list of its
  actions, which touch different role links. A failing statement (other than by a foreign key) is out
  of the model. \<open>ORDER BY\<close> on Discord ids is the byte order. \<open>LIMIT\<close> is bound as \<open>i64\<close>, and a
  negative one is PostgreSQL's error 2201W.

  \<open>local_users\<close> is the mirror of a role link. The lemmas about the bulk sync say what the mirror is
  after each outcome; nothing is written when the gateway or RoleLogic fails.
\<close>

type_synonym ('w, 'a) task = "db \<times> 'w \<Rightarrow> (app_error + 'a) \<times> (db \<times> 'w)"

subsection \<open>Local state\<close>

definition new_relation :: "instant \<Rightarrow> string \<Rightarrow> string \<Rightarrow> account_relation" where
  "new_relation now account viewer =
     \<lparr>ar_account = account, ar_viewer = viewer, ar_is_follower = False, ar_followed_at = None,
      ar_is_followed_back = False, ar_liked = 0, ar_reposted = 0, ar_replied = 0,
      ar_last_synced_at = now\<rparr>"

definition insert_relation :: "instant \<Rightarrow> string \<Rightarrow> string \<Rightarrow> db \<Rightarrow> db" where
  "insert_relation now account viewer d =
     d\<lparr>relations := upsert relation_key keep_old (new_relation now account viewer) (relations d)\<rparr>"

definition ensure_baseline_relations :: "instant \<Rightarrow> string \<Rightarrow> string list \<Rightarrow> db \<Rightarrow> db" where
  "ensure_baseline_relations now discord_id guild_ids d =
     (if guild_ids = [] then d
      else (case find_row bu_discord_id discord_id (users d) of
              None \<Rightarrow> d
            | Some u \<Rightarrow>
                foldl (\<lambda>d account. insert_relation now account (bu_did u) d) d
                  (map ga_account (filter (\<lambda>ga. ga_guild ga \<in> set guild_ids) (guild_accounts d)))))"

definition delete_orphan_role_link :: "string \<Rightarrow> string \<Rightarrow> db \<Rightarrow> db" where
  "delete_orphan_role_link g r = delete_links (\<lambda>l. link_key l = (g, r))"

text \<open>\<open>INSERT INTO role_assignments ... ON CONFLICT DO NOTHING\<close>; without its link it is refused.\<close>

definition insert_assignment :: "string \<Rightarrow> string \<Rightarrow> string \<Rightarrow> db \<Rightarrow> db" where
  "insert_assignment g r user d =
     (if find_link g r d = None then d
      else d\<lparr>assignments := upsert assignment_key keep_old \<lparr>as_guild = g, as_role = r, as_user = user\<rparr>
                              (assignments d)\<rparr>)"

definition delete_assignment :: "string \<Rightarrow> string \<Rightarrow> string \<Rightarrow> db \<Rightarrow> db" where
  "delete_assignment g r user d =
     d\<lparr>assignments := delete_where (\<lambda>a. assignment_key a = (g, r, user)) (assignments d)\<rparr>"

definition local_users :: "string \<Rightarrow> string \<Rightarrow> db \<Rightarrow> string list" where
  "local_users g r d =
     sort (map as_user (filter (\<lambda>a. assignment_link a = (g, r)) (assignments d)))"

definition clear_assignments :: "string \<Rightarrow> string \<Rightarrow> db \<Rightarrow> db" where
  "clear_assignments g r d =
     d\<lparr>assignments := delete_where (\<lambda>a. assignment_link a = (g, r)) (assignments d)\<rparr>"

definition replace_assignments :: "string \<Rightarrow> string \<Rightarrow> string list \<Rightarrow> db \<Rightarrow> db" where
  "replace_assignments g r us d =
     (let d1 = clear_assignments g r d
      in if us = [] then d1
         else d1\<lparr>assignments := assignments d1 @ map (\<lambda>u. \<lparr>as_guild = g, as_role = r, as_user = u\<rparr>) us\<rparr>)"

subsection \<open>Per-player sync\<close>

datatype sync_action = ActAdd string string string | ActRemove string string string

definition qualifies :: "'w app \<Rightarrow> db \<Rightarrow> string \<Rightarrow> role_link \<Rightarrow> bool" where
  "qualifies app d discord_id link =
     (let tree = tree_of_json (rl_tree link)
      in if grant_on_any_relation tree then find_row bu_discord_id discord_id (users d) \<noteq> None
         else (case rl_account link of
                 None \<Rightarrow> False
               | Some did \<Rightarrow>
                   (case facts_select d discord_id did of
                      None \<Rightarrow> False
                    | Some (viewer_did, facts) \<Rightarrow>
                        evaluate_with_memberships (cr_regex (ap_crates app)) (ap_now app) tree facts
                          (load_memberships d (Some did) viewer_did))))"

definition plan_action :: "'w app \<Rightarrow> db \<Rightarrow> string \<Rightarrow> role_link \<Rightarrow> sync_action option" where
  "plan_action app d discord_id link =
     (let g = rl_guild link; r = rl_role link;
          assigned = ((g, r, discord_id) \<in> assignment_key ` set (assignments d))
      in case (qualifies app d discord_id link, assigned) of
           (True, False) \<Rightarrow> Some (ActAdd g r (rl_token link))
         | (False, True) \<Rightarrow> Some (ActRemove g r (rl_token link))
         | _ \<Rightarrow> None)"

text \<open>One action: the call, then the local row. Failures are logged and leave the row alone.\<close>

fun perform_action :: "'w app \<Rightarrow> string \<Rightarrow> sync_action \<Rightarrow> db \<times> 'w \<Rightarrow> db \<times> 'w" where
  "perform_action app user (ActAdd g r tok) st =
     (case add_user app g r user tok (snd st) of
        (Inl RoleLinkNotFound, w) \<Rightarrow> (delete_orphan_role_link g r (fst st), w)
      | (Inl _, w) \<Rightarrow> (fst st, w)
      | (Inr _, w) \<Rightarrow> (insert_assignment g r user (fst st), w))"
| "perform_action app user (ActRemove g r tok) st =
     (case remove_user app g r user tok (snd st) of
        (Inl RoleLinkNotFound, w) \<Rightarrow> (delete_orphan_role_link g r (fst st), w)
      | (Inl _, w) \<Rightarrow> (fst st, w)
      | (Inr _, w) \<Rightarrow> (delete_assignment g r user (fst st), w))"

definition sync_for_player :: "'w app \<Rightarrow> string \<Rightarrow> ('w, unit) task" where
  "sync_for_player app discord_id =
     io_then (on_world (fetch_user_guild_ids app discord_id)) (\<lambda>guild_ids.
     if guild_ids = [] then io_return ()
     else
       io_then (on_db (ensure_baseline_relations (ap_now app) discord_id guild_ids)) (\<lambda>_.
       io_then (query (\<lambda>d. List.map_filter (plan_action app d discord_id)
                            (filter (\<lambda>l. rl_guild l \<in> set guild_ids) (role_links d)))) (\<lambda>actions.
       (\<lambda>st. (Inr (), foldl (\<lambda>st a. perform_action app discord_id a st) st actions)))))"

subsection \<open>Per-role-link sync\<close>

definition limit_is_negative :: "nat \<Rightarrow> bool" where
  "limit_is_negative limit \<longleftrightarrow> limit mod 2 ^ 64 \<ge> 2 ^ 63"

definition grant_any_users :: "db \<Rightarrow> string list \<Rightarrow> nat \<Rightarrow> string list" where
  "grant_any_users d member_ids limit =
     take limit (sort (map bu_discord_id (filter (\<lambda>u. bu_discord_id u \<in> set member_ids) (users d))))"

definition rule_users :: "'w app \<Rightarrow> db \<Rightarrow> string \<Rightarrow> rule_tree \<Rightarrow> string list \<Rightarrow> string list" where
  "rule_users app d account tree member_ids =
     sort (remdups (map bu_discord_id
       (filter (\<lambda>u. bu_discord_id u \<in> set member_ids \<and>
                  sql_accepts 2 (row_env (ap_pg app) (ap_now app) d account u) tree) (users d))))"

text \<open>The text of the query: the account and the members are \<open>$1\<close> and \<open>$2\<close>, the rule's binds follow.\<close>

definition limit_index :: "rule_tree \<Rightarrow> nat" where
  "limit_index tree = 2 + length (snd (build_rule_where tree 2)) + 1"

definition qualifying_query :: "rule_tree \<Rightarrow> string" where
  "qualifying_query tree =
     ''SELECT DISTINCT bu.discord_id FROM bsky_users bu LEFT JOIN account_relations ar ''
     @ ''ON ar.viewer_did = bu.did AND ar.bsky_account_did = $1 ''
     @ ''WHERE bu.discord_id = ANY($2::text[]) AND ('' @ fst (rule_where_text tree 2)
     @ '') ORDER BY bu.discord_id LIMIT $'' @ show_nat (limit_index tree)"

definition select_qualifying ::
  "'w app \<Rightarrow> db \<Rightarrow> string option \<Rightarrow> rule_tree \<Rightarrow> string list \<Rightarrow> nat \<Rightarrow> app_error + string list"
where
  "select_qualifying app d account tree member_ids user_limit =
     (if limit_is_negative user_limit then
        Inl (Database (SqlxDatabase (Some ''2201W'') None ''LIMIT must not be negative''))
      else if grant_on_any_relation tree then Inr (grant_any_users d member_ids user_limit)
      else (case account of
              None \<Rightarrow> Inr []
            | Some did \<Rightarrow> Inr (take user_limit (rule_users app d did tree member_ids))))"

definition held_recheck_secs :: int where "held_recheck_secs = 20 * 60"

definition recheck_held :: "'w app \<Rightarrow> string \<Rightarrow> string \<Rightarrow> ('w, unit) task" where
  "recheck_held app g r =
     on_db (enqueue_config_sync_unless_queued (ap_now app) g r held_recheck_secs)"

text \<open>The reaction to the outcome of an upload, shared by both callers; \<open>k\<close> is the local write.\<close>

definition after_upload ::
  "'w app \<Rightarrow> string \<Rightarrow> string \<Rightarrow> string list \<Rightarrow> string \<Rightarrow> (db \<Rightarrow> db) \<Rightarrow> ('w, unit) task"
where
  "after_upload app g r us token k st =
     (case on_world (upload_users app g r us token) st of
        (Inr _, st1) \<Rightarrow> on_db k st1
      | (Inl RoleLinkNotFound, st1) \<Rightarrow> on_db (delete_orphan_role_link g r) st1
      | (Inl RoleLinkDisabled, st1) \<Rightarrow> io_return () st1
      | (Inl RemovalHeld, st1) \<Rightarrow> recheck_held app g r st1
      | (Inl e, st1) \<Rightarrow> io_fail e st1)"

definition drain_to_empty :: "'w app \<Rightarrow> string \<Rightarrow> string \<Rightarrow> string \<Rightarrow> ('w, unit) task" where
  "drain_to_empty app g r token =
     io_then (query (\<lambda>d. \<exists>a \<in> set (assignments d). assignment_link a = (g, r))) (\<lambda>any.
     if \<not> any then io_return ()
     else after_upload app g r [] token (clear_assignments g r))"

definition grants_nobody :: "role_link \<Rightarrow> bool" where
  "grants_nobody link =
     (let tree = tree_of_json (rl_tree link)
      in \<not> grant_on_any_relation tree \<and> (rl_account link = None \<or> groups tree = []))"

definition write_members ::
  "'w app \<Rightarrow> string \<Rightarrow> string \<Rightarrow> role_link \<Rightarrow> string list \<Rightarrow> nat \<Rightarrow> ('w, unit) task"
where
  "write_members app g r link member_ids user_limit =
     io_then (\<lambda>st. io_lift (select_qualifying app (fst st) (rl_account link) (tree_of_json (rl_tree link))
                             member_ids user_limit) st) (\<lambda>qualifying.
     io_then (query (local_users g r)) (\<lambda>current.
     if current = qualifying then io_return ()
     else after_upload app g r qualifying (rl_token link) (replace_assignments g r qualifying)))"

definition sync_for_role_link :: "'w app \<Rightarrow> string \<Rightarrow> string \<Rightarrow> ('w, unit) task" where
  "sync_for_role_link app g r =
     io_then (query (find_link g r)) (\<lambda>found.
     case found of
       None \<Rightarrow> io_return ()
     | Some link \<Rightarrow>
         if grants_nobody link then drain_to_empty app g r (rl_token link)
         else
           io_then (on_world (fetch_guild_member_ids app g)) (\<lambda>member_ids.
           if member_ids = [] then drain_to_empty app g r (rl_token link)
           else (\<lambda>st.
             case on_world (get_user_info app g r (rl_token link)) st of
               (Inl RoleLinkNotFound, st1) \<Rightarrow> on_db (delete_orphan_role_link g r) st1
             | (Inl RoleLinkDisabled, st1) \<Rightarrow> io_return () st1
             | (Inl e, st1) \<Rightarrow> io_fail e st1
             | (Inr (_, user_limit), st1) \<Rightarrow> write_members app g r link member_ids user_limit st1)))"

definition sync_for_account :: "'w app \<Rightarrow> string \<Rightarrow> ('w, unit) task" where
  "sync_for_account app account =
     on_db (\<lambda>d. foldl (\<lambda>d l. enqueue_config_sync (ap_now app) (rl_guild l) (rl_role l) d) d
                  (filter (\<lambda>l. rl_account l = Some account) (role_links d)))"

end
