(* ===== verification/Sync_Laws.thy ===== *)
theory Sync_Laws
  imports Sync
begin

section \<open>What a sync does to the mirror\<close>

text \<open>
  The writes of each task (\<open>role_link_step\<close>), that a failed bulk sync writes nothing, what the
  mirror is after a successful one, that the constraints of the database survive a bulk sync.
\<close>

subsection \<open>The bulk sync\<close>

lemma after_upload_cases:
  assumes "after_upload app g r us token k st = (x, st')"
  obtains (failed) e where "x = Inl e" "fst st' = fst st"
  | (written) n w where "x = Inr ()" "upload_users app g r us token (snd st) = (Inr n, w)"
      "fst st' = k (fst st)"
  | (gone) "x = Inr ()" "fst st' = delete_orphan_role_link g r (fst st)"
  | (disabled) "x = Inr ()" "fst st' = fst st"
  | (held) w where "x = Inr ()" "upload_users app g r us token (snd st) = (Inl RemovalHeld, w)"
      "fst st' = enqueue_config_sync_unless_queued (ap_now app) g r held_recheck_secs (fst st)"
proof -
  obtain y w where u: "upload_users app g r us token (snd st) = (y, w)"
    by (cases "upload_users app g r us token (snd st)")
  then have l: "on_world (upload_users app g r us token) st = (y, (fst st, w))"
    by (simp add: on_world_def)
  show ?thesis
  proof (cases y)
    case (Inr n)
    with l assms u written show ?thesis by (auto simp: after_upload_def)
  next
    case (Inl e)
    show ?thesis
    proof (cases e)
      case RoleLinkNotFound
      with l assms Inl gone show ?thesis by (auto simp: after_upload_def)
    next
      case RoleLinkDisabled
      with l assms Inl disabled show ?thesis by (auto simp: after_upload_def)
    next
      case RemovalHeld
      with l assms Inl u held show ?thesis by (auto simp: after_upload_def recheck_held_def)
    qed (use l assms Inl failed in \<open>auto simp: after_upload_def\<close>)
  qed
qed

text \<open>All a bulk sync ever writes.\<close>

definition role_link_write :: "'w app \<Rightarrow> string \<Rightarrow> string \<Rightarrow> db \<Rightarrow> db \<Rightarrow> bool" where
  "role_link_write app g r d d' \<longleftrightarrow>
     d' = d \<or> d' = clear_assignments g r d \<or>
     (\<exists>us. distinct us \<and> find_link g r d \<noteq> None \<and> d' = replace_assignments g r us d) \<or>
     d' = delete_orphan_role_link g r d \<or>
     d' = enqueue_config_sync_unless_queued (ap_now app) g r held_recheck_secs d"

lemma drain_writes:
  assumes "drain_to_empty app g r token st = (x, st')"
  shows "role_link_write app g r (fst st) (fst st')" and "x = Inl e \<Longrightarrow> fst st' = fst st"
proof -
  have "role_link_write app g r (fst st) (fst st') \<and> (x = Inl e \<longrightarrow> fst st' = fst st)"
  proof (cases "\<exists>a \<in> set (assignments (fst st)). assignment_link a = (g, r)")
    case False
    with assms show ?thesis by (auto simp: drain_to_empty_def io_then_def role_link_write_def)
  next
    case True
    with assms have "after_upload app g r [] token (clear_assignments g r) st = (x, st')"
      by (auto simp: drain_to_empty_def io_then_def)
    then show ?thesis by (rule after_upload_cases) (auto simp: role_link_write_def)
  qed
  then show "role_link_write app g r (fst st) (fst st')" "x = Inl e \<Longrightarrow> fst st' = fst st" by auto
qed

lemma select_distinct:
  assumes "db_ok d" "select_qualifying app d account tree ms limit = Inr us"
  shows "distinct us \<and> sorted us \<and> length us \<le> limit"
  using assms
  by (auto simp: select_qualifying_def grant_any_users_def rule_users_def db_ok_def keys_ok_def
      unique_key_def distinct_map_filter sorted_wrt_take split: if_splits option.splits)

lemma write_members_writes:
  assumes ok: "db_ok (fst st)" and link: "find_link g r (fst st) = Some link"
    and run: "write_members app g r link ms limit st = (x, st')"
  shows "role_link_write app g r (fst st) (fst st')" and "x = Inl e \<Longrightarrow> fst st' = fst st"
proof -
  have "role_link_write app g r (fst st) (fst st') \<and> (x = Inl e \<longrightarrow> fst st' = fst st)"
  proof (cases "select_qualifying app (fst st) (rl_account link) (tree_of_json (rl_tree link)) ms limit")
    case (Inl e')
    with run show ?thesis by (auto simp: write_members_def io_then_def role_link_write_def)
  next
    case (Inr us)
    show ?thesis
    proof (cases "local_users g r (fst st) = us")
      case True
      with Inr run show ?thesis by (auto simp: write_members_def io_then_def role_link_write_def)
    next
      case False
      with Inr run have "after_upload app g r us (rl_token link) (replace_assignments g r us) st = (x, st')"
        by (auto simp: write_members_def io_then_def)
      then show ?thesis
        by (rule after_upload_cases)
          (use select_distinct [OF ok Inr] link in \<open>auto simp: role_link_write_def\<close>)
    qed
  qed
  then show "role_link_write app g r (fst st) (fst st')" "x = Inl e \<Longrightarrow> fst st' = fst st" by auto
qed

text \<open>The ways a bulk sync ends, with the calls made before: members and limit are read, then written.\<close>

lemma sync_role_link_cases:
  assumes run: "sync_for_role_link app g r st = (x, st')"
  obtains (stopped) w1 where "fst st' = fst st" "w1 = snd (fetch_guild_member_ids app g (snd st))"
      "snd st' = snd st \<or> snd st' = w1 \<or> (\<exists>tok. snd st' = snd (get_user_info app g r tok w1))"
  | (gone) tok where "x = Inr ()" "fst st' = delete_orphan_role_link g r (fst st)"
      "snd st' = snd (get_user_info app g r tok (snd (fetch_guild_member_ids app g (snd st))))"
  | (drained) link w where "find_link g r (fst st) = Some link"
      "w = snd st \<or> w = snd (fetch_guild_member_ids app g (snd st))"
      "drain_to_empty app g r (rl_token link) (fst st, w) = (x, st')"
  | (written) link ids limit w1 w2 where "find_link g r (fst st) = Some link"
      "fetch_guild_member_ids app g (snd st) = (Inr ids, w1)" "w2 = snd (get_user_info app g r (rl_token link) w1)"
      "write_members app g r link ids limit (fst st, w2) = (x, st')"
proof (cases "find_link g r (fst st)")
  case None
  with run stopped show ?thesis by (auto simp: sync_for_role_link_def io_then_def)
next
  case link: (Some link)
  show ?thesis
  proof (cases "grants_nobody link")
    case True
    with run link drained [of link "snd st"] show ?thesis
      by (auto simp: sync_for_role_link_def io_then_def)
  next
    case grants: False
    obtain y w1 where m: "fetch_guild_member_ids app g (snd st) = (y, w1)" by (rule prod.exhaust)
    note run' = run [unfolded sync_for_role_link_def io_then_def on_world_def]
    show ?thesis
    proof (cases y)
      case (Inl e)
      with run' link grants m stopped show ?thesis by auto
    next
      case (Inr ids)
      obtain z w2 where i: "get_user_info app g r (rl_token link) w1 = (z, w2)" by (rule prod.exhaust)
      consider "ids = []" | e where "ids \<noteq> []" "z = Inl e" | n limit where "ids \<noteq> []" "z = Inr (n, limit)"
        by (cases z) auto
      then show ?thesis
      proof cases
        case 1
        with run' link grants m Inr drained [of link w1] show ?thesis by auto
      next
        case (2 e)
        have read: "\<exists>tok. w2 = snd (get_user_info app g r tok w1)" using i by (metis snd_conv)
        have w1: "w1 = snd (fetch_guild_member_ids app g (snd st))" using m by simp
        show ?thesis
        proof (cases "e = RoleLinkNotFound")
          case True
          with 2 run' link grants m Inr i gone [of "rl_token link"] show ?thesis by auto
        next
          case False
          with 2 run' link grants m Inr i have "fst st' = fst st" "snd st' = w2"
            by (auto split: app_error.splits)
          with stopped [OF _ w1] read show ?thesis by blast
        qed
      next
        case (3 n limit)
        with run' link grants m Inr i written [of link ids w1 w2 limit] show ?thesis by auto
      qed
    qed
  qed
qed

lemma role_link_step:
  assumes ok: "db_ok (fst st)" and run: "sync_for_role_link app g r st = (x, st')"
  shows "role_link_write app g r (fst st) (fst st') \<and> (\<forall>e. x = Inl e \<longrightarrow> fst st' = fst st)"
  using run
proof (cases rule: sync_role_link_cases)
  case (drained link w)
  from drain_writes [OF drained(3)] show ?thesis by auto
next
  case (written link ids limit w1 w2)
  from write_members_writes [OF _ _ written(4)] ok written(1) show ?thesis by auto
qed (simp_all add: role_link_write_def)

subsection \<open>Effects of the writes\<close>

lemma local_users_clear:
  "local_users g' r' (clear_assignments g r d) = (if (g', r') = (g, r) then [] else local_users g' r' d)"
  by (auto simp: local_users_def clear_assignments_def delete_where_def filter_empty_conv
      intro!: arg_cong [where f = "\<lambda>xs. sort (map as_user xs)"] filter_cong)

definition assignment_rows :: "string \<Rightarrow> string \<Rightarrow> string list \<Rightarrow> assignment list" where
  "assignment_rows g r us = map (\<lambda>u. \<lparr>as_guild = g, as_role = r, as_user = u\<rparr>) us"

lemma replace_rows:
  "assignments (replace_assignments g r us d) =
     assignments (clear_assignments g r d) @ assignment_rows g r us"
  by (simp add: replace_assignments_def Let_def assignment_rows_def)

lemma rows_of_link:
  "filter (\<lambda>a. assignment_link a = k) (assignment_rows g r us) =
     (if k = (g, r) then assignment_rows g r us else [])"
  by (auto simp: assignment_link_def assignment_rows_def filter_id_conv filter_empty_conv)

lemma users_of_rows: "map as_user (assignment_rows g r us) = us"
  by (simp add: assignment_rows_def o_def)

lemma cleared_rows:
  "filter (\<lambda>a. assignment_link a = (g, r)) (assignments (clear_assignments g r d)) = []"
  by (auto simp: clear_assignments_def delete_where_def filter_empty_conv)

lemma local_users_replace:
  "local_users g' r' (replace_assignments g r us d) =
     (if (g', r') = (g, r) then sort us else local_users g' r' d)"
proof (cases "(g', r') = (g, r)")
  case True
  then have "g' = g" "r' = r" by simp_all
  then show ?thesis
    by (simp add: local_users_def replace_rows rows_of_link users_of_rows cleared_rows)
next
  case False
  have "local_users g' r' (replace_assignments g r us d) = local_users g' r' (clear_assignments g r d)"
    unfolding local_users_def replace_rows filter_append rows_of_link if_not_P [OF False] by simp
  then show ?thesis unfolding local_users_clear if_not_P [OF False] .
qed

lemma local_users_enqueue [simp]:
  "local_users g' r' (enqueue_config_sync_unless_queued now g r s d) = local_users g' r' d"
  by (simp add: local_users_def enqueue_config_sync_unless_queued_def)

lemma local_users_orphan:
  "(g', r') \<noteq> (g, r) \<Longrightarrow> local_users g' r' (delete_orphan_role_link g r d) = local_users g' r' d"
  by (auto simp: local_users_def delete_orphan_role_link_def delete_links_def delete_where_def
      intro!: arg_cong [where f = "\<lambda>xs. sort (map as_user xs)"] filter_cong)

lemma other_links_untouched:
  assumes "role_link_write app g r d d'" "(g', r') \<noteq> (g, r)"
  shows "local_users g' r' d' = local_users g' r' d"
  using assms by (auto simp: role_link_write_def local_users_clear local_users_replace local_users_orphan)

lemma clear_ok: "db_ok d \<Longrightarrow> db_ok (clear_assignments g r d)"
  by (simp add: db_ok_def keys_ok_def refs_ok_def clear_assignments_def unique_key_delete_where
      image_keep_subset)

lemma find_link_key: "find_link g r d \<noteq> None \<longleftrightarrow> (g, r) \<in> link_key ` set (role_links d)"
  using find_row_None_iff [of link_key "(g, r)" "role_links d"] by (simp add: find_link_def)

lemma replace_ok:
  assumes ok: "db_ok d" and us: "distinct us" and link: "find_link g r d \<noteq> None"
  shows "db_ok (replace_assignments g r us d)"
proof (cases "us = []")
  case True
  with ok show ?thesis by (simp add: replace_assignments_def clear_ok)
next
  case False
  let ?d = "clear_assignments g r d"
  let ?new = "assignment_rows g r us"
  have "unique_key assignment_key (assignments ?d @ ?new)"
    using clear_ok [OF ok, of g r] us
    by (auto simp: unique_key_def db_ok_def keys_ok_def clear_assignments_def distinct_map o_def
        assignment_key_def assignment_link_def inj_on_def assignment_rows_def)
  moreover have "assignment_link ` set (assignments ?d @ ?new) \<subseteq> link_key ` set (role_links ?d)"
    using clear_ok [OF ok, of g r] link find_link_key [of g r d]
    by (auto simp: db_ok_def refs_ok_def clear_assignments_def assignment_link_def assignment_rows_def)
  ultimately show ?thesis
    using clear_ok [OF ok, of g r] False
    by (simp add: replace_assignments_def Let_def db_ok_def keys_ok_def refs_ok_def assignment_rows_def)
qed

definition full_ok :: "db \<Rightarrow> bool" where
  "full_ok d \<longleftrightarrow> db_ok d \<and> queue_ok d"

lemma jobs_ok:
  "db_ok d \<Longrightarrow> queue_ok (d\<lparr>jobs := js, next_job_id := n\<rparr>) \<Longrightarrow> db_ok (d\<lparr>jobs := js, next_job_id := n\<rparr>)"
  by (simp add: db_ok_def keys_ok_def refs_ok_def queue_ok_def)

lemma enqueue_ok: "full_ok d \<Longrightarrow> full_ok (enqueue now k p s d)"
  using enqueue_queue_ok [of d now k p s] jobs_ok by (auto simp: full_ok_def enqueue_def)

lemma unless_ok: "full_ok d \<Longrightarrow> full_ok (enqueue_config_sync_unless_queued now g r s d)"
  using unless_queue_ok [of d now g r s] jobs_ok
  by (auto simp: full_ok_def enqueue_config_sync_unless_queued_def)

lemma write_ok:
  assumes ok: "full_ok d" and w: "role_link_write app g r d d'" shows "full_ok d'"
proof -
  have q: "queue_ok (delete_links P d)" "queue_ok (clear_assignments g r d)"
    "queue_ok (replace_assignments g r us d)" for P us
    using ok by (simp_all add: full_ok_def queue_ok_def delete_links_def clear_assignments_def
        replace_assignments_def Let_def)
  from w show ?thesis
    unfolding role_link_write_def
  proof (elim disjE exE conjE)
    show "d' = d \<Longrightarrow> ?thesis" using ok by simp
    show "d' = clear_assignments g r d \<Longrightarrow> ?thesis" using ok q clear_ok by (simp add: full_ok_def)
    show "distinct us \<Longrightarrow> find_link g r d \<noteq> None \<Longrightarrow> d' = replace_assignments g r us d \<Longrightarrow> ?thesis" for us
      using ok q replace_ok by (simp add: full_ok_def)
    show "d' = delete_orphan_role_link g r d \<Longrightarrow> ?thesis"
      using ok q delete_links_ok by (simp add: full_ok_def delete_orphan_role_link_def)
    show "d' = enqueue_config_sync_unless_queued (ap_now app) g r held_recheck_secs d \<Longrightarrow> ?thesis"
      using ok unless_ok by simp
  qed
qed

lemma sync_role_link_ok: "full_ok (fst st) \<Longrightarrow> full_ok (fst (snd (sync_for_role_link app g r st)))"
proof -
  assume ok: "full_ok (fst st)"
  obtain x st' where run: "sync_for_role_link app g r st = (x, st')"
    by (cases "sync_for_role_link app g r st")
  have "db_ok (fst st)" using ok by (simp add: full_ok_def)
  from role_link_step [OF this run] have "role_link_write app g r (fst st) (fst st')" by blast
  with ok run write_ok show ?thesis by simp
qed

text \<open>A write through RoleLogic leaves the mirror equal to the uploaded list.\<close>

lemma write_members_mirror:
  assumes ok: "db_ok (fst st)"
    and sel: "select_qualifying app (fst st) (rl_account link) (tree_of_json (rl_tree link)) ms limit = Inr us"
    and up: "upload_users app g r us (rl_token link) (snd st) = (Inr n, w)"
    and run: "write_members app g r link ms limit st = (x, st')"
  shows "x = Inr () \<and> local_users g r (fst st') = us"
proof -
  have us: "sort us = us" using select_distinct [OF ok sel] by (simp add: sorted_sort_id)
  show ?thesis
    using run sel up us
    by (auto simp: write_members_def io_then_def after_upload_def on_world_def local_users_replace
        split: if_splits)
qed

end
