(* ===== verification/Sync_Player.thy ===== *)
theory Sync_Player
  imports Sync_Laws
begin

section \<open>Bulk and per-player sync agree, and the latter converges\<close>

text \<open>
  \<open>rule_users_iff\<close>: for a viewer whose conditions are covered, membership in the bulk query's result
  is the decision of the per-player sync. \<open>player_sync_converges\<close>: when RoleLogic accepts every call,
  a member afterwards holds locally exactly the roles of their servers they qualify for.
  \<open>player_sync_ok\<close>: the constraints of the database survive whatever RoleLogic answers.
\<close>

subsection \<open>One decision\<close>

lemma facts_of_user:
  assumes "db_ok d" "u \<in> set (users d)"
  shows "facts_select d (bu_discord_id u) account = Some (bu_did u, row_facts d account u)"
  using assms find_row_unique [of bu_discord_id "users d" u]
  by (simp add: facts_select_def row_facts_def db_ok_def keys_ok_def)

lemma rule_users_iff:
  assumes ok: "db_ok d" and u: "u \<in> set (users d)" "bu_discord_id u \<in> set member_ids"
    and link: "rl_account link = Some account" "\<not> grant_on_any_relation (tree_of_json (rl_tree link))"
    and cov: "\<forall>g \<in> set (groups (tree_of_json (rl_tree link))). \<forall>c \<in> set (conditions g).
      covered (cr_regex (ap_crates app)) (ap_pg app) (ap_now app) c (d, account, u)"
  shows "bu_discord_id u \<in> set (rule_users app d account (tree_of_json (rl_tree link)) member_ids)
    \<longleftrightarrow> qualifies app d (bu_discord_id u) link"
proof -
  let ?t = "tree_of_json (rl_tree link)"
  have "bu_discord_id u \<in> set (rule_users app d account ?t member_ids) \<longleftrightarrow>
      sql_accepts 2 (row_env (ap_pg app) (ap_now app) d account u) ?t"
  proof
    assume "bu_discord_id u \<in> set (rule_users app d account ?t member_ids)"
    then obtain v where v: "v \<in> set (users d)" "bu_discord_id v = bu_discord_id u"
      "sql_accepts 2 (row_env (ap_pg app) (ap_now app) d account v) ?t"
      by (auto simp: rule_users_def)
    from ok u(1) v(1,2) have "v = u"
      using find_row_unique [of bu_discord_id "users d"] by (metis db_ok_def keys_ok_def option.inject)
    with v(3) show "sql_accepts 2 (row_env (ap_pg app) (ap_now app) d account u) ?t" by simp
  qed (use u in \<open>auto simp: rule_users_def\<close>)
  also have "\<dots> \<longleftrightarrow> evaluate_with_memberships (cr_regex (ap_crates app)) (ap_now app) ?t
      (row_facts d account u) (load_memberships d (Some account) (bu_did u))"
    using sql_rust.trees_agree [OF cov, of 2] by (simp add: row_view_def)
  also have "\<dots> \<longleftrightarrow> qualifies app d (bu_discord_id u) link"
    using link facts_of_user [OF ok u(1), of account] by (simp add: qualifies_def Let_def)
  finally show ?thesis .
qed

subsection \<open>Convergence of a per-player sync\<close>

definition calls_accepted :: "'w app \<Rightarrow> bool" where
  "calls_accepted app \<longleftrightarrow>
     (\<forall>g r u tok w. \<exists>b w'. add_user app g r u tok w = (Inr b, w')) \<and>
     (\<forall>g r u tok w. \<exists>b w'. remove_user app g r u tok w = (Inr b, w'))"

abbreviation held_keys :: "db \<Rightarrow> (string \<times> string \<times> string) set" where
  "held_keys d \<equiv> assignment_key ` set (assignments d)"

lemma insert_assignment_keys:
  assumes "(g, r) \<in> link_key ` set (role_links d)"
  shows "held_keys (insert_assignment g r u d) = insert (g, r, u) (held_keys d)"
proof -
  obtain l where "find_link g r d = Some l" using assms find_link_key [of g r d] by auto
  moreover have "assignment_key \<lparr>as_guild = g, as_role = r, as_user = u\<rparr> = (g, r, u)"
    by (simp add: assignment_key_def)
  ultimately show ?thesis by (simp add: insert_assignment_def keep.keys_upsert)
qed

lemma delete_assignment_keys: "held_keys (delete_assignment g r u d) = held_keys d - {(g, r, u)}"
  by (auto simp: delete_assignment_def)

lemma perform_accepted:
  assumes "calls_accepted app"
  shows "fst (perform_action app u (ActAdd g r tok) st) = insert_assignment g r u (fst st)"
    and "fst (perform_action app u (ActRemove g r tok) st) = delete_assignment g r u (fst st)"
proof -
  obtain b w' where "add_user app g r u tok (snd st) = (Inr b, w')"
    using assms unfolding calls_accepted_def by blast
  then show "fst (perform_action app u (ActAdd g r tok) st) = insert_assignment g r u (fst st)" by simp
  obtain b w' where "remove_user app g r u tok (snd st) = (Inr b, w')"
    using assms unfolding calls_accepted_def by blast
  then show "fst (perform_action app u (ActRemove g r tok) st) = delete_assignment g r u (fst st)" by simp
qed

definition user_key :: "string \<Rightarrow> role_link \<Rightarrow> string \<times> string \<times> string" where
  "user_key u l = (rl_guild l, rl_role l, u)"

text \<open>What a planned action does to the keys held, given that the row was as the plan saw it.\<close>

lemma planned_action:
  assumes ok: "calls_accepted app" and a: "plan_action app d0 u l = Some a"
    and l: "link_key l \<in> link_key ` set (role_links (fst st))"
  shows "held_keys (fst (perform_action app u a st)) =
      (if qualifies app d0 u l then insert (user_key u l) (held_keys (fst st))
       else held_keys (fst st) - {user_key u l})"
    and "role_links (fst (perform_action app u a st)) = role_links (fst st)"
proof -
  consider (add) "a = ActAdd (rl_guild l) (rl_role l) (rl_token l)" "qualifies app d0 u l"
    | (rem) "a = ActRemove (rl_guild l) (rl_role l) (rl_token l)" "\<not> qualifies app d0 u l"
    using a by (auto simp: plan_action_def Let_def split: bool.splits)
  then have "held_keys (fst (perform_action app u a st)) =
      (if qualifies app d0 u l then insert (user_key u l) (held_keys (fst st))
       else held_keys (fst st) - {user_key u l}) \<and>
    role_links (fst (perform_action app u a st)) = role_links (fst st)"
  proof cases
    case add
    have "fst (perform_action app u a st) = insert_assignment (rl_guild l) (rl_role l) u (fst st)"
      using add(1) perform_accepted(1) [OF ok] by simp
    moreover have "(rl_guild l, rl_role l) \<in> link_key ` set (role_links (fst st))"
      using l by (simp add: link_key_def)
    ultimately show ?thesis
      using add(2) insert_assignment_keys by (simp add: user_key_def) (simp add: insert_assignment_def)
  next
    case rem
    have "fst (perform_action app u a st) = delete_assignment (rl_guild l) (rl_role l) u (fst st)"
      using rem(1) perform_accepted(2) [OF ok] by simp
    with rem(2) show ?thesis
      by (simp add: delete_assignment_keys user_key_def) (simp add: delete_assignment_def)
  qed
  then show "held_keys (fst (perform_action app u a st)) =
      (if qualifies app d0 u l then insert (user_key u l) (held_keys (fst st))
       else held_keys (fst st) - {user_key u l})"
    and "role_links (fst (perform_action app u a st)) = role_links (fst st)" by simp_all
qed

lemma no_action:
  "plan_action app d0 u l = None \<Longrightarrow> (user_key u l \<in> held_keys d0) = qualifies app d0 u l"
  by (auto simp: plan_action_def Let_def user_key_def split: bool.splits)

text \<open>The plan was made on \<open>d0\<close>, the actions meet the rows as they are by then.\<close>

lemma actions_effect:
  assumes ok: "calls_accepted app"
  shows "distinct (map (user_key u) ls) \<Longrightarrow>
    \<forall>l \<in> set ls. link_key l \<in> link_key ` set (role_links (fst st)) \<Longrightarrow>
    let d' = fst (foldl (\<lambda>st a. perform_action app u a st) st (List.map_filter (plan_action app d0 u) ls))
    in (\<forall>l \<in> set ls. (user_key u l \<in> held_keys d') =
          (if plan_action app d0 u l = None then user_key u l \<in> held_keys (fst st) else qualifies app d0 u l)) \<and>
       (\<forall>k. k \<notin> user_key u ` set ls \<longrightarrow> (k \<in> held_keys d') = (k \<in> held_keys (fst st)))"
proof (induction ls arbitrary: st)
  case Nil
  then show ?case by (simp add: List.map_filter_def)
next
  case (Cons l ls)
  have fresh: "user_key u l \<notin> user_key u ` set ls" using Cons.prems(1) by simp
  show ?case
  proof (cases "plan_action app d0 u l")
    case None
    then have "List.map_filter (plan_action app d0 u) (l # ls) = List.map_filter (plan_action app d0 u) ls"
      by (simp add: List.map_filter_def)
    with Cons.IH [of st] Cons.prems fresh None show ?thesis unfolding Let_def
      by (simp del: split_paired_All)
  next
    case (Some a)
    let ?st = "perform_action app u a st"
    have mf: "List.map_filter (plan_action app d0 u) (l # ls) = a # List.map_filter (plan_action app d0 u) ls"
      using Some by (simp add: List.map_filter_def)
    note eff = planned_action [OF ok Some, of st]
    have l: "link_key l \<in> link_key ` set (role_links (fst st))" using Cons.prems(2) by simp
    have other: "(k \<in> held_keys (fst ?st)) = (k \<in> held_keys (fst st))" if "k \<noteq> user_key u l" for k
      using that eff(1) [OF l] by auto
    have self: "(user_key u l \<in> held_keys (fst ?st)) = qualifies app d0 u l"
      using eff(1) [OF l] by simp
    have ne: "user_key u l' \<noteq> user_key u l" if "l' \<in> set ls" for l'
      using that fresh by (simp add: image_iff) metis
    have "let d' = fst (foldl (\<lambda>st a. perform_action app u a st) ?st (List.map_filter (plan_action app d0 u) ls))
      in (\<forall>l \<in> set ls. (user_key u l \<in> held_keys d') =
            (if plan_action app d0 u l = None then user_key u l \<in> held_keys (fst ?st) else qualifies app d0 u l)) \<and>
         (\<forall>k. k \<notin> user_key u ` set ls \<longrightarrow> (k \<in> held_keys d') = (k \<in> held_keys (fst ?st)))"
      by (rule Cons.IH) (use Cons.prems eff(2) [OF l] in auto)
    with self other ne fresh Some show ?thesis
      unfolding Let_def mf by (simp del: split_paired_All)
  qed
qed

lemma actions_converge:
  assumes "calls_accepted app" "distinct (map (user_key u) ls)"
    "\<forall>l \<in> set ls. link_key l \<in> link_key ` set (role_links (fst st))"
    "\<forall>l \<in> set ls. (user_key u l \<in> held_keys (fst st)) = (user_key u l \<in> held_keys d0)"
  shows "let d' = fst (foldl (\<lambda>st a. perform_action app u a st) st (List.map_filter (plan_action app d0 u) ls))
    in (\<forall>l \<in> set ls. (user_key u l \<in> held_keys d') = qualifies app d0 u l) \<and>
       (\<forall>k. k \<notin> user_key u ` set ls \<longrightarrow> (k \<in> held_keys d') = (k \<in> held_keys (fst st)))"
  using actions_effect [OF assms(1-3), of d0] assms(4) no_action [of app d0 u]
  unfolding Let_def by (simp del: split_paired_All)

lemma baseline_other_tables:
  "assignments (ensure_baseline_relations now discord gs d) = assignments d"
  "role_links (ensure_baseline_relations now discord gs d) = role_links d"
  "accounts (ensure_baseline_relations now discord gs d) = accounts d"
  "users (ensure_baseline_relations now discord gs d) = users d"
proof -
  have "assignments (foldl (\<lambda>d a. insert_relation now a v d) d as) = assignments d"
    "role_links (foldl (\<lambda>d a. insert_relation now a v d) d as) = role_links d"
    "accounts (foldl (\<lambda>d a. insert_relation now a v d) d as) = accounts d"
    "users (foldl (\<lambda>d a. insert_relation now a v d) d as) = users d" for v as
    by (induction as arbitrary: d) (auto simp: insert_relation_def)
  then show "assignments (ensure_baseline_relations now discord gs d) = assignments d"
    "role_links (ensure_baseline_relations now discord gs d) = role_links d"
    "accounts (ensure_baseline_relations now discord gs d) = accounts d"
    "users (ensure_baseline_relations now discord gs d) = users d"
    by (auto simp: ensure_baseline_relations_def split: option.splits)
qed

lemma user_key_inj: "user_key u l = user_key u l' \<longleftrightarrow> link_key l = link_key l'"
  by (auto simp: user_key_def link_key_def)

lemma player_sync_converges:
  assumes db: "db_ok (fst st)" and ok: "calls_accepted app"
    and guilds: "fetch_user_guild_ids app user (snd st) = (Inr gs, w)" "gs \<noteq> []"
    and run: "sync_for_player app user st = (x, st')"
    and l: "l \<in> set (role_links (fst st))" "rl_guild l \<in> set gs"
  shows "x = Inr () \<and> ((rl_guild l, rl_role l, user) \<in> held_keys (fst st') \<longleftrightarrow>
    qualifies app (ensure_baseline_relations (ap_now app) user gs (fst st)) user l)"
proof -
  let ?d = "ensure_baseline_relations (ap_now app) user gs (fst st)"
  let ?ls = "filter (\<lambda>l. rl_guild l \<in> set gs) (role_links ?d)"
  have run': "x = Inr ()"
    "st' = foldl (\<lambda>st a. perform_action app user a st) (?d, w) (List.map_filter (plan_action app ?d user) ?ls)"
    using run guilds by (auto simp: sync_for_player_def io_then_def on_world_def)
  have "distinct (map link_key ?ls)"
    using db by (simp add: baseline_other_tables db_ok_def keys_ok_def unique_key_def distinct_map_filter)
  then have "distinct (map (user_key user) ?ls)"
    by (auto simp: distinct_map inj_on_def user_key_inj)
  from actions_converge [OF ok this, of "(?d, w)" ?d] l run'
  show ?thesis by (auto simp: Let_def baseline_other_tables user_key_def)
qed

subsection \<open>Constraints\<close>

lemma insert_relation_ok:
  assumes "db_ok d" "account \<in> ba_did ` set (accounts d)"
  shows "db_ok (insert_relation now account viewer d)"
proof -
  let ?rows = "upsert relation_key keep_old (new_relation now account viewer) (relations d)"
  have "unique_key relation_key ?rows"
    using assms(1) by (simp add: keep.unique_upsert db_ok_def keys_ok_def)
  moreover have "ar_account ` set ?rows \<subseteq> ba_did ` set (accounts d)"
    using assms by (auto simp: keep_upsert new_relation_def db_ok_def refs_ok_def)
  ultimately show ?thesis
    using assms(1) by (simp add: insert_relation_def db_ok_def keys_ok_def refs_ok_def)
qed

lemma insert_relations_ok:
  "db_ok d \<Longrightarrow> set as \<subseteq> ba_did ` set (accounts d) \<Longrightarrow>
   db_ok (foldl (\<lambda>d a. insert_relation now a v d) d as)"
proof (induction as arbitrary: d)
  case (Cons a as)
  have "accounts (insert_relation now a v d) = accounts d" by (simp add: insert_relation_def)
  with Cons insert_relation_ok [of d a now v] show ?case by simp
qed simp

lemma baseline_ok: "db_ok d \<Longrightarrow> db_ok (ensure_baseline_relations now discord gs d)"
proof -
  assume ok: "db_ok d"
  then have "ga_account ` set (guild_accounts d) \<subseteq> ba_did ` set (accounts d)"
    by (simp add: db_ok_def refs_ok_def)
  then have "set (map ga_account (filter P (guild_accounts d))) \<subseteq> ba_did ` set (accounts d)" for P
    by auto
  with ok insert_relations_ok show ?thesis
    by (simp add: ensure_baseline_relations_def split: option.split)
qed

lemma insert_assignment_ok: "db_ok d \<Longrightarrow> db_ok (insert_assignment g r u d)"
proof (cases "find_link g r d")
  case None
  then show "db_ok d \<Longrightarrow> db_ok (insert_assignment g r u d)" by (simp add: insert_assignment_def)
next
  case (Some l)
  assume ok: "db_ok d"
  let ?rows = "upsert assignment_key keep_old \<lparr>as_guild = g, as_role = r, as_user = u\<rparr> (assignments d)"
  have "unique_key assignment_key ?rows"
    using ok by (simp add: keep.unique_upsert db_ok_def keys_ok_def)
  moreover have "assignment_link ` set ?rows \<subseteq> link_key ` set (role_links d)"
    using ok Some find_link_key [of g r d]
    by (auto simp: keep_upsert assignment_link_def db_ok_def refs_ok_def)
  ultimately show ?thesis
    using ok Some by (simp add: insert_assignment_def db_ok_def keys_ok_def refs_ok_def)
qed

lemma delete_assignment_ok: "db_ok d \<Longrightarrow> db_ok (delete_assignment g r u d)"
  by (simp add: db_ok_def keys_ok_def refs_ok_def delete_assignment_def unique_key_delete_where
      image_keep_subset)

lemma perform_action_ok: "db_ok (fst st) \<Longrightarrow> db_ok (fst (perform_action app u a st))"
  by (cases a)
    (auto simp: insert_assignment_ok delete_assignment_ok delete_orphan_role_link_def delete_links_ok
      split: prod.splits sum.splits app_error.splits)

lemma perform_actions_ok:
  "db_ok (fst st) \<Longrightarrow> db_ok (fst (foldl (\<lambda>st a. perform_action app u a st) st as))"
  by (induction as arbitrary: st) (auto simp: perform_action_ok)

lemma player_sync_ok: "db_ok (fst st) \<Longrightarrow> db_ok (fst (snd (sync_for_player app u st)))"
proof -
  assume ok: "db_ok (fst st)"
  obtain y w where f: "fetch_user_guild_ids app u (snd st) = (y, w)"
    by (cases "fetch_user_guild_ids app u (snd st)")
  show ?thesis
  proof (cases y)
    case (Inl e)
    with f ok show ?thesis by (simp add: sync_for_player_def io_then_def on_world_def)
  next
    case (Inr gs)
    with f ok baseline_ok [OF ok] show ?thesis
      by (auto simp: sync_for_player_def io_then_def on_world_def intro!: perform_actions_ok)
  qed
qed

end
