(* ===== verification/Bsky_Client.thy ===== *)
theory Bsky_Client
  imports Http
begin

section \<open>The Bluesky client (\<open>services/bsky.rs\<close>)\<close>

text \<open>
  The response structs with their derived deserialisers, one definition per method, and the paging
  loops. \<open>drain\<close> is the loop of \<open>list_followers\<close>, \<open>list_follows\<close> and \<open>list_members\<close>: it follows the
  cursor until there is none or \<open>max_items\<close> are collected. A server that keeps sending cursors and
  empty pages keeps it running, so it is partial (\<open>None\<close> for not returning); \<open>drain_complete\<close> says what
  it returns and \<open>drain_returns\<close> when it does. \<open>list_user_lists\<close> and \<open>list_starter_packs\<close> stop after
  ten pages.
\<close>

definition public_api_base :: string where "public_api_base = ''https://public.api.bsky.app''"

definition profile_url :: "string \<Rightarrow> string" where
  "profile_url handle = ''https://bsky.app/profile/'' @ handle"

subsection \<open>Responses\<close>

record session_resp =
  ss_access_jwt :: string
  ss_refresh_jwt :: string
  ss_did :: string
  ss_handle :: string

record profile =
  pr_did :: string
  pr_handle :: string
  pr_display_name :: "string option"
  pr_description :: "string option"
  pr_avatar :: "string option"
  pr_banner :: "string option"
  pr_followers_count :: int
  pr_follows_count :: int
  pr_posts_count :: int
  pr_created_at :: "string option"

record actor_ref =
  ac_did :: string
  ac_handle :: string

record list_view =
  lv_uri :: string
  lv_name :: string
  lv_purpose :: "string option"
  lv_description :: "string option"

record pack_view =
  pv_uri :: string
  pv_record :: "json option"
  pv_list :: "list_view option"

definition decode_session :: "json \<Rightarrow> session_resp option" where
  "decode_session v =
     Option.bind (struct_members [''accessJwt'', ''refreshJwt'', ''did'', ''handle'', ''didDoc''] v) (\<lambda>ms.
     Option.bind (req as_str ms ''accessJwt'') (\<lambda>a.
     Option.bind (req as_str ms ''refreshJwt'') (\<lambda>r.
     Option.bind (req as_str ms ''did'') (\<lambda>d.
     Option.bind (req as_str ms ''handle'') (\<lambda>h.
     Some \<lparr>ss_access_jwt = a, ss_refresh_jwt = r, ss_did = d, ss_handle = h\<rparr>)))))"

definition decode_viewer :: "json \<Rightarrow> unit option" where
  "decode_viewer v =
     Option.bind (struct_members [''following'', ''followedBy''] v) (\<lambda>ms.
     Option.bind (opt_field as_str ms ''following'') (\<lambda>_.
     Option.bind (opt_field as_str ms ''followedBy'') (\<lambda>_. Some ())))"

definition decode_profile :: "json \<Rightarrow> profile option" where
  "decode_profile v =
     Option.bind (struct_members [''did'', ''handle'', ''displayName'', ''description'', ''avatar'',
       ''banner'', ''followersCount'', ''followsCount'', ''postsCount'', ''createdAt'', ''viewer''] v) (\<lambda>ms.
     Option.bind (req as_str ms ''did'') (\<lambda>d.
     Option.bind (req as_str ms ''handle'') (\<lambda>h.
     Option.bind (opt_field as_str ms ''displayName'') (\<lambda>n.
     Option.bind (opt_field as_str ms ''description'') (\<lambda>de.
     Option.bind (opt_field as_str ms ''avatar'') (\<lambda>av.
     Option.bind (opt_field as_str ms ''banner'') (\<lambda>ba.
     Option.bind (dflt as_i64 0 ms ''followersCount'') (\<lambda>fr.
     Option.bind (dflt as_i64 0 ms ''followsCount'') (\<lambda>fs.
     Option.bind (dflt as_i64 0 ms ''postsCount'') (\<lambda>pc.
     Option.bind (opt_field as_str ms ''createdAt'') (\<lambda>ca.
     Option.bind (opt_field decode_viewer ms ''viewer'') (\<lambda>_.
     Some \<lparr>pr_did = d, pr_handle = h, pr_display_name = n, pr_description = de, pr_avatar = av,
           pr_banner = ba, pr_followers_count = fr, pr_follows_count = fs, pr_posts_count = pc,
           pr_created_at = ca\<rparr>))))))))))))"

definition decode_actor :: "json \<Rightarrow> actor_ref option" where
  "decode_actor v =
     Option.bind (struct_members [''did'', ''handle''] v) (\<lambda>ms.
     Option.bind (req as_str ms ''did'') (\<lambda>d.
     Option.bind (req as_str ms ''handle'') (\<lambda>h. Some \<lparr>ac_did = d, ac_handle = h\<rparr>)))"

text \<open>\<open>PaginatedActors\<close>: both vectors are read, the caller takes its own.\<close>

definition decode_actors_page :: "bool \<Rightarrow> json \<Rightarrow> (actor_ref list \<times> string option) option" where
  "decode_actors_page followers v =
     Option.bind (struct_members [''cursor'', ''followers'', ''follows''] v) (\<lambda>ms.
     Option.bind (opt_field as_str ms ''cursor'') (\<lambda>c.
     Option.bind (dflt (sequence_of decode_actor) [] ms ''followers'') (\<lambda>fr.
     Option.bind (dflt (sequence_of decode_actor) [] ms ''follows'') (\<lambda>fs.
     Some (if followers then fr else fs, c)))))"

definition decode_list_view :: "json \<Rightarrow> list_view option" where
  "decode_list_view v =
     Option.bind (struct_members [''uri'', ''name'', ''purpose'', ''description'', ''listItemCount''] v) (\<lambda>ms.
     Option.bind (req as_str ms ''uri'') (\<lambda>u.
     Option.bind (req as_str ms ''name'') (\<lambda>n.
     Option.bind (opt_field as_str ms ''purpose'') (\<lambda>p.
     Option.bind (opt_field as_str ms ''description'') (\<lambda>d.
     Option.bind (opt_field as_i64 ms ''listItemCount'') (\<lambda>_.
     Some \<lparr>lv_uri = u, lv_name = n, lv_purpose = p, lv_description = d\<rparr>))))))"

definition decode_lists_page :: "json \<Rightarrow> (list_view list \<times> string option) option" where
  "decode_lists_page v =
     Option.bind (struct_members [''cursor'', ''lists''] v) (\<lambda>ms.
     Option.bind (opt_field as_str ms ''cursor'') (\<lambda>c.
     Option.bind (dflt (sequence_of decode_list_view) [] ms ''lists'') (\<lambda>ls. Some (ls, c))))"

definition decode_list_item :: "json \<Rightarrow> actor_ref option" where
  "decode_list_item v =
     Option.bind (struct_members [''subject''] v) (\<lambda>ms. req decode_actor ms ''subject'')"

definition decode_members_page :: "json \<Rightarrow> (actor_ref list \<times> string option) option" where
  "decode_members_page v =
     Option.bind (struct_members [''cursor'', ''items''] v) (\<lambda>ms.
     Option.bind (opt_field as_str ms ''cursor'') (\<lambda>c.
     Option.bind (dflt (sequence_of decode_list_item) [] ms ''items'') (\<lambda>is. Some (is, c))))"

definition decode_pack_view :: "json \<Rightarrow> pack_view option" where
  "decode_pack_view v =
     Option.bind (struct_members [''uri'', ''record'', ''creator'', ''list''] v) (\<lambda>ms.
     Option.bind (req as_str ms ''uri'') (\<lambda>u.
     Option.bind (opt_field as_any ms ''record'') (\<lambda>r.
     Option.bind (opt_field decode_actor ms ''creator'') (\<lambda>_.
     Option.bind (opt_field decode_list_view ms ''list'') (\<lambda>l.
     Some \<lparr>pv_uri = u, pv_record = r, pv_list = l\<rparr>)))))"

definition decode_packs_page :: "json \<Rightarrow> (pack_view list \<times> string option) option" where
  "decode_packs_page v =
     Option.bind (struct_members [''cursor'', ''starterPacks''] v) (\<lambda>ms.
     Option.bind (opt_field as_str ms ''cursor'') (\<lambda>c.
     Option.bind (dflt (sequence_of decode_pack_view) [] ms ''starterPacks'') (\<lambda>ps. Some (ps, c))))"

definition decode_xrpc_error :: "json \<Rightarrow> (string option \<times> string option) option" where
  "decode_xrpc_error v =
     Option.bind (struct_members [''error'', ''message''] v) (\<lambda>ms.
     Option.bind (opt_field as_str ms ''error'') (\<lambda>e.
     Option.bind (opt_field as_str ms ''message'') (\<lambda>m. Some (e, m))))"

definition parse_xrpc_error :: "'w app \<Rightarrow> response \<Rightarrow> app_error" where
  "parse_xrpc_error app resp =
     (let status = rs_status resp; body = rs_body resp; cr = ap_crates app
      in case parse_as cr decode_xrpc_error body of
           Inr (err, message) \<Rightarrow>
             (let msg = (case message of Some m \<Rightarrow> m | None \<Rightarrow>
                          (case err of Some e \<Rightarrow> e | None \<Rightarrow> body))
              in if status = 401 \<or> status = 403 then
                   BadRequest (''Bluesky rejected the credentials: '' @ msg)
                 else if status = 400 then BadRequest (''Bluesky rejected the request: '' @ msg)
                 else BskyApi (cr_status_text cr status @ '': '' @ msg))
         | Inl _ \<Rightarrow> BskyApi (cr_status_text cr status @ '': '' @ body))"

subsection \<open>Calls\<close>

definition pds :: "'w app \<Rightarrow> string" where
  "pds app = trim_end_matches (CHR ''/'') (default_pds (ap_config app))"

definition bearer :: "string \<Rightarrow> (string \<times> string) list" where
  "bearer token = [(''Authorization'', ''Bearer '' @ token)]"

text \<open>The shape all methods share: send, refuse a failure status, parse.\<close>

definition xrpc ::
  "'w app \<Rightarrow> string \<Rightarrow> (json \<Rightarrow> 'a option) \<Rightarrow> request \<Rightarrow> ('w, 'a) io"
where
  "xrpc app what dec rq =
     io_then (send_req app (\<lambda>e. BskyApi (what @ '' network: '' @ e)) rq) (\<lambda>resp.
     if \<not> is_success resp then io_fail (parse_xrpc_error app resp)
     else io_lift (json_body app dec (\<lambda>e. BskyApi (what @ '' parse: '' @ e)) resp))"

definition create_session :: "'w app \<Rightarrow> string \<Rightarrow> string \<Rightarrow> ('w, session_resp) io" where
  "create_session app identifier app_password =
     xrpc app ''createSession'' decode_session
       \<lparr>rq_method = POST, rq_url = pds app @ ''/xrpc/com.atproto.server.createSession'', rq_query = [],
        rq_headers = [],
        rq_json = Some (JObj [(''identifier'', JStr identifier), (''password'', JStr app_password)])\<rparr>"

definition refresh_session :: "'w app \<Rightarrow> string \<Rightarrow> ('w, session_resp) io" where
  "refresh_session app refresh_jwt =
     xrpc app ''refreshSession'' decode_session
       \<lparr>rq_method = POST, rq_url = pds app @ ''/xrpc/com.atproto.server.refreshSession'', rq_query = [],
        rq_headers = bearer refresh_jwt, rq_json = None\<rparr>"

definition resolve_handle :: "'w app \<Rightarrow> string \<Rightarrow> ('w, string) io" where
  "resolve_handle app handle =
     xrpc app ''resolveHandle''
       (\<lambda>v. Option.bind (struct_members [''did''] v) (\<lambda>ms. req as_str ms ''did''))
       \<lparr>rq_method = GET, rq_url = public_api_base @ ''/xrpc/com.atproto.identity.resolveHandle'',
        rq_query = [(''handle'', handle)], rq_headers = [], rq_json = None\<rparr>"

definition get_profile_public :: "'w app \<Rightarrow> string \<Rightarrow> ('w, profile) io" where
  "get_profile_public app actor =
     xrpc app ''getProfile'' decode_profile
       \<lparr>rq_method = GET, rq_url = public_api_base @ ''/xrpc/app.bsky.actor.getProfile'',
        rq_query = [(''actor'', actor)], rq_headers = [], rq_json = None\<rparr>"

definition get_profile_authed :: "'w app \<Rightarrow> string \<Rightarrow> string \<Rightarrow> ('w, profile) io" where
  "get_profile_authed app access_jwt actor =
     xrpc app ''getProfile (auth)'' decode_profile
       \<lparr>rq_method = GET, rq_url = pds app @ ''/xrpc/app.bsky.actor.getProfile'',
        rq_query = [(''actor'', actor)], rq_headers = bearer access_jwt, rq_json = None\<rparr>"

definition page_request ::
  "'w app \<Rightarrow> string \<Rightarrow> string \<Rightarrow> string \<times> string \<Rightarrow> string \<Rightarrow> string option \<Rightarrow> request"
where
  "page_request app jwt lexicon subject limit cursor =
     \<lparr>rq_method = GET, rq_url = pds app @ ''/xrpc/app.bsky.graph.'' @ lexicon,
      rq_query = [subject, (''limit'', limit)] @ (case cursor of None \<Rightarrow> [] | Some c \<Rightarrow> [(''cursor'', c)]),
      rq_headers = bearer jwt, rq_json = None\<rparr>"

type_synonym ('w, 'x) fetch = "string option \<Rightarrow> 'w \<Rightarrow> (app_error + ('x list \<times> string option)) \<times> 'w"

fun push_items :: "nat \<Rightarrow> 'x list \<Rightarrow> 'x list \<Rightarrow> 'x list \<times> bool" where
  "push_items max_items [] out = (out, False)"
| "push_items max_items (a # as) out =
     (if max_items \<le> length (out @ [a]) then (out @ [a], True)
      else push_items max_items as (out @ [a]))"

partial_function (option) drain ::
  "(string option \<Rightarrow> 'w \<Rightarrow> (app_error + ('x list \<times> string option)) \<times> 'w) \<Rightarrow> nat \<Rightarrow>
   string option \<Rightarrow> 'x list \<Rightarrow> 'w \<Rightarrow> ((app_error + 'x list) \<times> 'w) option"
where
  "drain fetch max_items cursor out w =
     (case fetch cursor w of
        (Inl e, w') \<Rightarrow> Some (Inl e, w')
      | (Inr (items, next_cursor), w') \<Rightarrow>
          (case push_items max_items items out of
             (out', full) \<Rightarrow>
               if full then Some (Inr out', w')
               else (case next_cursor of
                       None \<Rightarrow> Some (Inr out', w')
                     | Some c \<Rightarrow> drain fetch max_items (Some c) out' w')))"

definition followers_fetch :: "'w app \<Rightarrow> string \<Rightarrow> string \<Rightarrow> ('w, actor_ref) fetch" where
  "followers_fetch app jwt actor cursor =
     xrpc app ''getFollowers'' (decode_actors_page True)
       (page_request app jwt ''getFollowers'' (''actor'', actor) ''100'' cursor)"

definition follows_fetch :: "'w app \<Rightarrow> string \<Rightarrow> string \<Rightarrow> ('w, actor_ref) fetch" where
  "follows_fetch app jwt actor cursor =
     xrpc app ''getFollows'' (decode_actors_page False)
       (page_request app jwt ''getFollows'' (''actor'', actor) ''100'' cursor)"

definition members_fetch :: "'w app \<Rightarrow> string \<Rightarrow> string \<Rightarrow> ('w, actor_ref) fetch" where
  "members_fetch app jwt list_uri cursor =
     xrpc app ''getList'' decode_members_page
       (page_request app jwt ''getList'' (''list'', list_uri) ''100'' cursor)"

definition list_followers ::
  "'w app \<Rightarrow> string \<Rightarrow> string \<Rightarrow> nat \<Rightarrow> 'w \<Rightarrow> ((app_error + actor_ref list) \<times> 'w) option" where
  "list_followers app jwt actor max_items w = drain (followers_fetch app jwt actor) max_items None [] w"

definition list_follows ::
  "'w app \<Rightarrow> string \<Rightarrow> string \<Rightarrow> nat \<Rightarrow> 'w \<Rightarrow> ((app_error + actor_ref list) \<times> 'w) option" where
  "list_follows app jwt actor max_items w = drain (follows_fetch app jwt actor) max_items None [] w"

definition list_members_of ::
  "'w app \<Rightarrow> string \<Rightarrow> string \<Rightarrow> nat \<Rightarrow> 'w \<Rightarrow> ((app_error + actor_ref list) \<times> 'w) option" where
  "list_members_of app jwt list_uri max_items w = drain (members_fetch app jwt list_uri) max_items None [] w"

text \<open>The loops that stop after \<open>n\<close> pages.\<close>

fun first_pages :: "nat \<Rightarrow> ('w, 'x) fetch \<Rightarrow> string option \<Rightarrow> 'x list \<Rightarrow> ('w, 'x list) io" where
  "first_pages 0 fetch cursor out w = (Inr out, w)"
| "first_pages (Suc n) fetch cursor out w =
     (case fetch cursor w of
        (Inl e, w') \<Rightarrow> (Inl e, w')
      | (Inr (items, next_cursor), w') \<Rightarrow>
          (case next_cursor of
             None \<Rightarrow> (Inr (out @ items), w')
           | Some c \<Rightarrow> first_pages n fetch (Some c) (out @ items) w'))"

definition list_user_lists :: "'w app \<Rightarrow> string \<Rightarrow> string \<Rightarrow> ('w, list_view list) io" where
  "list_user_lists app jwt actor =
     first_pages 10 (\<lambda>cursor. xrpc app ''getLists'' decode_lists_page
       (page_request app jwt ''getLists'' (''actor'', actor) ''50'' cursor)) None []"

definition list_starter_packs :: "'w app \<Rightarrow> string \<Rightarrow> string \<Rightarrow> ('w, pack_view list) io" where
  "list_starter_packs app jwt actor =
     first_pages 10 (\<lambda>cursor. xrpc app ''getActorStarterPacks'' decode_packs_page
       (page_request app jwt ''getActorStarterPacks'' (''actor'', actor) ''50'' cursor)) None []"

subsection \<open>Handles\<close>

definition handle_domain :: "string \<Rightarrow> string option" where
  "handle_domain handle =
     map_option snd (split_once (CHR ''.'') (to_ascii_lowercase (trim handle)))"

definition is_custom_domain :: "string \<Rightarrow> bool" where
  "is_custom_domain handle =
     (case handle_domain handle of Some d \<Rightarrow> d \<noteq> ''bsky.social'' | None \<Rightarrow> False)"

lemma handle_domain_split:
  "CHR ''.'' \<notin> set a \<Longrightarrow> to_ascii_lowercase (trim h) = a @ CHR ''.'' # d \<Longrightarrow> handle_domain h = Some d"
  by (simp add: handle_domain_def)

subsection \<open>What the paging loop returns\<close>

lemma push_items_below:
  "length out + length items < max_items \<Longrightarrow> push_items max_items items out = (out @ items, False)"
  by (induction items arbitrary: out) auto

lemma push_items_prefix:
  "push_items max_items items out = (out', full) \<Longrightarrow> \<exists>n. out' = out @ take n items"
proof (induction items arbitrary: out)
  case Nil
  then show ?case by simp
next
  case (Cons a as)
  show ?case
  proof (cases "max_items \<le> length (out @ [a])")
    case True
    with Cons.prems show ?thesis by (auto intro!: exI [of _ 1])
  next
    case False
    with Cons.prems have "push_items max_items as (out @ [a]) = (out', full)" by simp
    from Cons.IH [OF this] obtain n where "out' = (out @ [a]) @ take n as" by blast
    then show ?thesis by (auto intro!: exI [of _ "Suc n"])
  qed
qed

lemma push_items_all: "push_items max_items items out = (out', False) \<Longrightarrow> out' = out @ items"
  by (induction items arbitrary: out) (fastforce split: if_splits)+

lemma push_items_length:
  "push_items max_items items out = (out', full) \<Longrightarrow> length out < max_items \<Longrightarrow>
   length out' \<le> max_items \<and> (\<not> full \<longrightarrow> length out' < max_items)"
  by (induction items arbitrary: out) (auto split: if_splits)

text \<open>The pages the server has for this query, in order, until one without a cursor.\<close>

inductive page_run ::
  "('w, 'x) fetch \<Rightarrow> string option \<Rightarrow> 'w \<Rightarrow> 'x list \<Rightarrow> 'w \<Rightarrow> bool" for fetch where
  page_last: "fetch cursor w = (Inr (items, None), w') \<Longrightarrow> page_run fetch cursor w items w'"
| page_more: "fetch cursor w = (Inr (items, Some c), w1) \<Longrightarrow> page_run fetch (Some c) w1 rest w' \<Longrightarrow>
    page_run fetch cursor w (items @ rest) w'"

inductive_cases page_runE: "page_run fetch cursor w xs w'"

lemma drain_complete_from:
  "page_run fetch cursor w xs w' \<Longrightarrow> length out + length xs < max_items \<Longrightarrow>
   drain fetch max_items cursor out w = Some (Inr (out @ xs), w')"
proof (induction arbitrary: out rule: page_run.induct)
  case (page_last cursor w items w')
  then show ?case by (subst drain.simps) (simp add: push_items_below)
next
  case (page_more cursor w items c w1 rest w')
  then show ?case by (subst drain.simps) (simp add: push_items_below)
qed

lemma drain_complete:
  "page_run fetch cursor w xs w' \<Longrightarrow> length xs < max_items \<Longrightarrow>
   drain fetch max_items cursor [] w = Some (Inr xs, w')"
  using drain_complete_from [of fetch cursor w xs w' "[]"] by simp

lemma drain_bound:
  assumes "drain fetch max_items cursor out w = Some (Inr ys, w')" "length out < max_items"
  shows "length ys \<le> max_items"
proof -
  have "length out < max_items \<Longrightarrow> fst r = Inr ys \<Longrightarrow> length ys \<le> max_items"
    if "drain fetch max_items cursor out w = Some r" for r
    using that
  proof (induction rule: drain.raw_induct [rotated, consumes 1])
    case (1 drain' fetch max_items cursor out w r)
    obtain x w1 where f: "fetch cursor w = (x, w1)" by (cases "fetch cursor w")
    have "\<exists>items nxt. x = Inr (items, nxt)"
    proof (cases x)
      case (Inl e)
      with 1(2) f have "r = (Inl e, w1)" by simp
      with 1(4) show ?thesis by simp
    qed simp
    then obtain items nxt where x: "x = Inr (items, nxt)" by blast
    obtain out' full where push: "push_items max_items items out = (out', full)"
      by (cases "push_items max_items items out")
    note len = push_items_length [OF push 1(3)]
    show ?case
    proof (cases "full \<or> nxt = None")
      case True
      with 1(2) f x push have "r = (Inr out', w1)" by (auto split: if_splits)
      with 1(4) len show ?thesis by simp
    next
      case False
      then obtain c where "nxt = Some c" "\<not> full" by auto
      with 1(2) f x push have "drain' fetch max_items (Some c) out' w1 = Some r" by simp
      from 1(1) [OF this] len \<open>\<not> full\<close> 1(4) show ?thesis by simp
    qed
  qed
  from this [OF assms(1)] assms(2) show ?thesis by simp
qed

text \<open>It returns whenever every page with a cursor holds something.\<close>

lemma drain_returns:
  assumes page: "\<And>cursor w items c w'. fetch cursor w = (Inr (items, Some c), w') \<Longrightarrow> items \<noteq> []"
  shows "length out < max_items \<Longrightarrow> drain fetch max_items cursor out w \<noteq> None"
proof (induction "max_items - length out" arbitrary: cursor out w rule: less_induct)
  case less
  obtain x w' where f: "fetch cursor w = (x, w')" by (cases "fetch cursor w")
  show ?case
  proof (cases x)
    case (Inl e)
    with f show ?thesis by (subst drain.simps) simp
  next
    case (Inr p)
    obtain items nxt where p: "p = (items, nxt)" by (cases p)
    obtain out' full where push: "push_items max_items items out = (out', full)"
      by (cases "push_items max_items items out")
    show ?thesis
    proof (cases "full \<or> nxt = None")
      case True
      with f Inr p push show ?thesis by (subst drain.simps) auto
    next
      case False
      then obtain c where c: "nxt = Some c" "\<not> full" by auto
      from page f Inr p c have "items \<noteq> []" by blast
      moreover have "out' = out @ items" "length out' < max_items"
        using push_items_all push push_items_length [OF push less.prems] c by auto
      ultimately have "drain fetch max_items (Some c) out' w' \<noteq> None"
        by (intro less.hyps) (auto simp: neq_Nil_conv)
      with f Inr p push c show ?thesis by (subst drain.simps) simp
    qed
  qed
qed

lemma first_pages_page_run:
  "first_pages n fetch cursor out w = (Inr ys, w') \<Longrightarrow> \<exists>zs. ys = out @ zs"
  by (induction n arbitrary: cursor out w) (force split: prod.splits sum.splits option.splits)+

end
