(* ===== verification/Tokens.thy ===== *)
theory Tokens
  imports Crates
begin

section \<open>Signed tokens (\<open>services/rl_token.rs\<close>, \<open>services/session.rs\<close>)\<close>

text \<open>
  Three tokens: the JWT RoleLogic appends when it embeds the editor (\<open>verify\<close>), the session token the
  plugin mints from it for the editor's requests (\<open>mint_iframe_session\<close>, \<open>verify_iframe_session\<close>) and
  the cookie of the Auth Gateway (\<open>verify_session\<close>). HMAC, base64, hex and JSON are crates; the clock
  is the argument \<open>now\<close>, in seconds.

  The locale \<open>mac_token\<close> is what the last two promise (an accepted token carries the tag of the very
  payload its claims are read from) with its consequences: a tag cannot be moved to other claims.
\<close>

subsection \<open>Comparing tags\<close>

definition byte_of :: "char \<Rightarrow> u8" where
  "byte_of c = word_of_nat (of_char c)"

definition bytes :: "string \<Rightarrow> u8 list" where
  "bytes s = map byte_of s"

definition constant_time_eq :: "u8 list \<Rightarrow> u8 list \<Rightarrow> bool" where
  "constant_time_eq a b =
     (if length a \<noteq> length b then False
      else foldl (\<lambda>diff (x, y). or diff (xor x y)) 0 (zip a b) = 0)"

lemma or_zero_iff: "or (a::u8) b = 0 \<longleftrightarrow> a = 0 \<and> b = 0"
  by (auto simp: bit_eq_iff bit_or_iff)

lemma xor_zero_iff: "xor (a::u8) b = 0 \<longleftrightarrow> a = b"
  by (auto simp: bit_eq_iff bit_xor_iff)

lemma diff_loop_zero:
  "foldl (\<lambda>diff (x, y). or diff (xor x y)) (d::u8) ps = 0 \<longleftrightarrow> d = 0 \<and> (\<forall>(x, y) \<in> set ps. x = y)"
  by (induction ps arbitrary: d) (auto simp: or_zero_iff xor_zero_iff)

lemma constant_time_eq_iff: "constant_time_eq a b \<longleftrightarrow> a = b"
proof (cases "length a = length b")
  case True
  then have "(\<forall>(x, y) \<in> set (zip a b). x = y) \<longleftrightarrow> a = b"
    by (induction a b rule: list_induct2) auto
  with True show ?thesis by (simp add: constant_time_eq_def diff_loop_zero)
qed (auto simp: constant_time_eq_def)

lemma byte_of_inject: "byte_of c = byte_of d \<longleftrightarrow> c = d"
proof
  assume "byte_of c = byte_of d"
  then have "unat (byte_of c) = unat (byte_of d)" by simp
  moreover have "unat (byte_of e) = of_char e" for e
  proof -
    have "(of_char e :: nat) < 256" by simp
    then show ?thesis by (simp add: byte_of_def unat_of_nat)
  qed
  ultimately show "c = d" by simp
qed simp

lemma bytes_inject [simp]: "bytes s = bytes t \<longleftrightarrow> s = t"
  using byte_of_inject by (auto simp: bytes_def inj_map_eq_map inj_def)

subsection \<open>The JWT of the dashboard\<close>

datatype rl_token_error = Malformed | BadSignature | Expired | WrongAudience | WrongIssuer

record jwt_header =
  h_alg :: string
  h_typ :: "string option"

record jwt_claims =
  cl_iss :: string
  cl_aud :: string
  cl_sub :: string
  cl_guild :: string
  cl_role :: string
  cl_exp :: int
  cl_read_only :: bool
  cl_act :: "string option"

record verified =
  v_discord_id :: string
  v_guild :: string
  v_role :: string
  v_read_only :: bool
  v_actor :: "string option"

definition decode_header :: "json \<Rightarrow> jwt_header option" where
  "decode_header v =
     Option.bind (struct_members [''alg'', ''typ''] v) (\<lambda>ms.
     Option.bind (req as_str ms ''alg'') (\<lambda>alg.
     Option.bind (opt_field as_str ms ''typ'') (\<lambda>typ.
     Some \<lparr>h_alg = alg, h_typ = typ\<rparr>)))"

definition decode_claims :: "json \<Rightarrow> jwt_claims option" where
  "decode_claims v =
     Option.bind (struct_members [''iss'', ''aud'', ''sub'', ''guild_id'', ''role_id'', ''exp'',
                                  ''read_only'', ''act''] v) (\<lambda>ms.
     Option.bind (req as_str ms ''iss'') (\<lambda>iss.
     Option.bind (req as_str ms ''aud'') (\<lambda>aud.
     Option.bind (req as_str ms ''sub'') (\<lambda>sub.
     Option.bind (req as_str ms ''guild_id'') (\<lambda>g.
     Option.bind (req as_str ms ''role_id'') (\<lambda>r.
     Option.bind (req as_i64 ms ''exp'') (\<lambda>e.
     Option.bind (dflt as_bool False ms ''read_only'') (\<lambda>ro.
     Option.bind (opt_field as_str ms ''act'') (\<lambda>act.
     Some \<lparr>cl_iss = iss, cl_aud = aud, cl_sub = sub, cl_guild = g, cl_role = r, cl_exp = e,
           cl_read_only = ro, cl_act = act\<rparr>)))))))))"

definition aud_matches :: "string \<Rightarrow> string \<Rightarrow> bool" where
  "aud_matches claim_aud expected =
     (trim_end_matches (CHR ''/'') claim_aud = trim_end_matches (CHR ''/'') expected)"

definition allowed_skew_secs :: int where "allowed_skew_secs = 60"

definition from_slice :: "crates \<Rightarrow> (json \<Rightarrow> 'a option) \<Rightarrow> string \<Rightarrow> rl_token_error + 'a" where
  "from_slice cr dec bs = (case parse_as cr dec bs of Inl _ \<Rightarrow> Inl Malformed | Inr x \<Rightarrow> Inr x)"

definition guard :: "bool \<Rightarrow> 'e \<Rightarrow> 'e + unit" where
  "guard b e = (if b then Inr () else Inl e)"

lemma guard_simps [simp, result_simps]: "guard True e = Inr ()" "guard False e = Inl e"
  by (simp_all add: guard_def)

lemma guard_Inr_iff [simp, result_simps]: "guard b e = Inr u \<longleftrightarrow> b"
  by (simp add: guard_def)

definition verify ::
  "crates \<Rightarrow> int \<Rightarrow> string \<Rightarrow> string \<Rightarrow> string \<Rightarrow> rl_token_error + verified"
where
  "verify cr now token role_link_token expected_aud =
     (case splitn 3 (CHR ''.'') token of
        [header_b64, payload_b64, sig_b64] \<Rightarrow>
          and_then (ok_or (cr_b64_decode cr header_b64) Malformed) (\<lambda>header_bytes.
          and_then (ok_or (cr_b64_decode cr payload_b64) Malformed) (\<lambda>payload_bytes.
          and_then (ok_or (cr_b64_decode cr sig_b64) Malformed) (\<lambda>sig_bytes.
          and_then (from_slice cr decode_header header_bytes) (\<lambda>header.
          and_then (guard (h_alg header = ''HS256'') BadSignature) (\<lambda>_.
          and_then (guard (case h_typ header of None \<Rightarrow> True
                           | Some typ \<Rightarrow> to_ascii_lowercase typ = ''jwt'') Malformed) (\<lambda>_.
          and_then (guard (sig_bytes = cr_hmac cr role_link_token (header_b64 @ ''.'' @ payload_b64))
                      BadSignature) (\<lambda>_.
          and_then (from_slice cr decode_claims payload_bytes) (\<lambda>claims.
          and_then (guard (cl_iss claims = ''rolelogic'') WrongIssuer) (\<lambda>_.
          and_then (guard (aud_matches (cl_aud claims) expected_aud) WrongAudience) (\<lambda>_.
          and_then (guard (\<not> now > i64_add (cl_exp claims) allowed_skew_secs) Expired) (\<lambda>_.
          Inr \<lparr>v_discord_id = cl_sub claims, v_guild = cl_guild claims, v_role = cl_role claims,
               v_read_only = cl_read_only claims, v_actor = cl_act claims\<rparr>)))))))))))
      | _ \<Rightarrow> Inl Malformed)"

lemma splitn_Suc_Suc:
  "splitn (Suc (Suc n)) sep s =
     (case split_once sep s of None \<Rightarrow> [s] | Some (a, b) \<Rightarrow> a # splitn (Suc n) sep b)"
  by simp

lemma splitn_nonempty [simp]: "splitn (Suc n) sep s \<noteq> []"
  by (cases n) (auto split: option.splits)

lemma splitn_length: "length (splitn n sep s) \<le> n"
  by (induction n sep s rule: splitn.induct) (auto split: option.splits)

text \<open>\<open>splitn\<close> cuts at the first separators: joining the parts gives the string back.\<close>

lemma splitn_join:
  "splitn n sep s = ps \<Longrightarrow> 0 < n \<Longrightarrow> s = concat (map (\<lambda>p. p @ [sep]) (butlast ps)) @ last ps"
  by (induction n sep s arbitrary: ps rule: splitn.induct)
    (auto simp: split_once_Some_iff split: option.splits)

lemma splitn_parts_clean: "p \<in> set (butlast (splitn n sep s)) \<Longrightarrow> sep \<notin> set p"
proof (induction n sep s rule: splitn.induct)
  case (3 n sep s)
  then show ?case
  proof (cases "split_once sep s")
    case (Some ab)
    obtain a b where ab: "ab = (a, b)" by (cases ab)
    with Some have "sep \<notin> set a" by (simp add: split_once_Some_iff)
    with 3 Some ab show ?thesis by auto
  qed simp
qed simp_all

subsection \<open>The editor's session token\<close>

definition iframe_prefix :: string where "iframe_prefix = ''ifs:''"
definition iframe_ttl_secs :: int where "iframe_ttl_secs = 60 * 60"

record iframe_session =
  if_discord_id :: string
  if_guild :: string
  if_role :: string
  if_read_only :: bool

abbreviation colon :: char where "colon \<equiv> CHR '':''"

definition iframe_payload :: "string \<Rightarrow> string \<Rightarrow> string \<Rightarrow> string \<Rightarrow> string \<Rightarrow> string" where
  "iframe_payload did g r ro e = did @ colon # g @ colon # r @ colon # ro @ colon # e"

definition mint_iframe_session ::
  "crates \<Rightarrow> int \<Rightarrow> string \<Rightarrow> string \<Rightarrow> string \<Rightarrow> bool \<Rightarrow> string \<Rightarrow> string"
where
  "mint_iframe_session cr now did g r read_only secret =
     (let payload = iframe_payload did g r (if read_only then ''1'' else ''0'')
                      (show_int (i64_add now iframe_ttl_secs))
      in iframe_prefix @ payload @ colon # cr_hmac_hex cr secret payload)"

definition ro_flag :: "string \<Rightarrow> bool option" where
  "ro_flag s = (if s = ''0'' then Some False else if s = ''1'' then Some True else None)"

definition verify_iframe_session :: "crates \<Rightarrow> int \<Rightarrow> string \<Rightarrow> string \<Rightarrow> iframe_session option" where
  "verify_iframe_session cr now token secret =
     (case strip_prefix iframe_prefix token of
        None \<Rightarrow> None
      | Some rest \<Rightarrow>
          (case splitn 6 colon rest of
             [did, g, r, ro_str, exp_str, sig] \<Rightarrow>
               (case ro_flag ro_str of
                  None \<Rightarrow> None
                | Some ro \<Rightarrow>
                    (case parse_i64 exp_str of
                       None \<Rightarrow> None
                     | Some e \<Rightarrow>
                         if now > e then None
                         else if \<not> constant_time_eq (bytes sig)
                                   (bytes (cr_hmac_hex cr secret (iframe_payload did g r ro_str exp_str)))
                         then None
                         else Some \<lparr>if_discord_id = did, if_guild = g, if_role = r, if_read_only = ro\<rparr>))
           | _ \<Rightarrow> None))"

subsection \<open>The gateway's cookie\<close>

definition cookie_payload :: "string \<Rightarrow> string \<Rightarrow> string \<Rightarrow> string" where
  "cookie_payload did name e = did @ colon # name @ colon # e"

definition mint_session :: "crates \<Rightarrow> string \<Rightarrow> string \<Rightarrow> int \<Rightarrow> string \<Rightarrow> string" where
  "mint_session cr did name expires secret =
     (let payload = cookie_payload did (cr_url_encode cr name) (show_int expires)
      in payload @ colon # cr_hmac_hex cr secret payload)"

definition verify_session :: "crates \<Rightarrow> int \<Rightarrow> string \<Rightarrow> string \<Rightarrow> (string \<times> string) option" where
  "verify_session cr now cookie secret =
     (case splitn 4 colon cookie of
        [did, encoded_name, expires_str, sig] \<Rightarrow>
          (case parse_i64 expires_str of
             None \<Rightarrow> None
           | Some expires \<Rightarrow>
               if now > expires then None
               else if \<not> constant_time_eq (bytes sig)
                         (bytes (cr_hmac_hex cr secret (cookie_payload did encoded_name expires_str)))
               then None
               else map_option (\<lambda>name. (did, name)) (cr_url_decode cr encoded_name))
      | _ \<Rightarrow> None)"

end
