(* ===== verification/Broadcaster_Session.thy ===== *)
theory Broadcaster_Session
  imports Bsky_Client Tokens Schema
begin

section \<open>Stored sessions (\<open>services/crypto.rs\<close>, \<open>services/broadcaster_session.rs\<close>)\<close>

text \<open>
  \<open>encrypt\<close> and \<open>decrypt\<close> over the AEAD and the key derivation of the crates, and \<open>valid_access_jwt\<close>,
  which hands out the stored access token of a broadcaster or refreshes the pair when it expires
  within five minutes. The state is the database and the outside world. A failure of the last,
  best-effort update is out of the model, as every failing statement.

  \<open>aead_ok\<close> states what the AEAD is documented to do: it opens exactly what it sealed.
\<close>

subsection \<open>Encryption at rest\<close>

datatype crypto_error = TooShort | DecryptFailed

fun crypto_error_text :: "crypto_error \<Rightarrow> string" where
  "crypto_error_text TooShort = ''ciphertext too short''"
| "crypto_error_text DecryptFailed = ''decrypt failed''"

definition nonce_bytes :: nat where "nonce_bytes = 12"
definition aad :: "u8 list" where "aad = bytes ''bluesky-account-role/v1/session-jwt''"

definition encrypt :: "crates \<Rightarrow> u8 list \<Rightarrow> string \<Rightarrow> u8 list \<Rightarrow> u8 list" where
  "encrypt cr nonce secret plaintext = nonce @ cr_seal cr (cr_hkdf cr secret) nonce aad plaintext"

definition decrypt :: "crates \<Rightarrow> string \<Rightarrow> u8 list \<Rightarrow> crypto_error + u8 list" where
  "decrypt cr secret blob =
     (if length blob < nonce_bytes + 16 then Inl TooShort
      else ok_or (cr_open cr (cr_hkdf cr secret) (take nonce_bytes blob) aad (drop nonce_bytes blob))
             DecryptFailed)"

definition aead_ok :: "crates \<Rightarrow> bool" where
  "aead_ok cr \<longleftrightarrow>
     (\<forall>k n a c m. cr_open cr k n a c = Some m \<longleftrightarrow> c = cr_seal cr k n a m) \<and>
     (\<forall>k n a m. length (cr_seal cr k n a m) = length m + 16)"

lemma decrypt_encrypt:
  "aead_ok cr \<Longrightarrow> length nonce = nonce_bytes \<Longrightarrow> decrypt cr secret (encrypt cr nonce secret m) = Inr m"
proof -
  assume aead: "aead_ok cr" and nonce: "length nonce = nonce_bytes"
  then have "cr_open cr (cr_hkdf cr secret) nonce aad (cr_seal cr (cr_hkdf cr secret) nonce aad m) = Some m"
    "length (cr_seal cr (cr_hkdf cr secret) nonce aad m) = length m + 16"
    by (simp_all add: aead_ok_def)
  with nonce show ?thesis by (simp add: decrypt_def encrypt_def)
qed

text \<open>What decrypts is an encryption of what it decrypts to: no byte of a blob can be changed.\<close>

lemma decrypt_authentic:
  assumes "aead_ok cr" "decrypt cr secret blob = Inr m"
  shows "\<exists>nonce. length nonce = nonce_bytes \<and> blob = encrypt cr nonce secret m"
proof (intro exI conjI)
  show "length (take nonce_bytes blob) = nonce_bytes"
    using assms(2) by (auto simp: decrypt_def min_def split: if_splits)
  show "blob = encrypt cr (take nonce_bytes blob) secret m"
    using assms
    by (auto simp: decrypt_def encrypt_def aead_ok_def ok_or_Inr_iff split: if_splits)
      (metis append_take_drop_id)
qed

subsection \<open>A valid access token\<close>

definition refresh_lead_secs :: int where "refresh_lead_secs = 5 * 60"

definition open_text ::
  "'w app \<Rightarrow> string \<Rightarrow> u8 list \<Rightarrow> app_error + string"
where
  "open_text app what blob =
     (case decrypt (ap_crates app) (session_secret (ap_config app)) blob of
        Inl e \<Rightarrow> Inl (Internal (''decrypt '' @ what @ '': '' @ crypto_error_text e))
      | Inr pt \<Rightarrow>
          (case cr_utf8 (ap_crates app) pt of
             Inl e \<Rightarrow> Inl (Internal (what @ '' not utf-8: '' @ e))
           | Inr s \<Rightarrow> Inr s))"

definition store_session ::
  "'w app \<Rightarrow> instant \<Rightarrow> string \<Rightarrow> session_resp \<Rightarrow> db \<Rightarrow> db"
where
  "store_session app expires did r d =
     (let seal = (\<lambda>n s. encrypt (ap_crates app) (ap_nonce app n) (session_secret (ap_config app)) (bytes s))
      in d\<lparr>accounts := update_where (\<lambda>a. ba_did a = did)
             (\<lambda>a. a\<lparr>ba_access_enc := seal 0 (ss_access_jwt r), ba_refresh_enc := seal 1 (ss_refresh_jwt r),
                    ba_token_expires_at := expires, ba_refresh_failed_at := None,
                    ba_updated_at := ap_now app\<rparr>) (accounts d)\<rparr>)"

definition mark_refresh_failed :: "'w app \<Rightarrow> string \<Rightarrow> db \<Rightarrow> db" where
  "mark_refresh_failed app did d =
     d\<lparr>accounts := update_where (\<lambda>a. ba_did a = did)
         (\<lambda>a. a\<lparr>ba_refresh_failed_at := Some (ap_now app), ba_updated_at := ap_now app\<rparr>) (accounts d)\<rparr>"

definition needs_refresh :: "'w app \<Rightarrow> bsky_account \<Rightarrow> bool" where
  "needs_refresh app a \<longleftrightarrow> ap_now app + refresh_lead_secs * 1000000 \<ge> ba_token_expires_at a"

definition valid_access_jwt :: "'w app \<Rightarrow> string \<Rightarrow> db \<times> 'w \<Rightarrow> (app_error + string) \<times> (db \<times> 'w)" where
  "valid_access_jwt app did st =
     (case find_row ba_did did (accounts (fst st)) of
        None \<Rightarrow> (Inl (NotFound (''No connected Bluesky account for DID '' @ did)), st)
      | Some a \<Rightarrow>
          if \<not> needs_refresh app a then (open_text app ''access_jwt'' (ba_access_enc a), st)
          else (case open_text app ''refresh_jwt'' (ba_refresh_enc a) of
                  Inl e \<Rightarrow> (Inl e, st)
                | Inr refresh_str \<Rightarrow>
                    (case on_world (refresh_session app refresh_str) st of
                       (Inr r, st1) \<Rightarrow>
                         (Inr (ss_access_jwt r),
                          (store_session app (ap_now app + 60 * 60 * 1000000) did r (fst st1), snd st1))
                     | (Inl e, st1) \<Rightarrow> (Inl e, (mark_refresh_failed app did (fst st1), snd st1)))))"

lemma find_account_update:
  "(\<And>a. ba_did (f a) = ba_did a) \<Longrightarrow>
   find_row ba_did did (update_where (\<lambda>a. ba_did a = did) f as) = map_option f (find_row ba_did did as)"
  by (subst find_row_update_where) (auto simp: find_row_def find_Some_iff dest: sym intro!: option.map_cong0
      split: if_splits)

lemma fresh_token_no_traffic:
  assumes "find_row ba_did did (accounts (fst st)) = Some a" "\<not> needs_refresh app a"
  shows "valid_access_jwt app did st = (open_text app ''access_jwt'' (ba_access_enc a), st)"
  using assms by (simp add: valid_access_jwt_def)

text \<open>After a refresh the same token is handed out again without asking Bluesky.\<close>

lemma refreshed_token_stored:
  assumes aead: "aead_ok (ap_crates app)"
    and utf8: "\<And>s. cr_utf8 (ap_crates app) (bytes s) = Inr s"
    and nonce: "\<And>n. length (ap_nonce app n) = nonce_bytes"
    and row: "find_row ba_did did (accounts (fst st)) = Some a" "needs_refresh app a"
    and ok: "valid_access_jwt app did st = (Inr jwt, st')"
  shows "valid_access_jwt app did st' = (Inr jwt, st')"
proof -
  from row ok obtain tok r st1 where r: "open_text app ''refresh_jwt'' (ba_refresh_enc a) = Inr tok"
    "on_world (refresh_session app tok) st = (Inr r, st1)" "jwt = ss_access_jwt r"
    and st': "st' = (store_session app (ap_now app + 60 * 60 * 1000000) did r (fst st1), snd st1)"
    by (auto simp: valid_access_jwt_def split: sum.splits prod.splits)
  have "fst st1 = fst st" using r(2) by (rule on_world_db)
  with row(1) st' obtain b where b: "find_row ba_did did (accounts (fst st')) = Some b"
    "ba_token_expires_at b = ap_now app + 60 * 60 * 1000000"
    "ba_access_enc b = encrypt (ap_crates app) (ap_nonce app 0) (session_secret (ap_config app))
       (bytes (ss_access_jwt r))"
    by (simp add: store_session_def Let_def find_account_update)
  have "\<not> needs_refresh app b" using b(2) by (simp add: needs_refresh_def refresh_lead_secs_def)
  moreover have "open_text app ''access_jwt'' (ba_access_enc b) = Inr jwt"
    using b(3) decrypt_encrypt [OF aead nonce] utf8 r(3) by (simp add: open_text_def)
  ultimately show ?thesis using fresh_token_no_traffic [OF b(1)] by simp
qed

text \<open>A refused refresh leaves the stored pair alone and marks the account.\<close>

lemma refresh_refused:
  assumes row: "find_row ba_did did (accounts (fst st)) = Some a" "needs_refresh app a"
    and tok: "open_text app ''refresh_jwt'' (ba_refresh_enc a) = Inr tok"
    and refused: "refresh_session app tok (snd st) = (Inl e, w)"
  shows "\<exists>b. valid_access_jwt app did st = (Inl e, (mark_refresh_failed app did (fst st), w)) \<and>
    find_row ba_did did (accounts (mark_refresh_failed app did (fst st))) = Some b \<and>
    ba_refresh_failed_at b = Some (ap_now app) \<and>
    ba_access_enc b = ba_access_enc a \<and> ba_refresh_enc b = ba_refresh_enc a"
  using assms
  by (simp add: valid_access_jwt_def on_world_def mark_refresh_failed_def find_account_update)

lemma accounts_update_ok:
  "(\<And>a. ba_did (f a) = ba_did a) \<Longrightarrow> (\<And>a. ba_handle (f a) = ba_handle a) \<Longrightarrow> db_ok d \<Longrightarrow>
   db_ok (d\<lparr>accounts := update_where P f (accounts d)\<rparr>)"
  by (simp add: db_ok_def keys_ok_def refs_ok_def unique_key_update_where keys_update_where)

lemma valid_access_jwt_ok: "db_ok (fst st) \<Longrightarrow> db_ok (fst (snd (valid_access_jwt app did st)))"
  by (auto simp: valid_access_jwt_def store_session_def mark_refresh_failed_def Let_def
      intro!: accounts_update_ok dest: on_world_db split: option.splits sum.splits prod.splits)

end
