(* ===== verification/Reconcile.thy ===== *)
theory Reconcile
  imports Sync_Player Broadcaster_Session
begin

section \<open>Refreshing an account (\<open>tasks/reconcile.rs\<close>)\<close>

text \<open>
  \<open>refresh_account\<close> pulls the profile, the follow graph, the lists and the starter packs of a
  broadcaster into the database. Its paging calls may not return, so the task is a partial
  computation (\<open>None\<close>); \<open>attempt\<close> is a call whose error the source matches on or drops.
  A statement that would break the unique index on \<open>lower(handle)\<close> fails and is ignored, as the
  source ignores it. The order in which a \<open>HashSet\<close> is walked does not show in the tables.

  \<open>write_flags_flags\<close> and \<open>write_flags_others\<close> say what the writing of the follow flags leaves of this
  account's relations and of the others.
\<close>

subsection \<open>Partial computations\<close>

type_synonym ('s, 'e, 'a) otask = "'s \<Rightarrow> (('e + 'a) \<times> 's) option"

definition total :: "('s \<Rightarrow> ('e + 'a) \<times> 's) \<Rightarrow> ('s, 'e, 'a) otask" where
  "total m s = Some (m s)"

definition ot_then :: "('s, 'e, 'a) otask \<Rightarrow> ('a \<Rightarrow> ('s, 'e, 'b) otask) \<Rightarrow> ('s, 'e, 'b) otask" where
  "ot_then m k s =
     (case m s of
        None \<Rightarrow> None
      | Some (Inl e, s') \<Rightarrow> Some (Inl e, s')
      | Some (Inr a, s') \<Rightarrow> k a s')"

definition attempt :: "('s, 'e, 'a) otask \<Rightarrow> ('s, 'e, 'e + 'a) otask" where
  "attempt m s = map_option (\<lambda>(r, s'). (Inr r, s')) (m s)"

definition ot_world :: "('w \<Rightarrow> (('e + 'a) \<times> 'w) option) \<Rightarrow> ('d \<times> 'w, 'e, 'a) otask" where
  "ot_world m s = map_option (\<lambda>(r, w). (r, (fst s, w))) (m (snd s))"

fun for_each :: "('x \<Rightarrow> ('s, 'e, unit) otask) \<Rightarrow> 'x list \<Rightarrow> ('s, 'e, unit) otask" where
  "for_each f [] s = Some (Inr (), s)"
| "for_each f (x # xs) s = ot_then (f x) (\<lambda>_. for_each f xs) s"

definition opreserves :: "('s \<Rightarrow> bool) \<Rightarrow> ('s, 'e, 'a) otask \<Rightarrow> bool" where
  "opreserves P m \<longleftrightarrow> (\<forall>s r s'. P s \<longrightarrow> m s = Some (r, s') \<longrightarrow> P s')"

lemma opreserves_total [intro]: "(\<And>s. P s \<Longrightarrow> P (snd (m s))) \<Longrightarrow> opreserves P (total m)"
  by (auto simp: opreserves_def total_def) (metis snd_conv)

lemma opreserves_then [intro]:
  assumes "opreserves P m" "\<And>a. opreserves P (k a)" shows "opreserves P (ot_then m k)"
  unfolding opreserves_def
proof (intro allI impI)
  fix s r s'
  assume "P s" "ot_then m k s = Some (r, s')"
  then obtain x s1 where m: "m s = Some (x, s1)" by (auto simp: ot_then_def split: option.splits)
  with assms(1) \<open>P s\<close> have "P s1" by (auto simp: opreserves_def)
  with m assms(2) \<open>ot_then m k s = Some (r, s')\<close> show "P s'"
    by (cases x) (auto simp: ot_then_def opreserves_def)
qed

lemma opreserves_attempt [intro]: "opreserves P m \<Longrightarrow> opreserves P (attempt m)"
  by (auto simp: opreserves_def attempt_def)

lemma opreserves_world [intro]: "opreserves (\<lambda>s. P (fst s)) (ot_world m)"
  by (auto simp: opreserves_def ot_world_def)

lemma opreserves_each [intro]:
  assumes "\<And>x. x \<in> set xs \<Longrightarrow> opreserves P (f x)" shows "opreserves P (for_each f xs)"
  using assms
proof (induction xs)
  case Nil
  then show ?case by (simp add: opreserves_def)
next
  case (Cons x xs)
  then have "opreserves P (ot_then (f x) (\<lambda>_. for_each f xs))" by (intro opreserves_then) auto
  then show ?case by (simp add: opreserves_def)
qed

lemma total_Some [simp]: "total m s = Some r \<longleftrightarrow> m s = r"
  by (simp add: total_def)

lemma ot_then_Inr:
  "ot_then m k s = Some (Inr b, s2) \<longleftrightarrow> (\<exists>a s1. m s = Some (Inr a, s1) \<and> k a s1 = Some (Inr b, s2))"
  by (auto simp: ot_then_def split: option.splits prod.splits sum.splits)

lemma attempt_Inr: "attempt m s = Some (Inr r, s') \<longleftrightarrow> m s = Some (r, s')"
  by (auto simp: attempt_def)

subsection \<open>The statements\<close>

definition max_followers_per_account :: nat where "max_followers_per_account = 50000"
definition max_members_per_list :: nat where "max_members_per_list = 25000"

definition handle_free :: "string \<Rightarrow> string \<Rightarrow> db \<Rightarrow> bool" where
  "handle_free did handle d \<longleftrightarrow>
     (\<forall>a \<in> set (accounts d). ba_did a \<noteq> did \<longrightarrow> db_lower d (ba_handle a) \<noteq> db_lower d handle)"

definition coalesce :: "'a option \<Rightarrow> 'a option \<Rightarrow> 'a option" where
  "coalesce a b = (case a of None \<Rightarrow> b | Some _ \<Rightarrow> a)"

definition parse_rfc3339 :: "'w app \<Rightarrow> string option \<Rightarrow> instant option" where
  "parse_rfc3339 app s = Option.bind s (cr_rfc3339 (ap_crates app))"

definition update_profile :: "'w app \<Rightarrow> string \<Rightarrow> profile \<Rightarrow> db \<Rightarrow> db" where
  "update_profile app did p d =
     (if handle_free did (pr_handle p) d
      then d\<lparr>accounts := update_where (\<lambda>a. ba_did a = did)
        (\<lambda>a. a\<lparr>ba_handle := pr_handle p, ba_display_name := pr_display_name p,
               ba_description := pr_description p, ba_has_avatar := (pr_avatar p \<noteq> None),
               ba_has_banner := (pr_banner p \<noteq> None),
               ba_followers_count := as_i32 (pr_followers_count p),
               ba_follows_count := as_i32 (pr_follows_count p),
               ba_posts_count := as_i32 (pr_posts_count p),
               ba_created_at := coalesce (parse_rfc3339 app (pr_created_at p)) (ba_created_at a),
               ba_last_synced_at := Some (ap_now app), ba_updated_at := ap_now app\<rparr>) (accounts d)\<rparr>
      else d)"

definition reset_flags :: "string \<Rightarrow> db \<Rightarrow> db" where
  "reset_flags did d = d\<lparr>relations := update_where (\<lambda>r. ar_account r = did)
     (\<lambda>r. r\<lparr>ar_is_follower := False, ar_is_followed_back := False\<rparr>) (relations d)\<rparr>"

definition set_followers :: "instant \<Rightarrow> string \<Rightarrow> string list \<Rightarrow> db \<Rightarrow> db" where
  "set_followers now did vs d =
     (if vs = [] then d
      else d\<lparr>relations := update_where (\<lambda>r. ar_account r = did \<and> ar_viewer r \<in> set vs)
        (\<lambda>r. r\<lparr>ar_is_follower := True, ar_followed_at := coalesce (ar_followed_at r) (Some now),
               ar_last_synced_at := now\<rparr>) (relations d)\<rparr>)"

definition set_followed_back :: "instant \<Rightarrow> string \<Rightarrow> string list \<Rightarrow> db \<Rightarrow> db" where
  "set_followed_back now did vs d =
     (if vs = [] then d
      else d\<lparr>relations := update_where (\<lambda>r. ar_account r = did \<and> ar_viewer r \<in> set vs)
        (\<lambda>r. r\<lparr>ar_is_followed_back := True, ar_last_synced_at := now\<rparr>) (relations d)\<rparr>)"

definition write_flags :: "instant \<Rightarrow> string \<Rightarrow> string list \<Rightarrow> string list \<Rightarrow> db \<Rightarrow> db" where
  "write_flags now did followers follows d =
     set_followed_back now did follows
       (set_followers now did followers
         (foldl (\<lambda>d v. insert_relation now did v d) (reset_flags did d) (remdups (followers @ follows))))"

definition upsert_list :: "string \<Rightarrow> list_view \<Rightarrow> db \<Rightarrow> db" where
  "upsert_list did l d = d\<lparr>bsky_lists :=
     upsert li_uri (\<lambda>old new. old\<lparr>li_name := li_name new, li_description := li_description new,
                                  li_purpose := li_purpose new\<rparr>)
       \<lparr>li_uri = lv_uri l, li_owner = did, li_name = lv_name l, li_description = lv_description l,
        li_purpose = lv_purpose l\<rparr> (bsky_lists d)\<rparr>"

definition gc_lists :: "string \<Rightarrow> string list \<Rightarrow> db \<Rightarrow> db" where
  "gc_lists did live = delete_lists (\<lambda>l. li_owner l = did \<and> li_uri l \<notin> set live)"

definition members_of :: "string \<Rightarrow> string list \<Rightarrow> membership list" where
  "members_of uri dids = map (\<lambda>v. \<lparr>mb_uri = uri, mb_did = v\<rparr>) (remdups dids)"

definition refresh_list_members :: "string \<Rightarrow> string list \<Rightarrow> db \<Rightarrow> db" where
  "refresh_list_members uri dids d =
     (let kept = delete_where (\<lambda>m. mb_uri m = uri) (list_members d)
      in d\<lparr>list_members := (if dids = [] then kept else kept @ members_of uri dids)\<rparr>)"

definition upsert_pack :: "string \<Rightarrow> pack_view \<Rightarrow> db \<Rightarrow> db" where
  "upsert_pack did p d =
     (let member = (\<lambda>k. Option.bind (Option.bind (pv_record p) (\<lambda>r. json_get r k)) as_str)
      in d\<lparr>packs :=
        upsert sp_uri (\<lambda>old new. old\<lparr>sp_name := sp_name new, sp_description := sp_description new,
                                     sp_list_uri := sp_list_uri new\<rparr>)
          \<lparr>sp_uri = pv_uri p, sp_owner = did, sp_name = or_default (member ''name'') ''Starter pack'',
           sp_description = member ''description'', sp_list_uri = map_option lv_uri (pv_list p)\<rparr>
          (packs d)\<rparr>)"

definition gc_packs :: "string \<Rightarrow> string list \<Rightarrow> db \<Rightarrow> db" where
  "gc_packs did live = delete_packs (\<lambda>p. sp_owner p = did \<and> sp_uri p \<notin> set live)"

definition refresh_starter_pack_members :: "string \<Rightarrow> string list \<Rightarrow> db \<Rightarrow> db" where
  "refresh_starter_pack_members uri dids d =
     (let kept = delete_where (\<lambda>m. mb_uri m = uri) (pack_members d)
      in d\<lparr>pack_members := (if dids = [] then kept else kept @ members_of uri dids)\<rparr>)"

definition touch_account :: "instant \<Rightarrow> string \<Rightarrow> db \<Rightarrow> db" where
  "touch_account now did d = d\<lparr>accounts := update_where (\<lambda>a. ba_did a = did)
     (\<lambda>a. a\<lparr>ba_last_synced_at := Some now, ba_updated_at := now\<rparr>) (accounts d)\<rparr>"

subsection \<open>The task\<close>

definition or_empty :: "'e + 'a list \<Rightarrow> 'a list" where
  "or_empty r = (case r of Inl _ \<Rightarrow> [] | Inr xs \<Rightarrow> xs)"

definition refresh_lists :: "'w app \<Rightarrow> string \<Rightarrow> string \<Rightarrow> (db \<times> 'w, app_error, unit) otask" where
  "refresh_lists app token did =
     ot_then (attempt (total (on_world (list_user_lists app token did)))) (\<lambda>r.
     case r of
       Inl _ \<Rightarrow> total (io_return ())
     | Inr ls \<Rightarrow>
         ot_then (total (on_db (\<lambda>d. gc_lists did (map lv_uri ls) (foldl (\<lambda>d l. upsert_list did l d) d ls)))) (\<lambda>_.
         for_each (\<lambda>l.
           ot_then (attempt (ot_world (list_members_of app token (lv_uri l) max_members_per_list))) (\<lambda>m.
           case m of
             Inl _ \<Rightarrow> total (io_return ())
           | Inr ms \<Rightarrow> total (on_db (refresh_list_members (lv_uri l) (map ac_did ms))))) ls))"

definition refresh_pack :: "'w app \<Rightarrow> string \<Rightarrow> string \<Rightarrow> pack_view \<Rightarrow> (db \<times> 'w, app_error, unit) otask" where
  "refresh_pack app token did p =
     ot_then (total (on_db (upsert_pack did p))) (\<lambda>_.
     case pv_list p of
       None \<Rightarrow> total (io_return ())
     | Some l \<Rightarrow>
         ot_then (attempt (ot_world (list_members_of app token (lv_uri l) max_members_per_list))) (\<lambda>m.
         case m of
           Inl _ \<Rightarrow> total (io_return ())
         | Inr ms \<Rightarrow> total (on_db (refresh_starter_pack_members (pv_uri p) (map ac_did ms)))))"

definition refresh_packs :: "'w app \<Rightarrow> string \<Rightarrow> string \<Rightarrow> (db \<times> 'w, app_error, unit) otask" where
  "refresh_packs app token did =
     ot_then (attempt (total (on_world (list_starter_packs app token did)))) (\<lambda>r.
     case r of
       Inl _ \<Rightarrow> total (io_return ())
     | Inr ps \<Rightarrow>
         ot_then (for_each (refresh_pack app token did) ps) (\<lambda>_.
         total (on_db (gc_packs did (map pv_uri ps)))))"

definition refresh_profile :: "'w app \<Rightarrow> string \<Rightarrow> string \<Rightarrow> (db \<times> 'w, app_error, unit) otask" where
  "refresh_profile app token did =
     ot_then (attempt (total (on_world (get_profile_authed app token did)))) (\<lambda>r.
     case r of
       Inl _ \<Rightarrow> total (io_return ())
     | Inr p \<Rightarrow> total (on_db (update_profile app did p)))"

definition refresh_graph :: "'w app \<Rightarrow> string \<Rightarrow> string \<Rightarrow> (db \<times> 'w, app_error, unit) otask" where
  "refresh_graph app token did =
     ot_then (attempt (ot_world (list_followers app token did max_followers_per_account))) (\<lambda>fr.
     ot_then (attempt (ot_world (list_follows app token did max_followers_per_account))) (\<lambda>fs.
     total (on_db (write_flags (ap_now app) did (map ac_did (or_empty fr)) (map ac_did (or_empty fs))))))"

definition refresh_account :: "'w app \<Rightarrow> string \<Rightarrow> (db \<times> 'w, app_error, unit) otask" where
  "refresh_account app did =
     ot_then (total (valid_access_jwt app did)) (\<lambda>token.
     ot_then (refresh_profile app token did) (\<lambda>_.
     ot_then (refresh_graph app token did) (\<lambda>_.
     ot_then (refresh_lists app token did) (\<lambda>_.
     ot_then (refresh_packs app token did) (\<lambda>_.
     total (on_db (touch_account (ap_now app) did)))))))"

text \<open>One pass of the six-hourly loop of \<open>run\<close>: a refreshed account gets an \<open>account_sync\<close> job.\<close>

definition reconcile_account :: "'w app \<Rightarrow> string \<Rightarrow> (db \<times> 'w, app_error, unit) otask" where
  "reconcile_account app did =
     ot_then (attempt (refresh_account app did)) (\<lambda>r.
     case r of
       Inl _ \<Rightarrow> total (io_return ())
     | Inr _ \<Rightarrow> total (on_db (enqueue_account_sync (ap_now app) did)))"

definition reconcile_pass :: "'w app \<Rightarrow> (db \<times> 'w, app_error, unit) otask" where
  "reconcile_pass app s = for_each (reconcile_account app) (map ba_did (accounts (fst s))) s"

subsection \<open>The follow graph\<close>

lemma insert_relations_rows:
  "relations (foldl (\<lambda>d v. insert_relation now did v d) d vs) =
     relations d @ map (new_relation now did)
       (remdups (filter (\<lambda>v. (did, v) \<notin> relation_key ` set (relations d)) vs))"
  if "distinct vs"
  using that
proof (induction vs arbitrary: d)
  case Nil
  then show ?case by simp
next
  case (Cons v vs)
  have key: "relation_key (new_relation now did v) = (did, v)"
    by (simp add: relation_key_def new_relation_def)
  have rows: "relations (insert_relation now did v d) =
      (if (did, v) \<in> relation_key ` set (relations d) then relations d
       else relations d @ [new_relation now did v])"
    by (simp add: insert_relation_def keep_upsert key)
  have same: "filter (\<lambda>v'. (did, v') \<notin> relation_key ` set (relations (insert_relation now did v d))) vs =
      filter (\<lambda>v'. (did, v') \<notin> relation_key ` set (relations d)) vs"
    using Cons.prems rows key by (intro filter_cong) auto
  show ?case
    using Cons rows same by auto
qed

lemma insert_relations_others:
  "filter (\<lambda>r. ar_account r \<noteq> did) (relations (foldl (\<lambda>d v. insert_relation now did v d) d vs)) =
     filter (\<lambda>r. ar_account r \<noteq> did) (relations d)"
  by (induction vs arbitrary: d) (simp_all add: insert_relation_def keep_upsert new_relation_def)

lemma insert_relations_new:
  assumes "r \<in> set (relations (foldl (\<lambda>d v. insert_relation now did v d) d vs))" "distinct vs"
  shows "r \<in> set (relations d) \<or> (\<exists>v \<in> set vs. r = new_relation now did v)"
  using assms by (auto simp: insert_relations_rows)

lemma insert_relations_keys:
  "relation_key ` set (relations (foldl (\<lambda>d v. insert_relation now did v d) d vs)) =
     relation_key ` set (relations d) \<union> Pair did ` set vs"
  by (induction vs arbitrary: d) (auto simp: insert_relation_def keep_upsert new_relation_def relation_key_def)

lemma reset_flags_row:
  "r \<in> set (relations (reset_flags did d)) \<Longrightarrow> ar_account r = did \<Longrightarrow>
     \<not> ar_is_follower r \<and> \<not> ar_is_followed_back r"
  by (simp add: reset_flags_def) (erule update_whereE; simp)

lemma set_followers_row:
  assumes "r \<in> set (relations (set_followers now did fr d))" "ar_account r = did"
  obtains r0 where "r0 \<in> set (relations d)" "ar_account r0 = did" "ar_viewer r0 = ar_viewer r"
    "ar_is_follower r = (ar_viewer r \<in> set fr \<or> ar_is_follower r0)"
    "ar_is_followed_back r = ar_is_followed_back r0"
proof (cases "fr = []")
  case True
  show ?thesis by (rule that [of r]) (use True assms in \<open>simp_all add: set_followers_def\<close>)
next
  case False
  with assms(1) have "r \<in> set (update_where (\<lambda>r. ar_account r = did \<and> ar_viewer r \<in> set fr)
      (\<lambda>r. r\<lparr>ar_is_follower := True, ar_followed_at := coalesce (ar_followed_at r) (Some now),
      ar_last_synced_at := now\<rparr>) (relations d))"
    by (simp add: set_followers_def)
  then show ?thesis
  proof (cases rule: update_whereE)
    case (hit r0)
    show ?thesis by (rule that [of r0]) (use hit in simp_all)
  next
    case miss
    show ?thesis by (rule that [of r]) (use miss assms(2) in simp_all)
  qed
qed

lemma set_followed_back_row:
  assumes "r \<in> set (relations (set_followed_back now did fs d))" "ar_account r = did"
  obtains r0 where "r0 \<in> set (relations d)" "ar_account r0 = did" "ar_viewer r0 = ar_viewer r"
    "ar_is_followed_back r = (ar_viewer r \<in> set fs \<or> ar_is_followed_back r0)"
    "ar_is_follower r = ar_is_follower r0"
proof (cases "fs = []")
  case True
  show ?thesis by (rule that [of r]) (use True assms in \<open>simp_all add: set_followed_back_def\<close>)
next
  case False
  with assms(1) have "r \<in> set (update_where (\<lambda>r. ar_account r = did \<and> ar_viewer r \<in> set fs)
      (\<lambda>r. r\<lparr>ar_is_followed_back := True, ar_last_synced_at := now\<rparr>) (relations d))"
    by (simp add: set_followed_back_def)
  then show ?thesis
  proof (cases rule: update_whereE)
    case (hit r0)
    show ?thesis by (rule that [of r0]) (use hit in simp_all)
  next
    case miss
    show ?thesis by (rule that [of r]) (use miss assms(2) in simp_all)
  qed
qed

lemma write_flags_flags:
  assumes "r \<in> set (relations (write_flags now did fr fs d))" "ar_account r = did"
  shows "ar_is_follower r = (ar_viewer r \<in> set fr)" "ar_is_followed_back r = (ar_viewer r \<in> set fs)"
proof -
  let ?d1 = "foldl (\<lambda>d v. insert_relation now did v d) (reset_flags did d) (remdups (fr @ fs))"
  obtain r1 where r1: "r1 \<in> set (relations (set_followers now did fr ?d1))" "ar_account r1 = did"
    "ar_viewer r1 = ar_viewer r" "ar_is_followed_back r = (ar_viewer r \<in> set fs \<or> ar_is_followed_back r1)"
    "ar_is_follower r = ar_is_follower r1"
    using assms set_followed_back_row unfolding write_flags_def by metis
  obtain r0 where r0: "r0 \<in> set (relations ?d1)" "ar_account r0 = did" "ar_viewer r0 = ar_viewer r1"
    "ar_is_follower r1 = (ar_viewer r1 \<in> set fr \<or> ar_is_follower r0)"
    "ar_is_followed_back r1 = ar_is_followed_back r0"
    using set_followers_row [OF r1(1,2)] by metis
  have "\<not> ar_is_follower r0 \<and> \<not> ar_is_followed_back r0"
    using insert_relations_new [OF r0(1) distinct_remdups] reset_flags_row [OF _ r0(2)]
    by (auto simp: new_relation_def)
  with r0 r1 show "ar_is_follower r = (ar_viewer r \<in> set fr)"
    "ar_is_followed_back r = (ar_viewer r \<in> set fs)" by auto
qed

lemma flag_updates_keys:
  "relation_key ` set (relations (reset_flags did d)) = relation_key ` set (relations d)"
  "relation_key ` set (relations (set_followers now did fr d)) = relation_key ` set (relations d)"
  "relation_key ` set (relations (set_followed_back now did fs d)) = relation_key ` set (relations d)"
  by (simp_all add: reset_flags_def set_followers_def set_followed_back_def keys_update_where relation_key_def)

lemma write_flags_keys:
  "relation_key ` set (relations (write_flags now did fr fs d)) =
     relation_key ` set (relations d) \<union> Pair did ` (set fr \<union> set fs)"
  by (simp add: write_flags_def flag_updates_keys insert_relations_keys)

lemma filter_update_other:
  "(\<And>r. P r \<Longrightarrow> \<not> Q r) \<Longrightarrow> (\<And>r. P r \<Longrightarrow> \<not> Q (f r)) \<Longrightarrow>
   filter Q (update_where P f rows) = filter Q rows"
  by (induction rows) (auto simp: update_where_def)

lemma write_flags_others:
  "filter (\<lambda>r. ar_account r \<noteq> did) (relations (write_flags now did fr fs d)) =
     filter (\<lambda>r. ar_account r \<noteq> did) (relations d)"
proof -
  have "filter (\<lambda>r. ar_account r \<noteq> did) (relations (reset_flags did x)) =
          filter (\<lambda>r. ar_account r \<noteq> did) (relations x)"
    "filter (\<lambda>r. ar_account r \<noteq> did) (relations (set_followers now did fr x)) =
          filter (\<lambda>r. ar_account r \<noteq> did) (relations x)"
    "filter (\<lambda>r. ar_account r \<noteq> did) (relations (set_followed_back now did fs x)) =
          filter (\<lambda>r. ar_account r \<noteq> did) (relations x)" for x
    by (auto simp: reset_flags_def set_followers_def set_followed_back_def intro!: filter_update_other)
  then show ?thesis by (simp add: write_flags_def insert_relations_others)
qed

end
