(* ===== verification/Reconcile_Laws.thy ===== *)
theory Reconcile_Laws
  imports Reconcile
begin

section \<open>What a refresh leaves in the tables\<close>

text \<open>
  \<open>refresh_account_flags\<close>: after a refresh the follow flags of the account are those Bluesky answered.
  \<open>refresh_graph_outage\<close>: a failed call counts as the answer "nobody". \<open>refresh_account_keeps\<close>:
  every outcome of a refresh keeps the constraints of the schema. \<open>members_replaced\<close>: the member
  tables mirror the last answer.
\<close>

lemmas opreserves_intros = opreserves_then opreserves_attempt opreserves_each opreserves_total
  opreserves_world

lemma opreserves_total_db:
  "(\<And>d. P d \<Longrightarrow> P (f d)) \<Longrightarrow> opreserves (\<lambda>s. P (fst s)) (total (on_db f))"
  by (rule opreserves_total) simp

lemma opreserves_total_world: "opreserves (\<lambda>s. P (fst s)) (total (on_world m))"
  by (rule opreserves_total) (auto simp: on_world_def split: prod.splits)

lemma opreserves_total_return: "opreserves P (total (io_return a))"
  by (rule opreserves_total) simp

lemmas opreserves_steps = opreserves_then opreserves_attempt opreserves_total_db opreserves_total_world
  opreserves_total_return opreserves_world opreserves_each

lemma opreservesD: "opreserves P m \<Longrightarrow> P s \<Longrightarrow> m s = Some (r, s') \<Longrightarrow> P s'"
  by (simp add: opreserves_def)

subsection \<open>The constraints\<close>

definition account_ok :: "string \<Rightarrow> db \<Rightarrow> bool" where
  "account_ok did d \<longleftrightarrow> db_ok d \<and> did \<in> ba_did ` set (accounts d)"

lemma account_update_kept:
  assumes "\<And>a. ba_did (f a) = ba_did a" "\<And>a. ba_handle (f a) = ba_handle a" "account_ok did d"
  shows "account_ok did (d\<lparr>accounts := update_where P f (accounts d)\<rparr>)"
  using assms accounts_update_ok [of f d P] by (simp add: account_ok_def keys_update_where)

lemma relations_update_kept:
  assumes "\<And>r. relation_key (f r) = relation_key r" "account_ok did d"
  shows "account_ok did (d\<lparr>relations := update_where P f (relations d)\<rparr>)"
proof -
  have "ar_account (f r) = ar_account r" for r
    using assms(1) [of r] by (simp add: relation_key_def)
  with assms show ?thesis
    by (simp add: account_ok_def db_ok_def keys_ok_def refs_ok_def unique_key_update_where
        keys_update_where [where key = ar_account])
qed

lemma insert_relation_kept: "account_ok did d \<Longrightarrow> account_ok did (insert_relation now did v d)"
  using insert_relation_ok [of d did now v] by (simp add: account_ok_def insert_relation_def)

lemma insert_relations_kept:
  "account_ok did d \<Longrightarrow> account_ok did (foldl (\<lambda>d v. insert_relation now did v d) d vs)"
  by (induction vs arbitrary: d) (simp_all add: insert_relation_kept)

lemma reset_flags_kept: "account_ok did d \<Longrightarrow> account_ok did (reset_flags a d)"
  unfolding reset_flags_def by (rule relations_update_kept) (simp_all add: relation_key_def)

lemma set_followers_kept: "account_ok did d \<Longrightarrow> account_ok did (set_followers now a vs d)"
  unfolding set_followers_def by (auto intro!: relations_update_kept simp: relation_key_def simp del: split_paired_All)

lemma set_followed_back_kept: "account_ok did d \<Longrightarrow> account_ok did (set_followed_back now a vs d)"
  unfolding set_followed_back_def by (auto intro!: relations_update_kept simp: relation_key_def)

lemma write_flags_kept: "account_ok did d \<Longrightarrow> account_ok did (write_flags now did fr fs d)"
  unfolding write_flags_def
  by (intro set_followed_back_kept set_followers_kept insert_relations_kept reset_flags_kept)

lemma update_profile_kept: "account_ok did d \<Longrightarrow> account_ok did (update_profile app did p d)"
proof (cases "handle_free did (pr_handle p) d")
  case True
  assume ok: "account_ok did d"
  let ?f = "\<lambda>a. a\<lparr>ba_handle := pr_handle p, ba_display_name := pr_display_name p,
               ba_description := pr_description p, ba_has_avatar := (pr_avatar p \<noteq> None),
               ba_has_banner := (pr_banner p \<noteq> None),
               ba_followers_count := as_i32 (pr_followers_count p),
               ba_follows_count := as_i32 (pr_follows_count p),
               ba_posts_count := as_i32 (pr_posts_count p),
               ba_created_at := coalesce (parse_rfc3339 app (pr_created_at p)) (ba_created_at a),
               ba_last_synced_at := Some (ap_now app), ba_updated_at := ap_now app\<rparr>"
  have "unique_key (\<lambda>a. db_lower d (ba_handle a)) (update_where (\<lambda>a. ba_did a = did) ?f (accounts d))"
    using ok True by (intro unique_update_other [where z = "db_lower d (pr_handle p)"])
      (simp_all add: account_ok_def db_ok_def keys_ok_def handle_free_def)
  with ok True show ?thesis
    by (simp add: account_ok_def db_ok_def keys_ok_def refs_ok_def update_profile_def unique_key_update_where
        keys_update_where)
qed (simp add: update_profile_def)

lemma touch_account_kept: "account_ok did d \<Longrightarrow> account_ok did (touch_account now did d)"
  unfolding touch_account_def by (auto intro!: account_update_kept)

interpretation li: keyed_table li_uri
  "\<lambda>old new. old\<lparr>li_name := li_name new, li_description := li_description new, li_purpose := li_purpose new\<rparr>"
  by unfold_locales simp

interpretation sp: keyed_table sp_uri
  "\<lambda>old new. old\<lparr>sp_name := sp_name new, sp_description := sp_description new, sp_list_uri := sp_list_uri new\<rparr>"
  by unfold_locales simp

lemma upsert_owner:
  assumes "\<And>old new. own (merge old new) = own old" "own new \<in> A" "own ` set rows \<subseteq> A"
  shows "own ` set (upsert key merge new rows) \<subseteq> A"
  using assms by (auto simp: upsert_def set_update_where)

lemma upsert_list_kept: "account_ok did d \<Longrightarrow> account_ok did (upsert_list did l d)"
  unfolding upsert_list_def
  by (simp add: account_ok_def db_ok_def keys_ok_def refs_ok_def li.unique_upsert li.keys_upsert
      upsert_owner subset_insertI2)

lemma upsert_pack_kept: "account_ok did d \<Longrightarrow> account_ok did (upsert_pack did p d)"
  unfolding upsert_pack_def Let_def
  by (simp add: account_ok_def db_ok_def keys_ok_def refs_ok_def sp.unique_upsert sp.keys_upsert
      upsert_owner subset_insertI2)

lemma upsert_lists_kept:
  "account_ok did d \<Longrightarrow> account_ok did (foldl (\<lambda>d l. upsert_list did l d) d ls)"
  by (induction ls arbitrary: d) (simp_all add: upsert_list_kept)

lemma gc_lists_kept: "account_ok did d \<Longrightarrow> account_ok did (gc_lists did live d)"
  using delete_lists_ok by (simp add: account_ok_def gc_lists_def) (simp add: delete_lists_def)

lemma gc_packs_kept: "account_ok did d \<Longrightarrow> account_ok did (gc_packs did live d)"
  using delete_packs_ok by (simp add: account_ok_def gc_packs_def) (simp add: delete_packs_def)

lemma members_of_key: "unique_key member_key (members_of uri dids)"
  by (simp add: unique_key_def members_of_def member_key_def distinct_map inj_on_def)

lemma replaced_members_unique:
  assumes "unique_key member_key ms"
  shows "unique_key member_key (delete_where (\<lambda>m. mb_uri m = uri) ms @ members_of uri dids)"
proof -
  have "unique_key member_key (delete_where (\<lambda>m. mb_uri m = uri) ms)"
    using assms by (rule unique_key_delete_where)
  moreover have "member_key ` set (delete_where (\<lambda>m. mb_uri m = uri) ms) \<inter>
      member_key ` set (members_of uri dids) = {}"
    by (auto simp: members_of_def member_key_def)
  ultimately show ?thesis
    using members_of_key [of uri dids] by (simp add: unique_key_def)
qed

lemma uris_members_of: "mb_uri ` set (members_of uri dids) \<subseteq> {uri}"
  by (auto simp: members_of_def)

lemma list_members_kept:
  assumes "account_ok did d" "uri \<in> li_uri ` set (bsky_lists d)"
  shows "account_ok did (refresh_list_members uri dids d)"
  using assms uris_members_of [of uri dids]
  by (auto simp: account_ok_def db_ok_def keys_ok_def refs_ok_def refresh_list_members_def Let_def
      replaced_members_unique image_Un intro: unique_key_delete_where)

lemma pack_members_kept:
  assumes "account_ok did d" "uri \<in> sp_uri ` set (packs d)"
  shows "account_ok did (refresh_starter_pack_members uri dids d)"
  using assms uris_members_of [of uri dids]
  by (auto simp: account_ok_def db_ok_def keys_ok_def refs_ok_def refresh_starter_pack_members_def Let_def
      replaced_members_unique image_Un intro: unique_key_delete_where)

lemma members_replaced:
  "filter (\<lambda>m. mb_uri m = uri) (list_members (refresh_list_members uri dids d)) = members_of uri dids"
  "filter (\<lambda>m. mb_uri m = uri) (pack_members (refresh_starter_pack_members uri dids d)) = members_of uri dids"
  by (auto simp: refresh_list_members_def refresh_starter_pack_members_def Let_def delete_where_def
      members_of_def filter_empty_conv)

lemma members_others:
  "uri' \<noteq> uri \<Longrightarrow> filter (\<lambda>m. mb_uri m = uri') (list_members (refresh_list_members uri dids d)) =
     filter (\<lambda>m. mb_uri m = uri') (list_members d)"
  by (auto simp: refresh_list_members_def Let_def delete_where_def members_of_def filter_empty_conv
      intro!: filter_cong)

text \<open>A statement that strengthens what the rest of the task relies on.\<close>

lemma opreserves_db_then:
  assumes "\<And>d. P d \<Longrightarrow> Q (f d)" "\<And>d. Q d \<Longrightarrow> P d" "opreserves (\<lambda>s. Q (fst s)) k"
  shows "opreserves (\<lambda>s. P (fst s)) (ot_then (total (on_db f)) (\<lambda>_. k))"
  using assms by (fastforce simp: opreserves_def ot_then_def total_def)

definition lists_present :: "string \<Rightarrow> string list \<Rightarrow> db \<Rightarrow> bool" where
  "lists_present did uris d \<longleftrightarrow> account_ok did d \<and> set uris \<subseteq> li_uri ` set (bsky_lists d)"

definition pack_present :: "string \<Rightarrow> string \<Rightarrow> db \<Rightarrow> bool" where
  "pack_present did uri d \<longleftrightarrow> account_ok did d \<and> uri \<in> sp_uri ` set (packs d)"

lemma upsert_lists_uris:
  "li_uri ` set (bsky_lists (foldl (\<lambda>d l. upsert_list did l d) d ls)) =
     li_uri ` set (bsky_lists d) \<union> lv_uri ` set ls"
proof (induction ls arbitrary: d)
  case (Cons l ls)
  have "li_uri ` set (bsky_lists (upsert_list did l d)) = insert (lv_uri l) (li_uri ` set (bsky_lists d))"
    by (simp add: upsert_list_def li.keys_upsert)
  with Cons show ?case by auto
qed simp

lemma gc_lists_uris:
  "set live \<inter> li_uri ` set (bsky_lists d) \<subseteq> li_uri ` set (bsky_lists (gc_lists did live d))"
  by (auto simp: gc_lists_def delete_lists_def)

lemma lists_written_present:
  assumes "account_ok did d"
  shows "lists_present did (map lv_uri ls)
           (gc_lists did (map lv_uri ls) (foldl (\<lambda>d l. upsert_list did l d) d ls))"
  unfolding lists_present_def
  using gc_lists_kept [OF upsert_lists_kept [OF assms]]
    gc_lists_uris [of "map lv_uri ls" "foldl (\<lambda>d l. upsert_list did l d) d ls" did]
    upsert_lists_uris [of did d ls]
  by auto

lemma list_members_present:
  "l \<in> set ls \<Longrightarrow> lists_present did (map lv_uri ls) d \<Longrightarrow>
     lists_present did (map lv_uri ls) (refresh_list_members (lv_uri l) ids d)"
  unfolding lists_present_def
  by (auto intro!: list_members_kept) (auto simp: refresh_list_members_def Let_def)

lemma refresh_lists_kept: "opreserves (\<lambda>s. account_ok did (fst s)) (refresh_lists app token did)"
proof -
  have loop: "opreserves (\<lambda>s. lists_present did (map lv_uri ls) (fst s)) (for_each (\<lambda>l.
      ot_then (attempt (ot_world (list_members_of app token (lv_uri l) max_members_per_list))) (\<lambda>m.
      case m of
        Inl _ \<Rightarrow> total (io_return ())
      | Inr ms \<Rightarrow> total (on_db (refresh_list_members (lv_uri l) (map ac_did ms))))) ls)" for ls
    by (intro opreserves_each opreserves_then opreserves_attempt opreserves_world)
      (simp add: opreserves_total_return opreserves_total_db list_members_present split: sum.split)
  have "opreserves (\<lambda>s. account_ok did (fst s)) (ot_then
      (total (on_db (\<lambda>d. gc_lists did (map lv_uri ls) (foldl (\<lambda>d l. upsert_list did l d) d ls)))) (\<lambda>_.
      for_each (\<lambda>l.
      ot_then (attempt (ot_world (list_members_of app token (lv_uri l) max_members_per_list))) (\<lambda>m.
      case m of
        Inl _ \<Rightarrow> total (io_return ())
      | Inr ms \<Rightarrow> total (on_db (refresh_list_members (lv_uri l) (map ac_did ms))))) ls))" for ls
    by (rule opreserves_db_then [OF _ _ loop])
      (simp_all add: lists_written_present, simp add: lists_present_def)
  then show ?thesis
    unfolding refresh_lists_def
    by (intro opreserves_then opreserves_attempt opreserves_total_world)
      (simp add: opreserves_total_return split: sum.split)
qed

lemma pack_written_present: "account_ok did d \<Longrightarrow> pack_present did (pv_uri p) (upsert_pack did p d)"
  unfolding pack_present_def
  by (auto intro: upsert_pack_kept) (simp add: upsert_pack_def sp.keys_upsert Let_def)

lemma pack_members_present:
  "pack_present did uri d \<Longrightarrow> pack_present did uri (refresh_starter_pack_members uri ids d)"
  unfolding pack_present_def
  by (auto intro!: pack_members_kept) (auto simp: refresh_starter_pack_members_def Let_def)

lemma refresh_pack_kept: "opreserves (\<lambda>s. account_ok did (fst s)) (refresh_pack app token did p)"
proof -
  have "opreserves (\<lambda>s. pack_present did (pv_uri p) (fst s)) (case pv_list p of
       None \<Rightarrow> total (io_return ())
     | Some l \<Rightarrow>
         ot_then (attempt (ot_world (list_members_of app token (lv_uri l) max_members_per_list))) (\<lambda>m.
         case m of
           Inl _ \<Rightarrow> total (io_return ())
         | Inr ms \<Rightarrow> total (on_db (refresh_starter_pack_members (pv_uri p) (map ac_did ms)))))"
  proof (cases "pv_list p")
    case (Some l)
    then show ?thesis
      by (simp, intro opreserves_then opreserves_attempt opreserves_world)
        (simp add: opreserves_total_return opreserves_total_db pack_members_present split: sum.split)
  qed (simp add: opreserves_total_return)
  then show ?thesis
    unfolding refresh_pack_def
    by (rule opreserves_db_then [rotated 2]) (simp_all add: pack_written_present, simp add: pack_present_def)
qed

lemma refresh_packs_kept: "opreserves (\<lambda>s. account_ok did (fst s)) (refresh_packs app token did)"
  unfolding refresh_packs_def
  by (intro opreserves_then opreserves_attempt opreserves_total_world)
    (simp add: opreserves_total_return opreserves_then opreserves_each refresh_pack_kept opreserves_total_db
      gc_packs_kept split: sum.split)

lemma refresh_profile_kept: "opreserves (\<lambda>s. account_ok did (fst s)) (refresh_profile app token did)"
  unfolding refresh_profile_def
  by (intro opreserves_then opreserves_attempt opreserves_total_world)
    (simp add: opreserves_total_return opreserves_total_db update_profile_kept split: sum.split)

lemma refresh_graph_kept: "opreserves (\<lambda>s. account_ok did (fst s)) (refresh_graph app token did)"
  unfolding refresh_graph_def
  by (intro opreserves_then opreserves_attempt opreserves_world opreserves_total_db write_flags_kept)

lemma store_session_dids:
  "ba_did ` set (accounts (store_session app t did r d)) = ba_did ` set (accounts d)"
  by (simp add: store_session_def Let_def keys_update_where)

lemma token_account:
  assumes "db_ok (fst s)" "valid_access_jwt app did s = (Inr token, s')"
  shows "account_ok did (fst s')"
proof -
  have "fst s' = fst s \<or> (\<exists>t r. fst s' = store_session app t did r (fst s))"
    using assms(2)
    by (auto simp: valid_access_jwt_def dest!: on_world_db simp del: not_ex
        split: option.splits sum.splits prod.splits if_splits; blast)
  then have "ba_did ` set (accounts (fst s')) = ba_did ` set (accounts (fst s))"
    using store_session_dids by (elim disjE exE) simp_all
  moreover have "find_row ba_did did (accounts (fst s)) \<noteq> None"
    using assms(2) by (auto simp: valid_access_jwt_def split: option.splits)
  ultimately show ?thesis
    using valid_access_jwt_ok [OF assms(1), of app did] assms(2)
    by (simp add: account_ok_def find_row_None_iff)
qed

lemma refresh_account_keeps: "opreserves (\<lambda>s. db_ok (fst s)) (refresh_account app did)"
  unfolding opreserves_def
proof (intro allI impI)
  fix s r s'
  assume ok: "db_ok (fst s)" and run: "refresh_account app did s = Some (r, s')"
  obtain x s1 where v: "valid_access_jwt app did s = (x, s1)" by (rule prod.exhaust)
  show "db_ok (fst s')"
  proof (cases x)
    case (Inl e)
    with run v ok valid_access_jwt_ok [OF ok, of app did] show ?thesis
      by (simp add: refresh_account_def ot_then_def total_def)
  next
    case (Inr token)
    have "opreserves (\<lambda>s. account_ok did (fst s)) (ot_then (refresh_profile app token did) (\<lambda>_.
        ot_then (refresh_graph app token did) (\<lambda>_. ot_then (refresh_lists app token did) (\<lambda>_.
        ot_then (refresh_packs app token did) (\<lambda>_. total (on_db (touch_account (ap_now app) did)))))))"
      by (intro opreserves_then refresh_profile_kept refresh_graph_kept refresh_lists_kept
          refresh_packs_kept opreserves_total_db touch_account_kept)
    moreover have "account_ok did (fst s1)" using token_account ok v Inr by blast
    moreover have "refresh_account app did s = ot_then (refresh_profile app token did) (\<lambda>_.
        ot_then (refresh_graph app token did) (\<lambda>_. ot_then (refresh_lists app token did) (\<lambda>_.
        ot_then (refresh_packs app token did) (\<lambda>_. total (on_db (touch_account (ap_now app) did)))))) s1"
      using v Inr by (simp add: refresh_account_def ot_then_def [of "total (valid_access_jwt app did)"] total_def)
    ultimately have "account_ok did (fst s')" using run unfolding opreserves_def by metis
    then show ?thesis by (simp add: account_ok_def)
  qed
qed

subsection \<open>The follow graph is what Bluesky answered\<close>

definition flags_answered :: "string \<Rightarrow> app_error + actor_ref list \<Rightarrow> app_error + actor_ref list \<Rightarrow> db \<Rightarrow> bool" where
  "flags_answered did fr fs d \<longleftrightarrow>
     (\<forall>r \<in> set (relations d). ar_account r = did \<longrightarrow>
        ar_is_follower r = (ar_viewer r \<in> set (map ac_did (or_empty fr))) \<and>
        ar_is_followed_back r = (ar_viewer r \<in> set (map ac_did (or_empty fs)))) \<and>
     (\<forall>v \<in> set (map ac_did (or_empty fr)) \<union> set (map ac_did (or_empty fs)).
        (did, v) \<in> relation_key ` set (relations d))"

lemma write_flags_answered:
  "flags_answered did fr fs
     (write_flags now did (map ac_did (or_empty fr)) (map ac_did (or_empty fs)) d)"
  unfolding flags_answered_def
  using write_flags_flags [where did = did and fr = "map ac_did (or_empty fr)" and
      fs = "map ac_did (or_empty fs)" and now = now and d = d]
  by (simp add: write_flags_keys)

definition follow_calls ::
  "'w app \<Rightarrow> string \<Rightarrow> string \<Rightarrow> 'w \<Rightarrow> (app_error + actor_ref list) \<times> (app_error + actor_ref list) \<Rightarrow> bool"
where
  "follow_calls app token did w answers \<longleftrightarrow>
     (\<exists>w1 w2. list_followers app token did max_followers_per_account w = Some (fst answers, w1) \<and>
              list_follows app token did max_followers_per_account w1 = Some (snd answers, w2))"

lemma refresh_graph_flags:
  assumes "refresh_graph app token did s = Some (r, s')"
  shows "\<exists>fr fs. r = Inr () \<and> follow_calls app token did (snd s) (fr, fs) \<and>
    flags_answered did fr fs (fst s')"
proof -
  from assms obtain fr w1 where f: "list_followers app token did max_followers_per_account (snd s) = Some (fr, w1)"
    by (auto simp: refresh_graph_def ot_then_def attempt_def ot_world_def split: option.splits)
  with assms obtain fs w2 where g: "list_follows app token did max_followers_per_account w1 = Some (fs, w2)"
    by (auto simp: refresh_graph_def ot_then_def attempt_def ot_world_def split: option.splits)
  from assms f g have "r = Inr ()" "fst s' = write_flags (ap_now app) did (map ac_did (or_empty fr))
      (map ac_did (or_empty fs)) (fst s)"
    by (auto simp: refresh_graph_def ot_then_def attempt_def ot_world_def total_def)
  with f g show ?thesis by (auto simp: follow_calls_def write_flags_answered)
qed

text \<open>
  What the statements of a refresh leave alone, the task leaves alone: \<open>container_invariant\<close> for the
  lists and packs, \<open>refresh_invariant\<close> for the whole task.
\<close>

locale container_invariant =
  fixes P :: "db \<Rightarrow> bool" and did :: string
  assumes upsert_list_inv: "P d \<Longrightarrow> P (upsert_list did l d)"
    and gc_lists_inv: "P d \<Longrightarrow> P (gc_lists did live d)"
    and list_members_inv: "P d \<Longrightarrow> P (refresh_list_members uri ids d)"
    and upsert_pack_inv: "P d \<Longrightarrow> P (upsert_pack did p d)"
    and pack_members_inv: "P d \<Longrightarrow> P (refresh_starter_pack_members uri ids d)"
    and gc_packs_inv: "P d \<Longrightarrow> P (gc_packs did live d)"
begin

lemma lists_fold_inv: "P d \<Longrightarrow> P (foldl (\<lambda>d l. upsert_list did l d) d ls)"
  by (induction ls arbitrary: d) (simp_all add: upsert_list_inv)

lemma lists_inv: "opreserves (\<lambda>s. P (fst s)) (refresh_lists app token did)"
  unfolding refresh_lists_def
  by (intro opreserves_then opreserves_attempt opreserves_total_world)
    (auto split: sum.split intro!: opreserves_total_return opreserves_total_db opreserves_then
      opreserves_each opreserves_attempt opreserves_world gc_lists_inv lists_fold_inv list_members_inv
      simp del: on_db_step)

lemma pack_inv: "opreserves (\<lambda>s. P (fst s)) (refresh_pack app token did p)"
  unfolding refresh_pack_def
  by (auto split: sum.split option.split intro!: opreserves_total_return opreserves_total_db
      opreserves_then opreserves_attempt opreserves_world upsert_pack_inv pack_members_inv
      simp del: on_db_step)

lemma packs_inv: "opreserves (\<lambda>s. P (fst s)) (refresh_packs app token did)"
  unfolding refresh_packs_def
  by (intro opreserves_then opreserves_attempt opreserves_total_world)
    (auto split: sum.split intro!: opreserves_total_return opreserves_total_db opreserves_then
      opreserves_each pack_inv gc_packs_inv simp del: on_db_step)

end

locale refresh_invariant = container_invariant +
  fixes app :: "'w app"
  assumes session_inv: "P d \<Longrightarrow> P (store_session app t did r d)"
    and failed_inv: "P d \<Longrightarrow> P (mark_refresh_failed app did d)"
    and profile_inv: "P d \<Longrightarrow> P (update_profile app did p d)"
    and flags_inv: "P d \<Longrightarrow> P (write_flags now did fr fs d)"
    and touch_inv: "P d \<Longrightarrow> P (touch_account now did d)"
begin

lemma token_inv: "opreserves (\<lambda>s. P (fst s)) (total (valid_access_jwt app did))"
  by (rule opreserves_total)
    (auto simp: valid_access_jwt_def dest!: on_world_db intro!: session_inv failed_inv
      split: option.splits sum.splits prod.splits)

lemma refresh_inv: "opreserves (\<lambda>s. P (fst s)) (refresh_account app did)"
  unfolding refresh_account_def refresh_profile_def refresh_graph_def
  by (intro opreserves_then token_inv lists_inv packs_inv opreserves_total_db touch_inv
      opreserves_attempt opreserves_total_world opreserves_world flags_inv)
    (auto split: sum.split intro!: opreserves_total_return opreserves_total_db profile_inv
      simp del: on_db_step)

end

interpretation kept_relations: container_invariant "\<lambda>d. relations d = R" did for R did
  by unfold_locales
    (simp_all add: upsert_list_def gc_lists_def delete_lists_def refresh_list_members_def Let_def
      upsert_pack_def gc_packs_def delete_packs_def refresh_starter_pack_members_def)

lemma insert_relations_jobs:
  "jobs (foldl (\<lambda>d v. insert_relation now did v d) d vs) = jobs d"
  "next_job_id (foldl (\<lambda>d v. insert_relation now did v d) d vs) = next_job_id d"
  by (induction vs arbitrary: d) (simp_all add: insert_relation_def)

interpretation kept_jobs: refresh_invariant "\<lambda>d. jobs d = J \<and> next_job_id d = n" did app
  for J n did and app :: "'w app"
  by unfold_locales
    (simp_all add: upsert_list_def gc_lists_def delete_lists_def refresh_list_members_def Let_def
      upsert_pack_def gc_packs_def delete_packs_def refresh_starter_pack_members_def store_session_def
      mark_refresh_failed_def update_profile_def write_flags_def set_followers_def set_followed_back_def
      reset_flags_def touch_account_def insert_relations_jobs)

lemma after_graph_keeps:
  "opreserves (\<lambda>s. relations (fst s) = R) (ot_then (refresh_lists app token did) (\<lambda>_.
     ot_then (refresh_packs app token did) (\<lambda>_. total (on_db (touch_account (ap_now app) did)))))"
  by (intro opreserves_then kept_relations.lists_inv kept_relations.packs_inv opreserves_total_db)
    (simp add: touch_account_def)

text \<open>A refresh does not touch the queue.\<close>

lemma refresh_account_jobs:
  "refresh_account app did s = Some (r, s') \<Longrightarrow>
     jobs (fst s') = jobs (fst s) \<and> next_job_id (fst s') = next_job_id (fst s)"
  by (rule opreservesD [OF kept_jobs.refresh_inv]) simp_all

lemma refresh_account_flags:
  assumes "refresh_account app did s = Some (Inr (), s')"
  shows "\<exists>token w fr fs. follow_calls app token did w (fr, fs) \<and> flags_answered did fr fs (fst s')"
proof -
  from assms obtain token s0 where "ot_then (refresh_profile app token did) (\<lambda>_.
      ot_then (refresh_graph app token did) (\<lambda>_. ot_then (refresh_lists app token did) (\<lambda>_.
      ot_then (refresh_packs app token did) (\<lambda>_. total (on_db (touch_account (ap_now app) did)))))) s0
      = Some (Inr (), s')"
    unfolding refresh_account_def by (subst (asm) ot_then_Inr) blast
  then obtain s1 where "ot_then (refresh_graph app token did) (\<lambda>_.
      ot_then (refresh_lists app token did) (\<lambda>_. ot_then (refresh_packs app token did) (\<lambda>_.
      total (on_db (touch_account (ap_now app) did))))) s1 = Some (Inr (), s')"
    by (subst (asm) ot_then_Inr) blast
  then obtain a s2 where g: "refresh_graph app token did s1 = Some (Inr a, s2)"
    and rest: "ot_then (refresh_lists app token did) (\<lambda>_. ot_then (refresh_packs app token did) (\<lambda>_.
        total (on_db (touch_account (ap_now app) did)))) s2 = Some (Inr (), s')"
    by (subst (asm) ot_then_Inr) blast
  have "relations (fst s') = relations (fst s2)"
    using opreservesD [OF after_graph_keeps _ rest] by simp
  with refresh_graph_flags [OF g] show ?thesis by (auto simp: flags_answered_def)
qed

text \<open>A call that fails is read as an empty answer: every flag of the account is cleared.\<close>

lemma refresh_graph_outage:
  assumes "refresh_graph app token did s = Some (r, s')"
    and "\<And>fr fs. follow_calls app token did (snd s) (fr, fs) \<Longrightarrow> \<not> is_ok fr \<and> \<not> is_ok fs"
  shows "r = Inr () \<and> (\<forall>x \<in> set (relations (fst s')). ar_account x = did \<longrightarrow>
    \<not> ar_is_follower x \<and> \<not> ar_is_followed_back x)"
proof -
  from refresh_graph_flags [OF assms(1)] obtain fr fs where r: "r = Inr ()"
    and c: "follow_calls app token did (snd s) (fr, fs)" and f: "flags_answered did fr fs (fst s')"
    by blast
  have "or_empty fr = []" "or_empty fs = []"
    using assms(2) [OF c] by (simp_all add: or_empty_def is_ok_def split: sum.splits)
  with r f show ?thesis by (simp add: flags_answered_def)
qed

end
