(* ===== verification/Worker.thy ===== *)
theory Worker
  imports Reconcile_Laws
begin

section \<open>The job worker (\<open>tasks/job_worker.rs\<close>)\<close>

text \<open>
  \<open>dispatch\<close> decodes a job's payload and runs its task, \<open>run_job\<close> turns the outcome into one statement
  on the queue, \<open>worker_pass\<close> is one turn of the polling loop. Whether the shutdown flag was up and
  the jitter of a retry are given per job. A job may not return (\<open>None\<close>): its paging calls may go on
  for ever.

  \<open>run_job_outcome\<close> is the fate of a job, \<open>exhausted_job_ends\<close> that retries are bounded, and
  \<open>pass_releases\<close> that a pass leaves none of its jobs locked.
\<close>

datatype job_error = Terminal string | Retry string

definition job_error_of :: "app_error \<Rightarrow> job_error" where
  "job_error_of e =
     (case e of
        RoleLinkNotFound \<Rightarrow> Terminal ''role link no longer exists upstream''
      | UserLimitReached limit \<Rightarrow>
          Terminal (''role link user limit reached ('' @ show_nat limit @ ''); retry won'' @ CHR 0x27 # ''t help'')
      | other \<Rightarrow> Retry (error_text other))"

definition map_err :: "('e \<Rightarrow> 'f) \<Rightarrow> ('s, 'e, 'a) otask \<Rightarrow> ('s, 'f, 'a) otask" where
  "map_err f m s = map_option (\<lambda>(r, s'). (case r of Inl e \<Rightarrow> Inl (f e) | Inr a \<Rightarrow> Inr a, s')) (m s)"

definition decode_player_payload :: "json \<Rightarrow> string option" where
  "decode_player_payload v =
     Option.bind (struct_members [''discord_id''] v) (\<lambda>ms. req as_str ms ''discord_id'')"

definition payload_text :: "job \<Rightarrow> string \<Rightarrow> string option" where
  "payload_text j k = Option.bind (json_get (j_payload j) k) as_str"

definition dispatch :: "'w app \<Rightarrow> job \<Rightarrow> (db \<times> 'w, job_error, unit) otask" where
  "dispatch app j =
     (case kind_from_db (j_kind j) of
        None \<Rightarrow> total (io_fail (Terminal (''unknown job kind '' @ CHR 0x27 # j_kind j @ [CHR 0x27])))
      | Some PlayerSync \<Rightarrow>
          (case decode_player_payload (j_payload j) of
             None \<Rightarrow> total (io_fail (Terminal
               (''invalid player_sync payload: '' @ cr_shape_error (ap_crates app) (j_payload j))))
           | Some discord_id \<Rightarrow> map_err job_error_of (total (sync_for_player app discord_id)))
      | Some ConfigSync \<Rightarrow>
          (case payload_text j ''guild_id'' of
             None \<Rightarrow> total (io_fail (Terminal ''config_sync missing guild_id''))
           | Some g \<Rightarrow>
               (case payload_text j ''role_id'' of
                  None \<Rightarrow> total (io_fail (Terminal ''config_sync missing role_id''))
                | Some r \<Rightarrow> map_err job_error_of (total (sync_for_role_link app g r))))
      | Some AccountSync \<Rightarrow>
          (case payload_text j ''bsky_account_did'' of
             None \<Rightarrow> total (io_fail (Terminal ''account_sync missing bsky_account_did''))
           | Some did \<Rightarrow> map_err job_error_of
               (ot_then (refresh_account app did) (\<lambda>_. total (sync_for_account app did)))))"

definition finish_job :: "'w app \<Rightarrow> int \<Rightarrow> job \<Rightarrow> job_error + unit \<Rightarrow> db \<Rightarrow> db" where
  "finish_job app jitter j r =
     (case r of
        Inr _ \<Rightarrow> complete (ap_now app) (j_id j)
      | Inl (Terminal msg) \<Rightarrow> fail_dead (ap_now app) (j_id j) msg
      | Inl (Retry msg) \<Rightarrow>
          if j_attempts j \<ge> j_max_attempts j then fail_dead (ap_now app) (j_id j) msg
          else fail_retry (ap_now app) jitter j msg)"

definition run_job :: "'w app \<Rightarrow> bool \<Rightarrow> int \<Rightarrow> job \<Rightarrow> db \<times> 'w \<Rightarrow> (db \<times> 'w) option" where
  "run_job app stopping jitter j s =
     (if stopping then Some (fail_retry (ap_now app) jitter j ''worker shutting down'' (fst s), snd s)
      else map_option (\<lambda>(r, s'). (finish_job app jitter j r (fst s'), snd s')) (dispatch app j s))"

fun run_jobs :: "'w app \<Rightarrow> (int \<Rightarrow> bool \<times> int) \<Rightarrow> job list \<Rightarrow> db \<times> 'w \<Rightarrow> (db \<times> 'w) option" where
  "run_jobs app turn [] s = Some s"
| "run_jobs app turn (j # js) s =
     Option.bind (run_job app (fst (turn (j_id j))) (snd (turn (j_id j))) j s) (run_jobs app turn js)"

definition batch_size :: nat where "batch_size = 8"
definition stuck_lock_secs :: int where "stuck_lock_secs = 60 * 45"

definition worker_pass ::
  "'w app \<Rightarrow> string \<Rightarrow> bool \<Rightarrow> (int \<Rightarrow> bool) \<Rightarrow> (int \<Rightarrow> bool \<times> int) \<Rightarrow> db \<times> 'w \<Rightarrow> (db \<times> 'w) option"
where
  "worker_pass app worker_id reap_due skip turn s =
     (let d = (if reap_due then snd (reap_stuck (ap_now app) stuck_lock_secs (fst s)) else fst s);
          (claimed, d') = claim_batch (ap_now app) skip worker_id batch_size d
      in run_jobs app turn claimed (d', snd s))"

subsection \<open>What the tasks do to the queue\<close>

text \<open>A property of the table that survives new pending rows survives every task.\<close>

definition pending_closed :: "(job list \<Rightarrow> bool) \<Rightarrow> bool" where
  "pending_closed Q \<longleftrightarrow> (\<forall>js j. Q js \<longrightarrow> j_status j = Pending \<longrightarrow> Q (js @ [j]))"

lemma enqueue_closed: "pending_closed Q \<Longrightarrow> Q (jobs d) \<Longrightarrow> Q (jobs (enqueue now k p s d))"
  by (simp add: pending_closed_def enqueue_def new_job_def)

lemma role_link_write_closed:
  "role_link_write app g r d d' \<Longrightarrow> pending_closed Q \<Longrightarrow> Q (jobs d) \<Longrightarrow> Q (jobs d')"
  by (auto simp: role_link_write_def pending_closed_def enqueue_config_sync_unless_queued_def new_job_def
      delete_orphan_role_link_def delete_links_def clear_assignments_def replace_assignments_def Let_def)

lemma perform_action_jobs: "jobs (fst (perform_action app u a st)) = jobs (fst st)"
  by (cases a)
    (auto simp: insert_assignment_def delete_assignment_def delete_orphan_role_link_def delete_links_def
      split: prod.splits sum.splits app_error.splits)

lemma player_sync_jobs: "jobs (fst (snd (sync_for_player app u st))) = jobs (fst st)"
proof -
  have acts: "jobs (fst (foldl (\<lambda>st a. perform_action app u a st) st as)) = jobs (fst st)" for as st
    by (induction as arbitrary: st) (simp_all add: perform_action_jobs)
  have ins: "jobs (foldl (\<lambda>d a. insert_relation now a v d) d as) = jobs d" for now v d as
    by (induction as arbitrary: d) (simp_all add: insert_relation_def)
  show ?thesis
    by (cases "fetch_user_guild_ids app u (snd st)")
      (auto simp: sync_for_player_def io_then_def on_world_def acts ins ensure_baseline_relations_def
        split: sum.split option.split)
qed

lemma account_fan_out_closed:
  "pending_closed Q \<Longrightarrow> Q (jobs d) \<Longrightarrow>
   Q (jobs (foldl (\<lambda>d l. enqueue_config_sync now (rl_guild l) (rl_role l) d) d ls))"
  by (induction ls arbitrary: d) (simp_all add: enqueue_closed enqueue_config_sync_def)

lemma map_err_Some: "map_err f m s = Some (r, s') \<Longrightarrow> \<exists>r0. m s = Some (r0, s')"
  by (auto simp: map_err_def)

lemma map_err_total: "map_err f (total m) s = Some (r, s') \<Longrightarrow> s' = snd (m s)"
  by (auto simp: map_err_def total_def split: prod.splits)

lemma dispatch_cases:
  assumes "dispatch app j s = Some (r, s')"
  obtains (failed) "s' = s"
  | (player) u where "s' = snd (sync_for_player app u s)" "decode_player_payload (j_payload j) = Some u"
  | (role_link) g r where "s' = snd (sync_for_role_link app g r s)"
  | (account) did x where
      "ot_then (refresh_account app did) (\<lambda>_. total (sync_for_account app did)) s = Some (x, s')"
proof (cases "kind_from_db (j_kind j)")
  case None
  with assms failed show ?thesis by (simp add: dispatch_def)
next
  case (Some k)
  show ?thesis
  proof (cases k)
    case PlayerSync
    with Some assms failed player show ?thesis
      by (auto simp: dispatch_def split: option.splits dest: map_err_total)
  next
    case ConfigSync
    with Some assms failed role_link show ?thesis
      by (auto simp: dispatch_def split: option.splits dest: map_err_total)
  next
    case AccountSync
    with Some assms failed account show ?thesis
      by (auto simp: dispatch_def split: option.splits dest!: map_err_Some)
  qed
qed

lemma dispatch_closed:
  assumes run: "dispatch app j s = Some (r, s')" and ok: "db_ok (fst s)"
    and Q: "pending_closed Q" "Q (jobs (fst s))"
  shows "Q (jobs (fst s'))"
  using run
proof (cases rule: dispatch_cases)
  case failed
  with Q show ?thesis by simp
next
  case (player u)
  with Q show ?thesis by (simp add: player_sync_jobs)
next
  case (role_link g r)
  with role_link_step [OF ok surjective_pairing, of app g r] role_link_write_closed [OF _ Q]
  show ?thesis by blast
next
  case (account did x)
  then obtain y s1 where y: "refresh_account app did s = Some (y, s1)"
    by (auto simp: ot_then_def split: option.splits)
  have "Q (jobs (fst s1))" using refresh_account_jobs [OF y] Q by simp
  then show ?thesis
    using account y account_fan_out_closed [OF Q(1)]
    by (auto simp: ot_then_def total_def sync_for_account_def split: sum.splits)
qed

subsection \<open>The constraints\<close>

lemma same_queue_ok:
  "queue_ok d \<Longrightarrow> jobs d' = jobs d \<Longrightarrow> next_job_id d' = next_job_id d \<Longrightarrow> queue_ok d'"
  by (simp add: queue_ok_def)

lemma perform_action_next: "next_job_id (fst (perform_action app u a st)) = next_job_id (fst st)"
  by (cases a)
    (auto simp: insert_assignment_def delete_assignment_def delete_orphan_role_link_def delete_links_def
      split: prod.splits sum.splits app_error.splits)

lemma player_sync_next: "next_job_id (fst (snd (sync_for_player app u st))) = next_job_id (fst st)"
proof -
  have acts: "next_job_id (fst (foldl (\<lambda>st a. perform_action app u a st) st as)) = next_job_id (fst st)" for as st
    by (induction as arbitrary: st) (simp_all add: perform_action_next)
  have ins: "next_job_id (foldl (\<lambda>d a. insert_relation now a v d) d as) = next_job_id d" for now v d as
    by (induction as arbitrary: d) (simp_all add: insert_relation_def)
  show ?thesis
    by (cases "fetch_user_guild_ids app u (snd st)")
      (auto simp: sync_for_player_def io_then_def on_world_def acts ins ensure_baseline_relations_def
        split: sum.split option.split)
qed

lemma player_sync_full: "full_ok (fst st) \<Longrightarrow> full_ok (fst (snd (sync_for_player app u st)))"
  unfolding full_ok_def
  using player_sync_ok same_queue_ok [OF _ player_sync_jobs player_sync_next] by blast

lemma account_fan_out_full: "full_ok (fst st) \<Longrightarrow> full_ok (fst (snd (sync_for_account app did st)))"
proof -
  have "full_ok d \<Longrightarrow> full_ok (foldl (\<lambda>d l. enqueue_config_sync now (rl_guild l) (rl_role l) d) d ls)"
    for now d ls
    by (induction ls arbitrary: d) (simp_all add: enqueue_ok enqueue_config_sync_def)
  then show "full_ok (fst st) \<Longrightarrow> full_ok (fst (snd (sync_for_account app did st)))"
    by (simp add: sync_for_account_def)
qed

lemma refresh_account_full:
  assumes "full_ok (fst s)" "refresh_account app did s = Some (r, s')" shows "full_ok (fst s')"
  using assms opreservesD [OF refresh_account_keeps _ assms(2)] refresh_account_jobs [OF assms(2)]
    same_queue_ok
  by (auto simp: full_ok_def)

lemma account_task_full:
  assumes ok: "full_ok (fst s)"
    and t: "ot_then (refresh_account app did) (\<lambda>_. total (sync_for_account app did)) s = Some (r, s')"
  shows "full_ok (fst s')"
proof -
  from t obtain x s1 where x: "refresh_account app did s = Some (x, s1)"
    by (auto simp: ot_then_def split: option.splits)
  with ok have "full_ok (fst s1)" by (rule refresh_account_full)
  with t x account_fan_out_full [of s1 app did] show ?thesis
    by (auto simp: ot_then_def total_def split: sum.splits)
qed

lemma dispatch_full:
  assumes ok: "full_ok (fst s)" and run: "dispatch app j s = Some (r, s')"
  shows "full_ok (fst s')"
  using run
  by (cases rule: dispatch_cases)
    (use ok player_sync_full [OF ok] sync_role_link_ok [OF ok] account_task_full [OF ok] in blast)+

lemma job_update_full:
  "full_ok d \<Longrightarrow> queue_ok (d\<lparr>jobs := js\<rparr>) \<Longrightarrow> full_ok (d\<lparr>jobs := js\<rparr>)"
  by (simp add: full_ok_def db_ok_def keys_ok_def refs_ok_def queue_ok_def)

lemma complete_full: "full_ok d \<Longrightarrow> full_ok (complete now i d)"
  using complete_queue_ok [of d now i] job_update_full unfolding complete_def by (simp add: full_ok_def)

lemma retry_full: "full_ok d \<Longrightarrow> full_ok (fail_retry now jitter job err d)"
  using retry_queue_ok [of d now jitter job err] job_update_full unfolding fail_retry_def
  by (simp add: full_ok_def)

lemma dead_full: "full_ok d \<Longrightarrow> full_ok (fail_dead now i err d)"
  using dead_queue_ok [of d now i err] job_update_full unfolding fail_dead_def by (simp add: full_ok_def)

lemma reap_full: "full_ok d \<Longrightarrow> full_ok (snd (reap_stuck now limit d))"
  using reap_queue_ok [of d now limit] job_update_full unfolding reap_stuck_def by (simp add: full_ok_def)

lemma claim_full: "full_ok d \<Longrightarrow> full_ok (snd (claim_batch now skip worker n d))"
  using claim_queue_ok [of d now skip worker n] job_update_full unfolding claim_batch_def Let_def
  by (simp add: full_ok_def)

lemmas queue_full = complete_full retry_full dead_full reap_full claim_full

lemma finish_full: "full_ok d \<Longrightarrow> full_ok (finish_job app jitter j r d)"
  by (auto simp: finish_job_def queue_full split: sum.split job_error.split)

lemma run_job_full:
  "full_ok (fst s) \<Longrightarrow> run_job app stopping jitter j s = Some s' \<Longrightarrow> full_ok (fst s')"
  by (auto simp: run_job_def queue_full split: if_splits intro!: finish_full dest: dispatch_full [rotated])

lemma run_jobs_full: "full_ok (fst s) \<Longrightarrow> run_jobs app turn js s = Some s' \<Longrightarrow> full_ok (fst s')"
proof (induction js arbitrary: s)
  case (Cons j js)
  from Cons.prems(2) obtain s1 where
    "run_job app (fst (turn (j_id j))) (snd (turn (j_id j))) j s = Some s1"
    "run_jobs app turn js s1 = Some s'" by (auto simp: bind_eq_Some_conv simp del: split_paired_Ex)
  with Cons.IH run_job_full Cons.prems(1) show ?case by blast
qed simp

lemma worker_pass_full:
  assumes "full_ok (fst s)" "worker_pass app w reap_due skip turn s = Some s'" shows "full_ok (fst s')"
proof -
  let ?d = "if reap_due then snd (reap_stuck (ap_now app) stuck_lock_secs (fst s)) else fst s"
  obtain js d' where c: "claim_batch (ap_now app) skip w batch_size ?d = (js, d')" by (rule prod.exhaust)
  have "full_ok ?d" using assms(1) by (simp add: reap_full)
  from claim_full [OF this, of "ap_now app" skip w batch_size] c have "full_ok d'" by simp
  moreover have "run_jobs app turn js (d', snd s) = Some s'"
    using assms(2) c by (simp add: worker_pass_def Let_def split: if_splits)
  ultimately show ?thesis using run_jobs_full [of "(d', snd s)"] by simp
qed

subsection \<open>The fate of a job\<close>

lemma complete_ends:
  "row \<in> set (jobs (complete now i d)) \<Longrightarrow> j_id row = i \<Longrightarrow> j_status row = Completed"
  by (simp add: complete_def) (erule update_whereE; simp)

lemma dead_ends:
  "row \<in> set (jobs (fail_dead now i err d)) \<Longrightarrow> j_id row = i \<Longrightarrow>
     j_status row = Dead \<and> j_last_error row = Some err"
  by (simp add: fail_dead_def) (erule update_whereE; simp)

lemma retry_ends:
  "row \<in> set (jobs (fail_retry now jitter j err d)) \<Longrightarrow> j_id row = j_id j \<Longrightarrow>
     j_status row = Pending \<and> j_last_error row = Some err"
  by (simp add: fail_retry_def) (erule update_whereE; simp)

definition outcome_status :: "job \<Rightarrow> job_error + unit \<Rightarrow> job_status" where
  "outcome_status j r =
     (case r of
        Inr _ \<Rightarrow> Completed
      | Inl (Terminal _) \<Rightarrow> Dead
      | Inl (Retry _) \<Rightarrow> if j_attempts j \<ge> j_max_attempts j then Dead else Pending)"

lemma finish_status:
  "row \<in> set (jobs (finish_job app jitter j r d)) \<Longrightarrow> j_id row = j_id j \<Longrightarrow>
     j_status row = outcome_status j r"
  by (auto simp: finish_job_def outcome_status_def split: sum.splits job_error.splits if_splits
      dest: complete_ends dead_ends retry_ends)

lemma run_job_outcome:
  assumes "run_job app False jitter j s = Some s'"
  shows "\<exists>r s1. dispatch app j s = Some (r, s1) \<and>
    (\<forall>row \<in> set (jobs (fst s')). j_id row = j_id j \<longrightarrow> j_status row = outcome_status j r)"
  using assms by (auto simp: run_job_def finish_status)

lemma exhausted_job_ends:
  assumes "run_job app False jitter j s = Some s'" "j_attempts j \<ge> j_max_attempts j"
    and "row \<in> set (jobs (fst s'))" "j_id row = j_id j"
  shows "j_status row \<in> {Completed, Dead}"
  using run_job_outcome [OF assms(1)] assms(2-4)
  by (fastforce simp: outcome_status_def split: sum.splits job_error.splits)

text \<open>Whatever row is still locked after a pass was locked, just so, before it.\<close>

definition locked_within :: "job set \<Rightarrow> int set \<Rightarrow> job list \<Rightarrow> bool" where
  "locked_within L I js \<longleftrightarrow> (\<forall>row \<in> set js. j_status row = InProgress \<longrightarrow> row \<in> L \<or> j_id row \<in> I)"

lemma locked_closed: "pending_closed (locked_within L I)"
  by (auto simp: pending_closed_def locked_within_def)

lemma update_locked:
  assumes "locked_within L I rows" "\<And>r. j_status (f r) \<noteq> InProgress"
  shows "locked_within L (I - {i}) (update_where (\<lambda>r. j_id r = i) f rows)"
  unfolding locked_within_def
proof (intro ballI impI)
  fix row
  assume row: "row \<in> set (update_where (\<lambda>r. j_id r = i) f rows)" and st: "j_status row = InProgress"
  from row show "row \<in> L \<or> j_id row \<in> I - {i}"
  proof (cases rule: update_whereE)
    case (hit r0)
    with assms(2) [of r0] st show ?thesis by simp
  next
    case miss
    with assms(1) st show ?thesis by (auto simp: locked_within_def)
  qed
qed

lemma finish_locked:
  "locked_within L I (jobs d) \<Longrightarrow> locked_within L (I - {j_id j}) (jobs (finish_job app jitter j r d))"
  by (auto simp: finish_job_def complete_def fail_dead_def fail_retry_def update_locked
      split: sum.split job_error.split)

lemma run_job_locked:
  assumes "run_job app stopping jitter j s = Some s'" "db_ok (fst s)" "locked_within L I (jobs (fst s))"
  shows "locked_within L (I - {j_id j}) (jobs (fst s'))"
proof (cases stopping)
  case True
  with assms show ?thesis by (auto simp: run_job_def fail_retry_def update_locked)
next
  case False
  with assms(1) obtain r s1 where "dispatch app j s = Some (r, s1)"
    "fst s' = finish_job app jitter j r (fst s1)" by (auto simp: run_job_def)
  moreover from this have "locked_within L I (jobs (fst s1))"
    using dispatch_closed [OF _ assms(2) locked_closed assms(3)] by blast
  ultimately show ?thesis using finish_locked by simp
qed

lemma run_jobs_locked:
  "run_jobs app turn js s = Some s' \<Longrightarrow> full_ok (fst s) \<Longrightarrow> locked_within L (I \<union> j_id ` set js) (jobs (fst s)) \<Longrightarrow>
   locked_within L I (jobs (fst s'))"
proof (induction js arbitrary: s)
  case (Cons j js)
  from Cons.prems(1) obtain s1 where s1:
    "run_job app (fst (turn (j_id j))) (snd (turn (j_id j))) j s = Some s1"
    "run_jobs app turn js s1 = Some s'" by (auto simp: bind_eq_Some_conv simp del: split_paired_Ex)
  have "locked_within L (I \<union> j_id ` set (j # js) - {j_id j}) (jobs (fst s1))"
    using run_job_locked [OF s1(1) _ Cons.prems(3)] Cons.prems(2) by (simp add: full_ok_def)
  then have "locked_within L (I \<union> j_id ` set js) (jobs (fst s1))"
    by (auto simp: locked_within_def)
  with Cons.IH s1(2) run_job_full [OF Cons.prems(2) s1(1)] show ?case by blast
qed simp

lemma pass_releases:
  assumes ok: "full_ok (fst s)" and run: "worker_pass app w reap_due skip turn s = Some s'"
    and row: "row \<in> set (jobs (fst s'))" "j_status row = InProgress"
  shows "row \<in> set (jobs (fst s))"
proof -
  let ?d = "if reap_due then snd (reap_stuck (ap_now app) stuck_lock_secs (fst s)) else fst s"
  obtain js d' where c: "claim_batch (ap_now app) skip w batch_size ?d = (js, d')" by (rule prod.exhaust)
  have okd: "full_ok ?d" using ok by (simp add: reap_full)
  from claim_full [OF okd, of "ap_now app" skip w batch_size] c have ok': "full_ok d'" by simp
  have r: "run_jobs app turn js (d', snd s) = Some s'"
    using run c by (simp add: worker_pass_def Let_def split: if_splits)
  have before: "locked_within (set (jobs (fst s))) {} (jobs ?d)"
    by (auto simp: locked_within_def reap_stuck_def elim!: update_whereE)
  have "locked_within (set (jobs (fst s))) (j_id ` set js) (jobs d')"
    unfolding locked_within_def
  proof (intro ballI impI)
    fix x
    assume x: "x \<in> set (jobs d')" "j_status x = InProgress"
    let ?ids = "claim_ids (ap_now app) skip batch_size ?d"
    have rows: "jobs d' = update_where (\<lambda>j. j_id j \<in> set ?ids) (claim_row (ap_now app) w) (jobs ?d)"
      "js = filter (\<lambda>j. j_id j \<in> set ?ids) (jobs d')"
      using c by (auto simp: claim_batch_def Let_def)
    show "x \<in> set (jobs (fst s)) \<or> j_id x \<in> j_id ` set js"
    proof (cases "j_id x \<in> set ?ids")
      case True
      with x rows(2) show ?thesis by simp
    next
      case False
      have "x \<in> set (update_where (\<lambda>j. j_id j \<in> set ?ids) (claim_row (ap_now app) w) (jobs ?d))"
        using x(1) unfolding rows(1) .
      then have "x \<in> set (jobs ?d)" using False
        by (elim update_whereE [of x "\<lambda>j. j_id j \<in> set ?ids"]) (simp_all add: claim_row_def)
      then show ?thesis using before x(2) by (auto simp: locked_within_def)
    qed
  qed
  from run_jobs_locked [OF r _ , of "set (jobs (fst s))" "{}"] this ok' row show ?thesis
    by (auto simp: locked_within_def)
qed

lemma config_job_returns:
  assumes "kind_from_db (j_kind j) = Some ConfigSync"
    and "payload_text j ''guild_id'' = Some g" "payload_text j ''role_id'' = Some r"
  shows "\<exists>s'. run_job app False jitter j s = Some s'"
  using assms by (simp add: run_job_def dispatch_def map_err_def total_def)

end
