(* ===== verification/Token_Laws.thy ===== *)
theory Token_Laws
  imports Tokens
begin

section \<open>What the tokens guarantee\<close>

text \<open>
  \<open>mac_token\<close> is the contract of a tagged token, \<open>mac_token_pair\<close> that of two token formats under one
  key whose payloads never coincide. The editor's session and the gateway's cookie are the two
  instances; their pair is the domain separation that the \<open>ifs:\<close> format relies on. \<open>verify_claims\<close>
  lists what an accepted JWT has been checked for.
\<close>

locale mac_token =
  fixes split_tag :: "string \<Rightarrow> (string \<times> string) option"
    and mac :: "string \<Rightarrow> string"
    and claims :: "string \<Rightarrow> 'c option"
    and accept :: "string \<Rightarrow> 'c option"
  assumes accept_sound:
    "accept t = Some c \<Longrightarrow> \<exists>p. split_tag t = Some (p, mac p) \<and> claims p = Some c"
begin

lemma accepted_tag: "accept t = Some c \<Longrightarrow> split_tag t = Some (p, s) \<Longrightarrow> s = mac p \<and> claims p = Some c"
  by (drule accept_sound) auto

lemma same_payload_same_claims:
  "accept t = Some c \<Longrightarrow> accept t' = Some c' \<Longrightarrow>
   split_tag t = Some (p, s) \<Longrightarrow> split_tag t' = Some (p, s') \<Longrightarrow> c = c' \<and> s = s'"
  by (drule (1) accepted_tag, drule (1) accepted_tag) simp

text \<open>A tag moved to other claims is a collision of the MAC.\<close>

lemma transplant_collides:
  "accept t = Some c \<Longrightarrow> accept t' = Some c' \<Longrightarrow> c \<noteq> c' \<Longrightarrow>
   split_tag t = Some (p, s) \<Longrightarrow> split_tag t' = Some (p', s) \<Longrightarrow> p \<noteq> p' \<and> mac p = mac p'"
  by (drule (1) accepted_tag, drule (1) accepted_tag) auto

text \<open>If the caller can only produce tags that were issued, the claims were issued too.\<close>

lemma accepted_was_issued:
  "accept t = Some c \<Longrightarrow> (\<And>p. split_tag t = Some (p, mac p) \<Longrightarrow> p \<in> issued) \<Longrightarrow>
   \<exists>p \<in> issued. claims p = Some c"
  using accept_sound by blast

end

locale mac_token_pair =
  a: mac_token split_a mac claims_a accept_a + b: mac_token split_b mac claims_b accept_b
  for split_a mac and claims_a :: "string \<Rightarrow> 'a option" and accept_a
    and split_b and claims_b :: "string \<Rightarrow> 'b option" and accept_b +
  assumes domains_disjoint: "claims_a p \<noteq> None \<Longrightarrow> claims_b p = None"
begin

lemma cross_domain_collides:
  "accept_a t = Some c \<Longrightarrow> accept_b t' = Some c' \<Longrightarrow>
   split_a t = Some (p, s) \<Longrightarrow> split_b t' = Some (p', s) \<Longrightarrow> p \<noteq> p' \<and> mac p = mac p'"
  by (insert domains_disjoint [of p], drule (1) a.accepted_tag, drule (1) b.accepted_tag) auto

end

subsection \<open>Splitting payloads\<close>

lemma split_all_single: "sep \<notin> set a \<Longrightarrow> split_all sep a = [a]"
  by (induction a) auto

lemma split_all_append: "sep \<notin> set a \<Longrightarrow> split_all sep (a @ sep # b) = a # split_all sep b"
  by (induction a) auto

lemma splitn_append: "sep \<notin> set a \<Longrightarrow> splitn (Suc (Suc n)) sep (a @ sep # b) = a # splitn (Suc n) sep b"
  by simp

definition iframe_split :: "string \<Rightarrow> (string \<times> string) option" where
  "iframe_split t =
     (case strip_prefix iframe_prefix t of
        None \<Rightarrow> None
      | Some rest \<Rightarrow>
          (case splitn 6 colon rest of
             [did, g, r, ro, e, sig] \<Rightarrow> Some (iframe_payload did g r ro e, sig)
           | _ \<Rightarrow> None))"

definition iframe_claims :: "string \<Rightarrow> iframe_session option" where
  "iframe_claims p =
     (case split_all colon p of
        [did, g, r, ro, e] \<Rightarrow>
          map_option (\<lambda>b. \<lparr>if_discord_id = did, if_guild = g, if_role = r, if_read_only = b\<rparr>) (ro_flag ro)
      | _ \<Rightarrow> None)"

definition cookie_split :: "string \<Rightarrow> (string \<times> string) option" where
  "cookie_split t =
     (case splitn 4 colon t of
        [did, name, e, sig] \<Rightarrow> Some (cookie_payload did name e, sig)
      | _ \<Rightarrow> None)"

definition cookie_claims :: "crates \<Rightarrow> string \<Rightarrow> (string \<times> string) option" where
  "cookie_claims cr p =
     (case split_all colon p of
        [did, name, e] \<Rightarrow> map_option (\<lambda>n. (did, n)) (cr_url_decode cr name)
      | _ \<Rightarrow> None)"

lemma iframe_claims_payload:
  "colon \<notin> set did \<Longrightarrow> colon \<notin> set g \<Longrightarrow> colon \<notin> set r \<Longrightarrow> colon \<notin> set ro \<Longrightarrow> colon \<notin> set e \<Longrightarrow>
   iframe_claims (iframe_payload did g r ro e) =
     map_option (\<lambda>b. \<lparr>if_discord_id = did, if_guild = g, if_role = r, if_read_only = b\<rparr>) (ro_flag ro)"
  by (simp add: iframe_claims_def iframe_payload_def split_all_append split_all_single)

lemma cookie_claims_payload:
  "colon \<notin> set did \<Longrightarrow> colon \<notin> set name \<Longrightarrow> colon \<notin> set e \<Longrightarrow>
   cookie_claims cr (cookie_payload did name e) = map_option (\<lambda>n. (did, n)) (cr_url_decode cr name)"
  by (simp add: cookie_claims_def cookie_payload_def split_all_append split_all_single)

lemma verify_iframe_Some:
  assumes "verify_iframe_session cr now t secret = Some s"
  obtains did g r ro b e n where
    "strip_prefix iframe_prefix t = Some (iframe_payload did g r ro e @ colon #
       cr_hmac_hex cr secret (iframe_payload did g r ro e))"
    "splitn 6 colon (iframe_payload did g r ro e @ colon # cr_hmac_hex cr secret (iframe_payload did g r ro e))
       = [did, g, r, ro, e, cr_hmac_hex cr secret (iframe_payload did g r ro e)]"
    "colon \<notin> set did" "colon \<notin> set g" "colon \<notin> set r" "colon \<notin> set ro" "colon \<notin> set e"
    "ro_flag ro = Some b" "parse_i64 e = Some n" "now \<le> n"
    "s = \<lparr>if_discord_id = did, if_guild = g, if_role = r, if_read_only = b\<rparr>"
proof -
  obtain rest did g r ro e sig b n where rest: "strip_prefix iframe_prefix t = Some rest"
    and parts: "splitn 6 colon rest = [did, g, r, ro, e, sig]"
    and b: "ro_flag ro = Some b" and n: "parse_i64 e = Some n" "now \<le> n"
    and sig: "sig = cr_hmac_hex cr secret (iframe_payload did g r ro e)"
    and s: "s = \<lparr>if_discord_id = did, if_guild = g, if_role = r, if_read_only = b\<rparr>"
    using assms
    by (auto simp: verify_iframe_session_def constant_time_eq_iff split: option.splits list.splits if_splits)
  have clean: "colon \<notin> set p" if "p \<in> {did, g, r, ro, e}" for p
    using splitn_parts_clean [of p 6 colon rest] parts that by auto
  have "rest = iframe_payload did g r ro e @ colon # sig"
    using splitn_join [OF parts] by (simp add: iframe_payload_def)
  with rest parts b n sig s clean that show ?thesis by auto
qed

lemma verify_session_Some:
  assumes "verify_session cr now t secret = Some (did, name)"
  obtains enc e n where
    "splitn 4 colon t = [did, enc, e, cr_hmac_hex cr secret (cookie_payload did enc e)]"
    "t = cookie_payload did enc e @ colon # cr_hmac_hex cr secret (cookie_payload did enc e)"
    "colon \<notin> set did" "colon \<notin> set enc" "colon \<notin> set e"
    "parse_i64 e = Some n" "now \<le> n" "cr_url_decode cr enc = Some name"
proof -
  obtain enc e sig n where parts: "splitn 4 colon t = [did, enc, e, sig]"
    and n: "parse_i64 e = Some n" "now \<le> n"
    and sig: "sig = cr_hmac_hex cr secret (cookie_payload did enc e)"
    and name: "cr_url_decode cr enc = Some name"
    using assms
    by (auto simp: verify_session_def constant_time_eq_iff split: option.splits list.splits if_splits)
  have clean: "colon \<notin> set p" if "p \<in> {did, enc, e}" for p
    using splitn_parts_clean [of p 4 colon t] parts that by auto
  have "t = cookie_payload did enc e @ colon # sig"
    using splitn_join [OF parts] by (simp add: cookie_payload_def)
  with parts n sig name clean that show ?thesis by auto
qed

interpretation iframe: mac_token iframe_split "cr_hmac_hex cr secret" iframe_claims
  "\<lambda>t. verify_iframe_session cr now t secret" for cr secret now
proof
  fix t c
  assume "verify_iframe_session cr now t secret = Some c"
  then show "\<exists>p. iframe_split t = Some (p, cr_hmac_hex cr secret p) \<and> iframe_claims p = Some c"
    by (rule verify_iframe_Some) (auto simp: iframe_split_def iframe_claims_payload)
qed

interpretation cookie: mac_token cookie_split "cr_hmac_hex cr secret" "cookie_claims cr"
  "\<lambda>t. verify_session cr now t secret" for cr secret now
proof
  fix t c
  assume a: "verify_session cr now t secret = Some c"
  obtain did name where "c = (did, name)" by (cases c)
  with a show "\<exists>p. cookie_split t = Some (p, cr_hmac_hex cr secret p) \<and> cookie_claims cr p = Some c"
    by (auto simp: cookie_split_def cookie_claims_payload elim!: verify_session_Some)
qed

interpretation domains: mac_token_pair iframe_split "cr_hmac_hex cr secret" iframe_claims
  "\<lambda>t. verify_iframe_session cr now t secret" cookie_split "cookie_claims cr"
  "\<lambda>t. verify_session cr now t secret" for cr secret now
  by unfold_locales (auto simp: iframe_claims_def cookie_claims_def split: list.splits)

subsection \<open>Round trips\<close>

lemma mint_iframe_accepted:
  assumes "colon \<notin> set did" "colon \<notin> set g" "colon \<notin> set r"
    and "in_i64 (now + iframe_ttl_secs)" "later \<le> now + iframe_ttl_secs"
  shows "verify_iframe_session cr later (mint_iframe_session cr now did g r ro secret) secret =
    Some \<lparr>if_discord_id = did, if_guild = g, if_role = r, if_read_only = ro\<rparr>"
proof -
  have six: "(6 :: nat) = Suc (Suc (Suc (Suc (Suc (Suc 0)))))" by simp
  have flag: "ro_flag (if ro then ''1'' else ''0'') = Some ro" by (simp add: ro_flag_def)
  have clean: "colon \<notin> set (if ro then ''1'' else ''0'')" by simp
  show ?thesis
    using assms flag clean
    by (simp add: verify_iframe_session_def mint_iframe_session_def iframe_payload_def Let_def six
        i64_add_id parse_show_int constant_time_eq_iff)
qed

lemma mint_session_accepted:
  assumes "colon \<notin> set did" "colon \<notin> set (cr_url_encode cr name)"
    and "in_i64 expires" "now \<le> expires" "cr_url_decode cr (cr_url_encode cr name) = Some name"
  shows "verify_session cr now (mint_session cr did name expires secret) secret = Some (did, name)"
proof -
  have four: "(4 :: nat) = Suc (Suc (Suc (Suc 0)))" by simp
  show ?thesis
    using assms
    by (simp add: verify_session_def mint_session_def cookie_payload_def Let_def four
        parse_show_int constant_time_eq_iff)
qed

text \<open>A session never outlives its hour: what is accepted at \<open>later\<close> carries an expiry not before it.\<close>

lemma iframe_expired:
  assumes "colon \<notin> set did" "colon \<notin> set g" "colon \<notin> set r"
    and "in_i64 (now + iframe_ttl_secs)" "now + iframe_ttl_secs < later"
  shows "verify_iframe_session cr later (mint_iframe_session cr now did g r ro secret) secret = None"
proof -
  have six: "(6 :: nat) = Suc (Suc (Suc (Suc (Suc (Suc 0)))))" by simp
  have clean: "colon \<notin> set (if ro then ''1'' else ''0'')" by simp
  show ?thesis
    using assms clean
    by (simp add: verify_iframe_session_def mint_iframe_session_def iframe_payload_def Let_def six
        i64_add_id parse_show_int split: option.splits)
qed

subsection \<open>The JWT\<close>

text \<open>The payload segment of a token and what it decodes to.\<close>

definition jwt_claims_of :: "crates \<Rightarrow> string \<Rightarrow> jwt_claims option" where
  "jwt_claims_of cr payload_b64 =
     Option.bind (cr_b64_decode cr payload_b64) (\<lambda>bs.
       case parse_as cr decode_claims bs of Inl _ \<Rightarrow> None | Inr c \<Rightarrow> Some c)"

lemma from_slice_Inr: "from_slice cr dec bs = Inr x \<longleftrightarrow> parse_as cr dec bs = Inr x"
  by (simp add: from_slice_def split: sum.splits)

lemma verify_claims:
  assumes "verify cr now token key aud = Inr v"
  obtains h p sig c where
    "token = h @ CHR ''.'' # p @ CHR ''.'' # sig" "CHR ''.'' \<notin> set h" "CHR ''.'' \<notin> set p"
    "cr_b64_decode cr sig = Some (cr_hmac cr key (h @ CHR ''.'' # p))"
    "jwt_claims_of cr p = Some c"
    "cl_iss c = ''rolelogic''" "aud_matches (cl_aud c) aud"
    "now \<le> i64_add (cl_exp c) allowed_skew_secs"
    "v = \<lparr>v_discord_id = cl_sub c, v_guild = cl_guild c, v_role = cl_role c,
          v_read_only = cl_read_only c, v_actor = cl_act c\<rparr>"
proof -
  obtain h p sig where parts: "splitn 3 (CHR ''.'') token = [h, p, sig]"
    using assms by (auto simp: verify_def split: list.splits)
  have "token = h @ CHR ''.'' # p @ CHR ''.'' # sig"
    using splitn_join [OF parts] by simp
  moreover have "CHR ''.'' \<notin> set h" "CHR ''.'' \<notin> set p"
    using splitn_parts_clean [of _ 3 "CHR ''.''" token] parts by auto
  moreover obtain c where "cr_b64_decode cr sig = Some (cr_hmac cr key (h @ CHR ''.'' # p))"
    "jwt_claims_of cr p = Some c" "cl_iss c = ''rolelogic''" "aud_matches (cl_aud c) aud"
    "now \<le> i64_add (cl_exp c) allowed_skew_secs"
    "v = \<lparr>v_discord_id = cl_sub c, v_guild = cl_guild c, v_role = cl_role c,
          v_read_only = cl_read_only c, v_actor = cl_act c\<rparr>"
    using assms unfolding verify_def parts
    by (auto simp: jwt_claims_of_def from_slice_Inr result_simps)
  ultimately show ?thesis by (rule that)
qed

end
