(* ===== verification/Access.thy ===== *)
theory Access
  imports Gateway_Client Token_Laws
begin

section \<open>Who may do what (\<open>services/csrf.rs\<close>, \<open>services/auth.rs\<close>, the gates of \<open>routes/admin.rs\<close>)\<close>

text \<open>
  An incoming request is its textual headers and the value of the session cookie. Admin routes are
  entered with a Bearer session of the embedded editor or with the cookie; only the latter is exposed
  to cross-site requests, so the origin check \<open>csrf_unless_bearer\<close> applies to it alone.

  The lemmas say what each gate has checked when it lets a caller through. \<open>require_guild_admin\<close>
  forgets the read-only flag that \<open>require_role_config_access\<close> returns: \<open>guild_admin_read_only\<close>.
\<close>

record incoming =
  in_header :: "string \<Rightarrow> string option"
  in_cookie :: "string option"

definition session_key :: "'w app \<Rightarrow> string" where
  "session_key app = session_secret (ap_config app)"

definition verify_origin :: "incoming \<Rightarrow> string list \<Rightarrow> app_error + unit" where
  "verify_origin inc allowed =
     (case in_header inc ''origin'' of
        None \<Rightarrow> Inl (Forbidden ''State-changing requests must include an Origin header.'')
      | Some origin \<Rightarrow>
          if \<exists>a \<in> set allowed. trim_end_matches (CHR ''/'') origin = trim_end_matches (CHR ''/'') a
          then Inr ()
          else Inl (Forbidden (''Origin '' @ CHR 0x27 # origin @ CHR 0x27
                      # '' is not allowed for state-changing requests.'')))"

definition extract_bearer :: "incoming \<Rightarrow> string option" where
  "extract_bearer inc = Option.bind (in_header inc ''authorization'') (strip_prefix ''Bearer '')"

definition csrf_unless_bearer :: "'w app \<Rightarrow> incoming \<Rightarrow> app_error + unit" where
  "csrf_unless_bearer app inc =
     (if extract_bearer inc = None then verify_origin inc (allowed_origins (ap_config app)) else Inr ())"

definition read_session :: "'w app \<Rightarrow> incoming \<Rightarrow> app_error + (string \<times> string)" where
  "read_session app inc =
     (case in_cookie inc of
        None \<Rightarrow> Inl (UnauthorizedWith ''Not signed in. Log in with Discord to continue.'')
      | Some c \<Rightarrow>
          ok_or (verify_session (ap_crates app) (now_secs app) c (session_key app))
            (UnauthorizedWith ''Session expired or invalid.''))"

definition classify_gateway_status :: "'w app \<Rightarrow> response \<Rightarrow> app_error" where
  "classify_gateway_status app resp =
     (if rs_status resp = 401 then
        UnauthorizedWith (''The Auth Gateway rejected your session (''
          @ cr_status_text (ap_crates app) (rs_status resp) @ ''). Please sign in again.'')
      else Internal (''Auth Gateway at '' @ auth_gateway_url (ap_config app) @ '' returned ''
             @ cr_status_text (ap_crates app) (rs_status resp) @ '': '' @ rs_body resp))"

definition cookie_header :: "'w app \<Rightarrow> incoming \<Rightarrow> string" where
  "cookie_header app inc =
     (case in_cookie inc of None \<Rightarrow> [] | Some v \<Rightarrow> cr_cookie (ap_crates app) v)"

text \<open>The cookie-carrying calls: \<open>what\<close> names the call in the error text.\<close>

definition gateway_call ::
  "'w app \<Rightarrow> incoming \<Rightarrow> string \<Rightarrow> string \<Rightarrow> (json \<Rightarrow> 'a option) \<Rightarrow> ('w, 'a) io"
where
  "gateway_call app inc what path dec =
     io_then (send_req app (\<lambda>e. Internal (''auth_gateway '' @ what @ '' request: '' @ e))
       \<lparr>rq_method = GET, rq_url = auth_gateway_url (ap_config app) @ path, rq_query = [],
        rq_headers = [(''Cookie'', cookie_header app inc)], rq_json = None\<rparr>) (\<lambda>resp.
     if \<not> is_success resp then io_fail (classify_gateway_status app resp)
     else io_lift (json_body app dec (\<lambda>e. Internal (''auth_gateway response not JSON: '' @ e)) resp))"

definition decode_permission :: "json \<Rightarrow> (bool \<times> bool) option" where
  "decode_permission v =
     Option.bind (struct_members [''is_member'', ''is_manager''] v) (\<lambda>ms.
     Option.bind (dflt as_bool False ms ''is_member'') (\<lambda>m.
     Option.bind (dflt as_bool False ms ''is_manager'') (\<lambda>a. Some (m, a))))"

definition permission_call :: "'w app \<Rightarrow> incoming \<Rightarrow> string \<Rightarrow> ('w, bool \<times> bool) io" where
  "permission_call app inc g =
     gateway_call app inc ''permission'' (''/auth/guild_permission?guild_id='' @ g) decode_permission"

definition require_manager :: "'w app \<Rightarrow> incoming \<Rightarrow> string \<Rightarrow> ('w, string) io" where
  "require_manager app inc g =
     io_then (io_lift (read_session app inc)) (\<lambda>(discord_id, _).
     io_then (permission_call app inc g) (\<lambda>(is_member, is_manager).
     if \<not> is_member then io_fail (Forbidden (''You'' @ CHR 0x27 # ''re not a member of this server.''))
     else if \<not> is_manager then io_fail (Forbidden ''You need Manage Server to do this.'')
     else io_return discord_id))"

definition session_expired :: app_error where
  "session_expired = UnauthorizedWith
     ''Your session expired. Reopen the plugin in the RoleLogic dashboard.''"

definition bearer_session :: "'w app \<Rightarrow> string \<Rightarrow> app_error + iframe_session" where
  "bearer_session app b =
     ok_or (verify_iframe_session (ap_crates app) (now_secs app) b (session_key app)) session_expired"

definition require_guild_admin :: "'w app \<Rightarrow> incoming \<Rightarrow> string \<Rightarrow> ('w, string) io" where
  "require_guild_admin app inc g =
     (case extract_bearer inc of
        Some b \<Rightarrow>
          io_then (io_lift (bearer_session app b)) (\<lambda>s.
          if if_guild s \<noteq> g then io_fail (Forbidden ''Token does not grant access to this server.'')
          else io_return (if_discord_id s))
      | None \<Rightarrow> require_manager app inc g)"

record guild_permission =
  gp_discord_id :: string
  gp_is_member :: bool
  gp_is_manager :: bool

definition guild_permission_of :: "'w app \<Rightarrow> incoming \<Rightarrow> string \<Rightarrow> ('w, guild_permission) io" where
  "guild_permission_of app inc g =
     io_then (io_lift (read_session app inc)) (\<lambda>(discord_id, _).
     io_then (permission_call app inc g) (\<lambda>(m, a).
     io_return \<lparr>gp_discord_id = discord_id, gp_is_member = m, gp_is_manager = a\<rparr>))"

definition decode_members_resp :: "json \<Rightarrow> (string list \<times> string option) option" where
  "decode_members_resp v =
     Option.bind (struct_members [''discord_ids'', ''guild_name''] v) (\<lambda>ms.
     Option.bind (dflt (sequence_of as_str) [] ms ''discord_ids'') (\<lambda>ids.
     Option.bind (opt_field as_str ms ''guild_name'') (\<lambda>n. Some (ids, n))))"

definition guild_members :: "'w app \<Rightarrow> incoming \<Rightarrow> string \<Rightarrow> ('w, string list \<times> string option) io" where
  "guild_members app inc g =
     io_then (io_lift (read_session app inc)) (\<lambda>_.
     gateway_call app inc ''members''
       (''/auth/guild_members?guild_id='' @ g @ ''&plugin=bluesky-account-role'') decode_members_resp)"

record role_config_access =
  rc_discord_id :: string
  rc_read_only :: bool

definition require_role_config_access ::
  "'w app \<Rightarrow> incoming \<Rightarrow> string \<Rightarrow> string \<Rightarrow> ('w, role_config_access) io"
where
  "require_role_config_access app inc g r =
     (case extract_bearer inc of
        Some b \<Rightarrow>
          io_then (io_lift (bearer_session app b)) (\<lambda>s.
          if if_guild s \<noteq> g \<or> if_role s \<noteq> r
          then io_fail (Forbidden ''Token does not grant access to this role link.'')
          else io_return \<lparr>rc_discord_id = if_discord_id s, rc_read_only = if_read_only s\<rparr>)
      | None \<Rightarrow>
          io_then (require_manager app inc g) (\<lambda>discord_id.
          io_return \<lparr>rc_discord_id = discord_id, rc_read_only = False\<rparr>))"

subsection \<open>What a gate has checked\<close>

lemma verify_origin_ok:
  "verify_origin inc allowed = Inr () \<longleftrightarrow>
   (\<exists>origin a. in_header inc ''origin'' = Some origin \<and> a \<in> set allowed \<and>
      trim_end_matches (CHR ''/'') origin = trim_end_matches (CHR ''/'') a)"
  by (auto simp: verify_origin_def split: option.splits)

lemma verify_origin_error: "verify_origin inc allowed = Inl e \<Longrightarrow> \<exists>m. e = Forbidden m"
  by (auto simp: verify_origin_def split: option.splits if_splits)

text \<open>The gateway confirmed that the holder of a valid cookie manages the server.\<close>

definition manager_of :: "'w app \<Rightarrow> incoming \<Rightarrow> string \<Rightarrow> string \<Rightarrow> 'w \<Rightarrow> bool" where
  "manager_of app inc g discord_id w \<longleftrightarrow>
     (\<exists>name. read_session app inc = Inr (discord_id, name)) \<and>
     (\<exists>w'. permission_call app inc g w = (Inr (True, True), w'))"

lemma require_manager_ok:
  "require_manager app inc g w = (Inr d, w') \<Longrightarrow> manager_of app inc g d w"
  by (force simp: require_manager_def io_then_Inr manager_of_def split: if_splits prod.splits)

definition bearer_for :: "'w app \<Rightarrow> incoming \<Rightarrow> iframe_session \<Rightarrow> bool" where
  "bearer_for app inc s \<longleftrightarrow>
     (\<exists>b. extract_bearer inc = Some b \<and>
        verify_iframe_session (ap_crates app) (now_secs app) b (session_key app) = Some s)"

lemma guild_admin_ok:
  assumes "require_guild_admin app inc g w = (Inr d, w')"
  shows "(\<exists>s. bearer_for app inc s \<and> if_guild s = g \<and> if_discord_id s = d)
    \<or> extract_bearer inc = None \<and> manager_of app inc g d w"
proof (cases "extract_bearer inc")
  case None
  with assms show ?thesis by (auto simp: require_guild_admin_def dest: require_manager_ok)
next
  case (Some b)
  with assms show ?thesis
    by (auto simp: require_guild_admin_def bearer_session_def bearer_for_def io_then_Inr ok_or_Inr_iff
        split: if_splits)
qed

lemma role_access_ok:
  assumes "require_role_config_access app inc g r w = (Inr a, w')"
  shows "(\<exists>s. bearer_for app inc s \<and> if_guild s = g \<and> if_role s = r \<and>
            a = \<lparr>rc_discord_id = if_discord_id s, rc_read_only = if_read_only s\<rparr>)
    \<or> extract_bearer inc = None \<and> \<not> rc_read_only a \<and> manager_of app inc g (rc_discord_id a) w"
proof (cases "extract_bearer inc")
  case None
  with assms show ?thesis
    by (auto simp: require_role_config_access_def io_then_Inr dest: require_manager_ok)
next
  case (Some b)
  with assms show ?thesis
    by (auto simp: require_role_config_access_def bearer_session_def bearer_for_def io_then_Inr
        ok_or_Inr_iff split: if_splits)
qed

text \<open>
  Whatever a gate accepts as a Bearer session carries the plugin's own tag over a payload naming the
  very server and role.
\<close>

lemma bearer_for_tag:
  assumes "bearer_for app inc s"
  shows "\<exists>b p. extract_bearer inc = Some b \<and>
    iframe_split b = Some (p, cr_hmac_hex (ap_crates app) (session_key app) p) \<and> iframe_claims p = Some s"
  using assms iframe.accept_sound by (force simp: bearer_for_def)

text \<open>A read-only session passes the server-wide gate as if it could write.\<close>

lemma guild_admin_read_only:
  "bearer_for app inc s \<Longrightarrow> if_guild s = g \<Longrightarrow> require_guild_admin app inc g w = (Inr (if_discord_id s), w)"
  by (auto simp: bearer_for_def require_guild_admin_def bearer_session_def io_then_def)

end
