(* ===== verification/Routes_Plugin.thy ===== *)
theory Routes_Plugin
  imports Access Sync_Laws
begin

section \<open>The plugin contract of RoleLogic (\<open>routes/plugin.rs\<close>, \<open>schema.rs\<close>)\<close>

text \<open>
  RoleLogic calls these four routes with the token of a role link in the \<open>authorization\<close> header.
  A handler is a task on the database and the outside world; bodies arrive decoded.

  \<open>register_lookup\<close>: a registration is found afterwards with its new token and keeps the rule of an
  earlier one. \<open>wrong_token_reads_nothing\<close>: a token that is not the link's opens none of the routes and
  changes nothing. \<open>delete_config_removes\<close>: a deletion takes the link and its mirror, and only them.
\<close>

definition success_json :: json where
  "success_json = JObj [(''success'', JBool True)]"

definition json_of_nat :: "nat \<Rightarrow> json" where
  "json_of_nat n = json_of_i64 (int n)"

definition json_opt :: "('a \<Rightarrow> json) \<Rightarrow> 'a option \<Rightarrow> json" where
  "json_opt f x = (case x of None \<Rightarrow> JNull | Some v \<Rightarrow> f v)"

definition extract_token :: "incoming \<Rightarrow> app_error + string" where
  "extract_token inc =
     and_then (ok_or (in_header inc ''authorization'') Unauthorized) (\<lambda>auth.
     ok_or (strip_prefix ''Token '' auth) Unauthorized)"

definition build_iframe_config :: "string \<Rightarrow> string \<Rightarrow> string \<Rightarrow> json" where
  "build_iframe_config base g r = JObj
     [(''version'', json_of_i64 1), (''ui_mode'', JStr ''iframe''),
      (''name'', JStr ''Bluesky Account Role''),
      (''description'', JStr (''Grant Discord roles based on a member'' @ CHR 0x27
         # ''s relationship to a Bluesky account '' @ em_dash
         @ '' followers, mutuals, list / starter-pack members, post engagement, and richer account properties.'')),
      (''embed_url'', JStr (base @ ''/admin/'' @ g @ ''/role/'' @ r)),
      (''supports_impersonation_readonly'', JBool True)]"

definition accept_empty_config :: json where
  "accept_empty_config = JObj [(''success'', JBool True)]"

definition registered_link :: "instant \<Rightarrow> string \<Rightarrow> string \<Rightarrow> string \<Rightarrow> role_link" where
  "registered_link now g r token =
     \<lparr>rl_guild = g, rl_role = r, rl_token = token, rl_account = None, rl_tree = default_tree_json,
      rl_version = 1, rl_updated_at = now\<rparr>"

definition retoken :: "role_link \<Rightarrow> role_link \<Rightarrow> role_link" where
  "retoken old new = old\<lparr>rl_token := rl_token new, rl_updated_at := rl_updated_at new\<rparr>"

definition register_rows :: "instant \<Rightarrow> string \<Rightarrow> string \<Rightarrow> string \<Rightarrow> db \<Rightarrow> db" where
  "register_rows now g r token d =
     d\<lparr>role_links := upsert link_key retoken (registered_link now g r token) (role_links d),
       settings := upsert gs_guild keep_old \<lparr>gs_guild = g, gs_view_permission = ''managers''\<rparr> (settings d)\<rparr>"

definition register :: "'w app \<Rightarrow> incoming \<Rightarrow> string \<times> string \<Rightarrow> ('w, json) task" where
  "register app inc body =
     io_then (io_lift (extract_token inc)) (\<lambda>token.
     io_then (on_db (register_rows (ap_now app) (fst body) (snd body) token)) (\<lambda>_.
     io_return success_json))"

definition get_config :: "'w app \<Rightarrow> incoming \<Rightarrow> ('w, json) task" where
  "get_config app inc =
     io_then (io_lift (extract_token inc)) (\<lambda>token.
     io_then (query (\<lambda>d. find (\<lambda>l. rl_token l = token) (role_links d))) (\<lambda>link.
     case link of
       None \<Rightarrow> io_fail Unauthorized
     | Some l \<Rightarrow> io_return (build_iframe_config (base_url (ap_config app)) (rl_guild l) (rl_role l))))"

definition holds_token :: "string \<Rightarrow> string \<Rightarrow> string \<Rightarrow> role_link \<Rightarrow> bool" where
  "holds_token g r token l \<longleftrightarrow> link_key l = (g, r) \<and> rl_token l = token"

definition post_config :: "'w app \<Rightarrow> incoming \<Rightarrow> string \<times> string \<Rightarrow> ('w, json) task" where
  "post_config app inc body =
     io_then (io_lift (extract_token inc)) (\<lambda>token.
     io_then (query (\<lambda>d. \<exists>l \<in> set (role_links d). holds_token (fst body) (snd body) token l)) (\<lambda>found.
     if \<not> found then io_fail Unauthorized else io_return accept_empty_config))"

definition delete_config :: "'w app \<Rightarrow> incoming \<Rightarrow> string \<times> string \<Rightarrow> ('w, json) task" where
  "delete_config app inc body =
     io_then (io_lift (extract_token inc)) (\<lambda>token.
     io_then (query (\<lambda>d. \<exists>l \<in> set (role_links d). holds_token (fst body) (snd body) token l)) (\<lambda>found.
     io_then (on_db (delete_links (holds_token (fst body) (snd body) token))) (\<lambda>_.
     if \<not> found then io_fail Unauthorized else io_return success_json)))"

subsection \<open>Registration\<close>

interpretation links: keyed_table link_key retoken
  by unfold_locales (simp add: link_key_def retoken_def)

lemma register_lookup:
  "find_link g' r' (register_rows now g r token d) =
     (if (g', r') = (g, r)
      then Some (case find_link g r d of
                   None \<Rightarrow> registered_link now g r token
                 | Some old \<Rightarrow> old\<lparr>rl_token := token, rl_updated_at := now\<rparr>)
      else find_link g' r' d)"
proof -
  have "link_key (registered_link now g r token) = (g, r)"
    by (simp add: link_key_def registered_link_def)
  then show ?thesis
    by (auto simp: find_link_def register_rows_def links.find_upsert retoken_def registered_link_def
        split: option.split)
qed

lemma register_rows_ok:
  assumes "db_ok d" shows "db_ok (register_rows now g r token d)"
  using assms
  by (simp add: register_rows_def db_ok_def keys_ok_def refs_ok_def links.unique_upsert
      keep.unique_upsert links.keys_upsert subset_insertI2)

lemma register_mirror: "local_users g' r' (register_rows now g r token d) = local_users g' r' d"
  by (simp add: local_users_def register_rows_def)

subsection \<open>Tokens\<close>

lemma wrong_token_reads_nothing:
  assumes "extract_token inc = Inr token" "\<not> (\<exists>l \<in> set (role_links (fst s)). holds_token g r token l)"
  shows "post_config app inc (g, r) s = (Inl Unauthorized, s)"
    and "delete_config app inc (g, r) s = (Inl Unauthorized, s)"
proof -
  have "delete_where (holds_token g r token) (role_links (fst s)) = role_links (fst s)"
    "{l \<in> set (role_links (fst s)). holds_token g r token l} = {}"
    using assms(2) by (auto simp: delete_where_def filter_id_conv)
  then have "delete_links (holds_token g r token) (fst s) = fst s"
    unfolding delete_links_def by (simp only: image_empty empty_iff delete_where_def not_False_eq_True
        filter_True ball_simps) (simp add: delete_where_def)
  with assms show "post_config app inc (g, r) s = (Inl Unauthorized, s)"
    "delete_config app inc (g, r) s = (Inl Unauthorized, s)"
    by (simp_all add: post_config_def delete_config_def io_then_def)
qed

lemma missing_token_refused:
  "extract_token inc = Inl e \<Longrightarrow>
     register app inc body s = (Inl e, s) \<and> get_config app inc s = (Inl e, s) \<and>
     post_config app inc body s = (Inl e, s) \<and> delete_config app inc body s = (Inl e, s)"
  by (simp add: register_def get_config_def post_config_def delete_config_def io_then_def)

lemma delete_config_removes:
  assumes ok: "db_ok (fst s)" and run: "delete_config app inc (g, r) s = (Inr x, s')"
  shows "find_link g r (fst s') = None \<and> local_users g r (fst s') = [] \<and> db_ok (fst s') \<and>
    (\<forall>g' r'. (g', r') \<noteq> (g, r) \<longrightarrow>
       find_link g' r' (fst s') = find_link g' r' (fst s) \<and> local_users g' r' (fst s') = local_users g' r' (fst s))"
proof -
  from run obtain token l where l: "l \<in> set (role_links (fst s))" "holds_token g r token l"
    and s': "fst s' = delete_links (holds_token g r token) (fst s)"
    by (auto simp: delete_config_def io_then_def io_lift_def split: sum.splits if_splits)
  have same: "holds_token g r token l' \<longleftrightarrow> link_key l' = (g, r)" if "l' \<in> set (role_links (fst s))" for l'
  proof
    assume k: "link_key l' = (g, r)"
    then have "find_row link_key (g, r) (role_links (fst s)) = Some l'"
      using find_row_unique [of link_key "role_links (fst s)" l'] ok that by (simp add: db_ok_def keys_ok_def)
    moreover have "find_row link_key (g, r) (role_links (fst s)) = Some l"
      using find_row_unique [of link_key "role_links (fst s)" l] ok l by (simp add: db_ok_def keys_ok_def holds_token_def)
    ultimately show "holds_token g r token l'" using l by simp
  qed (simp add: holds_token_def)
  have "delete_where (holds_token g r token) (role_links (fst s)) =
      delete_where (\<lambda>l. link_key l = (g, r)) (role_links (fst s))"
    unfolding delete_where_def by (rule filter_cong) (simp_all add: same)
  moreover have "{l \<in> set (role_links (fst s)). holds_token g r token l} =
      {l \<in> set (role_links (fst s)). link_key l = (g, r)}" using same by blast
  ultimately have d: "fst s' = delete_orphan_role_link g r (fst s)"
    using s' by (simp add: delete_orphan_role_link_def delete_links_def)
  have "(g, r) \<in> link_key ` {l \<in> set (role_links (fst s)). link_key l = (g, r)}"
    using l by (auto simp: holds_token_def intro!: image_eqI [where x = l])
  then have "filter (\<lambda>a. assignment_link a = (g, r)) (assignments (fst s')) = []"
    by (auto simp: d delete_orphan_role_link_def delete_links_def delete_where_def filter_empty_conv)
  then have "local_users g r (fst s') = []" by (simp add: local_users_def)
  moreover have "find_link g r (fst s') = None"
    unfolding d find_link_def delete_orphan_role_link_def delete_links_def
    by (simp add: find_row_delete_where_None)
  moreover have "find_link g' r' (fst s') = find_link g' r' (fst s)" if "(g', r') \<noteq> (g, r)" for g' r'
    unfolding d find_link_def delete_orphan_role_link_def delete_links_def
    using that by (simp add: find_row_delete_where)
  ultimately show ?thesis
    using ok local_users_orphan delete_links_ok by (simp add: d) (simp add: delete_orphan_role_link_def delete_links_ok)
qed

end
