(* ===== verification/Samples.thy ===== *)
theory Samples
  imports Worker Routes_Plugin
begin

section \<open>Concrete values for the witnesses\<close>

text \<open>
  A deployment, a server with one role link, one connected account and one linked member. The
  transport answers every request alike; witnesses that need more override it.
\<close>

definition sample_config :: app_config where
  "sample_config =
     \<lparr>database_url = ''postgres://db'', session_secret = ''secret'', base_url = ''https://b.example/p'',
      listen_addr = ''0.0.0.0:8095'', auth_gateway_url = ''https://b.example'',
      internal_api_key = ''key'', rl_dashboard_origin = Some ''https://dash.example'',
      rolelogic_api_url = ''https://api.example'', worker_concurrency = 4,
      db_pool = \<lparr>max_connections = 10, min_connections = 2, acquire_timeout_secs = 5,
                 idle_timeout_secs = 600\<rparr>,
      default_pds = ''https://pds.example''\<rparr>"

definition down :: "request \<Rightarrow> 'w \<Rightarrow> (string + response) \<times> 'w" where
  "down rq w = (Inl ''connection refused'', w)"

definition answers :: "nat \<Rightarrow> string \<Rightarrow> request \<Rightarrow> 'w \<Rightarrow> (string + response) \<times> 'w" where
  "answers status body rq w = (Inr \<lparr>rs_status = status, rs_body = body\<rparr>, w)"

definition sample_app :: "(request \<Rightarrow> 'w \<Rightarrow> (string + response) \<times> 'w) \<Rightarrow> crates \<Rightarrow> 'w app" where
  "sample_app send cr =
     \<lparr>ap_config = sample_config, ap_crates = cr, ap_send = send, ap_now = 1000000000,
      ap_nonce = (\<lambda>n. replicate 12 (of_nat n)), ap_pg = (to_ascii_lowercase, \<lambda>s p. True)\<rparr>"

definition follower_condition :: condition where
  "follower_condition =
     \<lparr>c_target = IsFollower, c_operator = Eq, c_value = JBool True, c_value_end = None\<rparr>"

definition follower_tree :: rule_tree where
  "follower_tree =
     \<lparr>grant_on_any_relation = False, groups = [\<lparr>conditions = [follower_condition]\<rparr>]\<rparr>"

definition sample_link :: role_link where
  "sample_link =
     \<lparr>rl_guild = ''g'', rl_role = ''r'', rl_token = ''tok'', rl_account = Some ''did:a'',
      rl_tree = json_of_tree follower_tree, rl_version = 1, rl_updated_at = 0\<rparr>"

definition sample_account :: bsky_account where
  "sample_account =
     \<lparr>ba_did = ''did:a'', ba_handle = ''a.example'', ba_pds_host = ''https://pds.example'',
      ba_display_name = None, ba_description = None, ba_has_avatar = False, ba_has_banner = False,
      ba_followers_count = 0, ba_follows_count = 0, ba_posts_count = 0, ba_created_at = None,
      ba_access_enc = [], ba_refresh_enc = [], ba_token_expires_at = 0, ba_refresh_failed_at = None,
      ba_last_synced_at = None, ba_updated_at = 0\<rparr>"

definition sample_user :: bsky_user where
  "sample_user =
     \<lparr>bu_discord_id = ''1'', bu_did = ''did:u'', bu_handle = ''u.example'', bu_handle_domain = None,
      bu_has_custom_domain = True, bu_pds_host = None, bu_display_name = None, bu_description = None,
      bu_has_avatar = False, bu_has_banner = False, bu_posts_count = 0, bu_followers_count = 0,
      bu_follows_count = 0, bu_created_at = None, bu_discord_name = None, bu_linked_at = 0,
      bu_refreshed_at = 0\<rparr>"

definition sample_relation :: account_relation where
  "sample_relation =
     \<lparr>ar_account = ''did:a'', ar_viewer = ''did:u'', ar_is_follower = True, ar_followed_at = Some 0,
      ar_is_followed_back = False, ar_liked = 0, ar_reposted = 0, ar_replied = 0,
      ar_last_synced_at = 0\<rparr>"

definition second_account :: bsky_account where
  "second_account = sample_account\<lparr>ba_did := ''did:b'', ba_handle := ''b.example''\<rparr>"

definition sample_job :: job where
  "sample_job = new_job 1 ConfigSync (config_payload ''g'' ''r'') 0"

definition sample_db :: db where
  "sample_db = empty_db\<lparr>role_links := [sample_link], accounts := [sample_account],
     users := [sample_user], relations := [sample_relation], jobs := [sample_job], next_job_id := 2\<rparr>"

lemmas sample_defs = sample_config_def sample_app_def follower_condition_def follower_tree_def
  sample_link_def sample_account_def sample_user_def sample_relation_def sample_db_def empty_db_def

lemma sample_select [simp]:
  "role_links sample_db = [sample_link]" "accounts sample_db = [sample_account]"
  "users sample_db = [sample_user]" "relations sample_db = [sample_relation]"
  "assignments sample_db = []" "bsky_lists sample_db = []" "list_members sample_db = []"
  "packs sample_db = []" "pack_members sample_db = []" "jobs sample_db = [sample_job]"
  "next_job_id sample_db = 2" "settings sample_db = []" "guild_accounts sample_db = []"
  "db_lower sample_db = to_ascii_lowercase"
  by (simp_all add: sample_db_def empty_db_def)

lemma second_account_key [simp]: "ba_did second_account = ''did:b''" "ba_did sample_account = ''did:a''"
  by (simp_all add: second_account_def sample_account_def)

lemma sample_handles [simp]:
  "unique_key (\<lambda>a. to_ascii_lowercase (ba_handle a)) [sample_account, second_account]"
proof -
  have "to_ascii_lowercase ''a.example'' \<noteq> to_ascii_lowercase ''b.example''" by code_simp
  then show ?thesis by (simp add: unique_key_def second_account_def sample_account_def)
qed

lemma sample_app_select [simp]:
  "ap_config (sample_app send cr) = sample_config" "ap_crates (sample_app send cr) = cr"
  "ap_send (sample_app send cr) = send" "ap_now (sample_app send cr) = 1000000000"
  "ap_nonce (sample_app send cr) n = replicate 12 (of_nat n)"
  "ap_pg (sample_app send cr) = (to_ascii_lowercase, \<lambda>s p. True)"
  by (simp_all add: sample_app_def)

lemma sample_tree [simp]: "tree_of_json (rl_tree sample_link) = follower_tree"
proof -
  have "decode_tree (json_of_tree follower_tree) = Some follower_tree"
    by (rule decode_tree_json) (simp add: follower_tree_def follower_condition_def)
  then show ?thesis by (simp add: sample_link_def tree_of_json_def)
qed

lemma sample_full_ok [simp]: "full_ok sample_db"
  by (simp add: full_ok_def queue_ok_def db_ok_def keys_ok_def refs_ok_def unique_key_def row_ok_def
      sample_job_def new_job_def kind_from_db_def sample_relation_def sample_account_def)

lemma sample_db_ok [simp]: "db_ok sample_db" "refs_ok sample_db" "queue_ok sample_db"
  using sample_full_ok by (simp_all only: full_ok_def db_ok_def)

text \<open>The one job of the sample, claimed by a worker.\<close>

definition claimed_job :: job where
  "claimed_job = claim_row 1000000000 ''w'' sample_job"

lemma sample_claimed:
  "claim_batch 1000000000 (\<lambda>i. False) ''w'' batch_size (snd (reap_stuck 1000000000 stuck_lock_secs sample_db)) =
     ([claimed_job], sample_db\<lparr>jobs := [claimed_job]\<rparr>)"
  by (simp add: claim_batch_def claim_ids_def claimable_def sample_job_def new_job_def Let_def
      update_where_def claim_row_def reap_stuck_def stuck_def batch_size_def claimed_job_def)

lemma sample_pass_returns:
  assumes "ap_now app = 1000000000"
  shows "\<exists>s'. worker_pass app ''w'' True (\<lambda>i. False) (\<lambda>i. (False, 0)) (sample_db, w) = Some s'"
proof -
  have k: "payload_text claimed_job ''guild_id'' = Some ''g''" "payload_text claimed_job ''role_id'' = Some ''r''"
    by (simp_all add: payload_text_def claimed_job_def sample_job_def new_job_def config_payload_def claim_row_def)
  have "kind_from_db (j_kind claimed_job) = Some ConfigSync"
    by (simp add: claimed_job_def sample_job_def new_job_def claim_row_def kind_from_db_def)
  from config_job_returns [OF this k] obtain s' where
    "run_job app False 0 claimed_job (sample_db\<lparr>jobs := [claimed_job]\<rparr>, w) = Some s'" by blast
  then have "worker_pass app ''w'' True (\<lambda>i. False) (\<lambda>i. (False, 0)) (sample_db, w) = Some s'"
    using sample_claimed assms by (simp add: worker_pass_def)
  then show ?thesis by blast
qed

end
