(* ===== verification/Rules_Properties.thy ===== *)
theory Rules_Properties
  imports Samples
begin

section \<open>Properties of the rule engine\<close>

text \<open>
  The claims about saving, storing, evaluating and compiling rules, each with a witness where it has a
  hypothesis.
\<close>

text \<open>
  C1: the bulk sync and the per-player sync decide alike on what both can read. Take a rule with conditions
  (not one that grants to everybody linked) and a viewer for whom each condition is \<open>covered\<close>: it passed the
  validator; no instant recorded for the viewer lies in the future; a list or pack belongs to the bound
  account (C35 is the counterexample without this); for \<open>contains\<close>, pattern and text are ASCII and \<open>LOWER\<close>
  folds ASCII as the source does; for \<open>regex\<close>, the engines of PostgreSQL and of the crate give the pattern
  one meaning; and a \<open>not_in\<close> list names a string. Then the viewer is in the result of the SQL query exactly
  when \<open>evaluate_with_memberships\<close> accepts on the facts loaded for them.
\<close>

theorem bulk_query_agrees_with_player_sync:
  assumes "db_ok d" and "u \<in> set (users d)" and "bu_discord_id u \<in> set member_ids"
    and "rl_account link = Some account" and "\<not> grant_on_any_relation (tree_of_json (rl_tree link))"
    and "\<forall>g \<in> set (groups (tree_of_json (rl_tree link))). \<forall>c \<in> set (conditions g).
      covered (cr_regex (ap_crates app)) (ap_pg app) (ap_now app) c (d, account, u)"
  shows "bu_discord_id u \<in> set (rule_users app d account (tree_of_json (rl_tree link)) member_ids)
    \<longleftrightarrow> qualifies app d (bu_discord_id u) link"
  using assms by (rule rule_users_iff)

text \<open>
  The witness: one rule with seven conditions, on a flag, a text searched with \<open>contains\<close>, a pattern, a list
  of the account, a \<open>not_in\<close>, a number and an age; both evaluators accept the viewer.
\<close>

definition simple_condition :: "condition_target \<Rightarrow> condition_operator \<Rightarrow> json \<Rightarrow> condition" where
  "simple_condition t op v = \<lparr>c_target = t, c_operator = op, c_value = v, c_value_end = None\<rparr>"

definition rich_conditions :: "condition list" where
  "rich_conditions =
     [simple_condition IsFollower Eq (JBool True), simple_condition Handle Contains (JStr ''EXAMPLE''),
      simple_condition Handle Regex (JStr ''u.ex''), simple_condition IsOnList Eq (JStr ''at://a/l''),
      simple_condition Handle NotIn (JArr [JStr ''x.example'']), simple_condition PostsCount Lte (json_of_i64 10),
      simple_condition FollowAgeDays Gte (json_of_i64 0)]"

definition rich_tree :: rule_tree where
  "rich_tree = \<lparr>grant_on_any_relation = False, groups = [\<lparr>conditions = rich_conditions\<rparr>]\<rparr>"

definition rich_db :: db where
  "rich_db = sample_db\<lparr>
     bsky_lists := [\<lparr>li_uri = ''at://a/l'', li_owner = ''did:a'', li_name = ''l'',
                     li_description = None, li_purpose = None\<rparr>],
     list_members := [\<lparr>mb_uri = ''at://a/l'', mb_did = ''did:u''\<rparr>]\<rparr>"

definition rich_app :: "unit app" where
  "rich_app = (sample_app down plain_crates)\<lparr>ap_pg := (to_ascii_lowercase, \<lambda>p s. str_contains s p)\<rparr>"

definition rich_link :: role_link where
  "rich_link = sample_link\<lparr>rl_tree := json_of_tree rich_tree\<rparr>"

lemma rich_link_tree: "tree_of_json (rl_tree rich_link) = rich_tree"
  unfolding rich_link_def tree_of_json_def
  by simp (subst decode_tree_json, simp_all add: rich_tree_def rich_conditions_def simple_condition_def)

lemma rich_facts:
  "row_facts rich_db ''did:a'' sample_user = facts_of_rows sample_user (Some sample_relation)"
  by (simp add: row_facts_def join_relation_def rich_db_def find_row_def)
    (simp add: relation_key_def sample_relation_def sample_user_def)

lemma rich_refs: "refs_ok rich_db"
  using sample_db_ok(2) by (simp add: rich_db_def refs_ok_def)

lemma rich_not_future: "not_future 1000000000 (row_facts rich_db ''did:a'' sample_user)"
  unfolding rich_facts by (simp add: not_future_def facts_of_rows_def sample_user_def sample_relation_def)

lemma rich_handle: "f_handle (row_facts rich_db ''did:a'' sample_user) = ''u.example''"
  unfolding rich_facts by (simp add: facts_of_rows_def sample_user_def)

lemma wf_number: "in_i64 n \<Longrightarrow> wf_value KInt op (json_of_i64 n)"
  by (simp add: wf_value_def)

lemma rich_covered:
  "list_all (\<lambda>c. covered (cr_regex plain_crates) (to_ascii_lowercase, \<lambda>p s. str_contains s p) 1000000000 c
     (rich_db, ''did:a'', sample_user)) rich_conditions"
proof -
  let ?cov = "\<lambda>c. covered (cr_regex plain_crates) (to_ascii_lowercase, \<lambda>p s. str_contains s p) 1000000000 c
     (rich_db, ''did:a'', sample_user)"
  note defs = covered_def simple_condition_def wf_condition_def is_membership_target_def owned_by_def
    rich_refs rich_not_future
  have ascii: "is_ascii ''EXAMPLE''" "is_ascii ''u.example''" by code_simp+
  have num: "in_i64 10" "in_i64 0" by (simp_all add: in_i64_def i64_min_def i64_max_def)
  have uri: "prefix ''at://'' ''at://a/l''" by simp
  have "?cov (simple_condition IsFollower Eq (JBool True))" by (simp add: defs wf_value_def)
  moreover have "?cov (simple_condition Handle Contains (JStr ''EXAMPLE''))"
    using ascii by (simp add: defs wf_value_def str_or_empty_def rich_handle)
  moreover have "?cov (simple_condition Handle Regex (JStr ''u.ex''))"
    by (simp add: defs wf_value_def str_or_empty_def plain_crates_def)
  moreover have "?cov (simple_condition IsOnList Eq (JStr ''at://a/l''))"
    by (simp add: defs wf_value_def str_or_empty_def) (simp add: rich_db_def)
  moreover have "?cov (simple_condition Handle NotIn (JArr [JStr ''x.example'']))"
    by (simp add: defs wf_value_def str_array_def)
  moreover have "?cov (simple_condition PostsCount Lte (json_of_i64 10))"
    by (simp add: defs wf_number [OF num(1)])
  moreover have "?cov (simple_condition FollowAgeDays Gte (json_of_i64 0))"
    by (simp add: defs wf_number [OF num(2)])
  ultimately show ?thesis by (simp add: rich_conditions_def)
qed

lemma rich_member: "''at://a/l'' \<in> list_uris (load_memberships rich_db (Some ''did:a'') ''did:u'')"
proof -
  let ?m = "\<lparr>mb_uri = ''at://a/l'', mb_did = ''did:u''\<rparr>"
  have m: "?m \<in> set (list_members rich_db)" and l: "\<exists>l \<in> set (bsky_lists rich_db). li_uri l = mb_uri ?m \<and> li_owner l = ''did:a''"
    by (simp_all add: rich_db_def)
  have "?m \<in> {m \<in> set (list_members rich_db). mb_did m = ''did:u'' \<and>
      (\<exists>l \<in> set (bsky_lists rich_db). li_uri l = mb_uri m \<and> li_owner l = ''did:a'')}"
    using m l by simp
  then have "mb_uri ?m \<in> list_uris (load_memberships rich_db (Some ''did:a'') ''did:u'')"
    unfolding load_memberships_def by (simp only: option.case memberships.select_convs) (rule imageI)
  then show ?thesis by simp
qed

lemma rich_accepted:
  "list_all (\<lambda>c. evaluate_single (cr_regex plain_crates) 1000000000 c (row_facts rich_db ''did:a'' sample_user)
     (load_memberships rich_db (Some ''did:a'') ''did:u'')) rich_conditions"
proof -
  let ?eval = "\<lambda>c. evaluate_single (cr_regex plain_crates) 1000000000 c (row_facts rich_db ''did:a'' sample_user)
     (load_memberships rich_db (Some ''did:a'') ''did:u'')"
  note defs = evaluate_single_def simple_condition_def
  have facts: "f_is_follower (row_facts rich_db ''did:a'' sample_user)"
    "f_posts_count (row_facts rich_db ''did:a'' sample_user) = 0"
    "f_followed_at (row_facts rich_db ''did:a'' sample_user) = Some 0"
    unfolding rich_facts by (simp_all add: facts_of_rows_def sample_user_def sample_relation_def)
  have words: "str_contains (to_ascii_lowercase ''u.example'') (to_ascii_lowercase ''EXAMPLE'')"
    "str_contains ''u.example'' ''u.ex''" by code_simp+
  have num: "in_i64 10" "in_i64 0" by (simp_all add: in_i64_def i64_min_def i64_max_def)
  have days: "days_since 1000000000 (Some 0) = Some 0" by code_simp
  have "?eval (simple_condition IsFollower Eq (JBool True))" by (simp add: defs bool_match_def facts)
  moreover have "?eval (simple_condition Handle Contains (JStr ''EXAMPLE''))"
    using words(1) by (simp add: defs string_match_def rich_handle)
  moreover have "?eval (simple_condition Handle Regex (JStr ''u.ex''))"
    by (simp add: defs string_match_def rich_handle) (simp add: plain_crates_def words)
  moreover have "?eval (simple_condition IsOnList Eq (JStr ''at://a/l''))"
    using rich_member by (simp add: defs)
  moreover have "?eval (simple_condition Handle NotIn (JArr [JStr ''x.example'']))"
    by (simp add: defs string_match_def rich_handle)
  moreover have "?eval (simple_condition PostsCount Lte (json_of_i64 10))"
    by (simp add: defs int_match_def facts num)
  moreover have "?eval (simple_condition FollowAgeDays Gte (json_of_i64 0))"
    by (simp add: defs int_match_def facts num days)
  ultimately show ?thesis by (simp add: rich_conditions_def)
qed

lemma bulk_query_agrees_with_player_sync_witness:
  "''1'' \<in> set (rule_users rich_app rich_db ''did:a'' (tree_of_json (rl_tree rich_link)) [''1'', ''2'']) \<and>
   qualifies rich_app rich_db ''1'' rich_link"
proof -
  have id: "bu_discord_id sample_user = ''1''" by (simp add: sample_user_def)
  have ok: "db_ok rich_db" and us: "sample_user \<in> set (users rich_db)"
    using sample_db_ok(1) by (simp_all add: rich_db_def db_ok_def keys_ok_def refs_ok_def unique_key_def sample_account_def)
  have acc: "rl_account rich_link = Some ''did:a''" by (simp add: rich_link_def sample_link_def)
  have app: "cr_regex (ap_crates rich_app) = cr_regex plain_crates" "ap_now rich_app = 1000000000"
    "ap_pg rich_app = (to_ascii_lowercase, \<lambda>p s. str_contains s p)" by (simp_all add: rich_app_def)
  have cov: "\<forall>g \<in> set (groups (tree_of_json (rl_tree rich_link))). \<forall>c \<in> set (conditions g).
      covered (cr_regex (ap_crates rich_app)) (ap_pg rich_app) (ap_now rich_app) c (rich_db, ''did:a'', sample_user)"
    unfolding rich_link_tree app using rich_covered by (simp add: rich_tree_def list_all_iff)
  have "bu_discord_id sample_user \<in> set [''1'', ''2'']" "\<not> grant_on_any_relation (tree_of_json (rl_tree rich_link))"
    unfolding rich_link_tree by (simp_all add: id rich_tree_def)
  from bulk_query_agrees_with_player_sync [OF ok us this(1) acc this(2) cov]
  have agree: "''1'' \<in> set (rule_users rich_app rich_db ''did:a'' (tree_of_json (rl_tree rich_link)) [''1'', ''2''])
      \<longleftrightarrow> qualifies rich_app rich_db ''1'' rich_link" unfolding id .
  have fs: "facts_select rich_db ''1'' ''did:a'' = Some (''did:u'', row_facts rich_db ''did:a'' sample_user)"
    by (simp add: facts_select_def rich_db_def find_row_def row_facts_def) (simp add: sample_user_def)
  have "rich_conditions \<noteq> []" by (simp add: rich_conditions_def)
  then have "qualifies rich_app rich_db ''1'' rich_link"
    using rich_accepted
    by (simp add: qualifies_def rich_link_tree acc fs app Let_def rich_tree_def evaluate_with_memberships_def list_all_iff)
  with agree show ?thesis by simp
qed

text \<open>
  C10: every placeholder of the generated \<open>WHERE\<close> clause is bound, each bind is used exactly once, and
  the numbers run on from the offset the caller reserved: no condition can read another's value.
\<close>

theorem placeholders_match_binds:
  "where_params (fst (build_rule_where t off)) =
     [off + 1 ..< off + length (snd (build_rule_where t off)) + 1]"
  by (rule build_rule_where_params)

text \<open>
  C12: no text of a rule reaches the SQL. Two trees that differ only in the strings and numbers the
  admin typed (same targets, operators, kinds and emptiness of values) give the same SQL text.
\<close>

theorem rule_text_is_injection_free:
  assumes "same_shape_tree s t"
  shows "fst (rule_where_text s off) = fst (rule_where_text t off)"
  using assms by (rule build_rule_where_shape)

definition quote_condition :: "string \<Rightarrow> condition" where
  "quote_condition s = \<lparr>c_target = Handle, c_operator = Eq, c_value = JStr s, c_value_end = None\<rparr>"

lemma rule_text_is_injection_free_witness:
  "fst (rule_where_text \<lparr>grant_on_any_relation = False,
        groups = [\<lparr>conditions = [quote_condition ''x; DROP TABLE jobs'']\<rparr>]\<rparr> 2) =
   fst (rule_where_text \<lparr>grant_on_any_relation = False,
        groups = [\<lparr>conditions = [quote_condition ''a.example'']\<rparr>]\<rparr> 2)"
  by (rule rule_text_is_injection_free)
    (simp add: same_shape_tree_def same_shape_def quote_condition_def str_or_empty_def str_array_def)

text \<open>
  C11: the clause of a tree the validator accepted is well typed against the columns of the schema:
  PostgreSQL never refuses a saved rule for an operand of the wrong type.
\<close>

theorem saved_rules_are_well_typed:
  assumes "parse_rule_tree rx jshow body = Inr p"
  shows "case build_rule_where (p_tree p) off of
    (w, bs) \<Rightarrow> where_typed bsky_columns (param_type off bs) w"
  using build_rule_where_typed [OF parse_wf [OF assms]] .

definition follower_body :: rule_tree_body where
  "follower_body =
     \<lparr>b_account = Some '' did:a '', b_grant = False,
      b_groups = [\<lparr>i_conditions = [\<lparr>i_target = ''is_follower'', i_operator = ''eq'',
        i_value = JStr ''Yes'', i_value_end = None\<rparr>]\<rparr>]\<rparr>"

lemma follower_body_parsed:
  "parse_rule_tree rx jshow follower_body = Inr \<lparr>p_account = Some ''did:a'', p_tree = follower_tree\<rparr>"
proof -
  have t: "trim ''is_follower'' = ''is_follower''" "trim ''eq'' = ''eq''" "trim ''Yes'' = ''Yes''"
    by (simp_all add: trim_graph is_graph_def)
  have a: "trim '' did:a '' = ''did:a''" by code_simp
  have "to_ascii_lowercase ''Yes'' = ''yes''" by code_simp
  then have b: "normalize_bool jshow w (JStr ''Yes'') = Inr (JBool True)" for w
    by (simp add: normalize_bool_def t)
  show ?thesis
    by (simp add: follower_body_def parse_rule_tree_def validate_group_def validate_condition_def t a b
        target_from_key_def operator_from_key_def is_membership_target_def normalize_value_def
        max_groups_def max_conditions_per_group_def Let_def parse_account_def follower_tree_def
        follower_condition_def and_then_def)
qed

lemma saved_rules_are_well_typed_witness:
  "case build_rule_where follower_tree 2 of
    (w, bs) \<Rightarrow> where_typed bsky_columns (param_type 2 bs) w"
  using saved_rules_are_well_typed [OF follower_body_parsed, of 2] by simp

text \<open>
  \<open>LIKE\<close> with an escaped pattern is a case-insensitive substring search, whatever wildcard or
  escape characters the admin typed.
\<close>

theorem escaped_like_is_substring_search:
  "sql_like (to_ascii_lowercase (''%'' @ escape_like v @ ''%'')) (to_ascii_lowercase s) \<longleftrightarrow>
   str_contains (to_ascii_lowercase s) (to_ascii_lowercase v)"
  by (rule like_escaped)

text \<open>
  C13: what the validator accepts is well formed: within the limits of groups and conditions, every
  operator valid for its target, every value of the right kind, ranges complete, list and pack values
  \<open>at://\<close> URIs, every pattern compiled. Its account is not blank.
\<close>

theorem accepted_payloads_are_well_formed:
  assumes "parse_rule_tree rx jshow body = Inr p"
  shows "wf_tree rx (p_tree p) \<and> p_account p \<noteq> Some []"
proof -
  have "parse_account a \<noteq> Some []" for a by (cases a) (auto simp: parse_account_def)
  with parse_wf [OF assms] assms show ?thesis
    by (auto simp: parse_rule_tree_def result_simps split: if_splits)
qed

lemma accepted_payloads_are_well_formed_witness:
  "wf_tree (\<lambda>p. None) follower_tree \<and> Some ''did:a'' \<noteq> Some []"
  using accepted_payloads_are_well_formed [OF follower_body_parsed, of "\<lambda>p. None"] by simp

text \<open>
  C30: saving is idempotent: the payload the editor builds from an accepted rule is accepted again and
  gives the same rule, provided that the text of a JSON number is not blank.
\<close>

theorem saved_rules_resubmit_unchanged:
  assumes "parse_rule_tree rx jshow body = Inr p" and "\<And>n. trim (jshow (JNum n)) \<noteq> []"
  shows "parse_rule_tree rx jshow (body_of p) = Inr p"
  using assms by (rule parse_stable)

lemma saved_rules_resubmit_unchanged_witness:
  "parse_rule_tree (\<lambda>p. None) (\<lambda>v. ''7'') (body_of \<lparr>p_account = Some ''did:a'', p_tree = follower_tree\<rparr>) =
     Inr \<lparr>p_account = Some ''did:a'', p_tree = follower_tree\<rparr>"
proof -
  have "trim ''7'' = ''7''" by (simp add: trim_graph is_graph_def)
  then show ?thesis
    using saved_rules_resubmit_unchanged [OF follower_body_parsed, of "\<lambda>v. ''7''" "\<lambda>p. None"] by simp
qed

text \<open>
  C31: the JSON column gives back the tree that was written, for every tree without a \<open>null\<close> upper
  bound, which no validated tree has.
\<close>

theorem stored_tree_reads_back:
  assumes "wf_tree rx t"
  shows "tree_of_json (json_of_tree t) = t"
proof -
  have "as_i64 JNull = None" "as_bool JNull = None" "as_str JNull = None" by simp_all
  then have "c_value_end c \<noteq> Some JNull" if "wf_condition rx c" for c
    using that by (auto simp: wf_condition_def wf_value_def split: if_splits target_kind.splits)
  with assms have "\<forall>g \<in> set (groups t). \<forall>c \<in> set (conditions g). c_value_end c \<noteq> Some JNull"
    by (auto simp: wf_tree_def wf_group_def list_all_iff split: if_splits)
  then show ?thesis by (simp add: tree_of_json_def decode_tree_json)
qed

lemma stored_tree_reads_back_witness: "tree_of_json (json_of_tree follower_tree) = follower_tree"
proof -
  have "wf_tree (\<lambda>p. None) follower_tree"
    using parse_wf [OF follower_body_parsed, of "\<lambda>p. None"] by simp
  from stored_tree_reads_back [OF this] show ?thesis .
qed

text \<open>
  A link without a usable rule grants nobody: with no condition in any group and without
  "any linked viewer", both evaluators reject every viewer.
\<close>

theorem empty_rule_grants_nobody:
  assumes "\<not> grant_on_any_relation t" and "\<forall>g \<in> set (groups t). conditions g = []"
  shows "\<not> evaluate_with_memberships rx now t f m \<and> \<not> sql_accepts off env t"
  using rust.convention_42 [OF assms, of rx now "(f, m)"] sql.convention_42 [OF assms] by simp

lemma empty_rule_grants_nobody_witness:
  "\<forall>off env. \<not> evaluate_with_memberships (\<lambda>p. None) 0 default_rule_tree
       (facts_of_rows sample_user None) no_memberships \<and> \<not> sql_accepts off env default_rule_tree"
  by (intro allI, rule empty_rule_grants_nobody) (simp_all add: default_rule_tree_def)

text \<open>
  Adding an OR-group never takes the role from anybody, in either evaluator.
\<close>

theorem more_groups_grant_more:
  "(evaluate_with_memberships rx now (t\<lparr>groups := gs @ hs\<rparr>) f m \<longleftrightarrow>
      evaluate_with_memberships rx now (t\<lparr>groups := gs\<rparr>) f m \<or>
      evaluate_with_memberships rx now (t\<lparr>groups := hs\<rparr>) f m) \<and>
   (sql_accepts off env (t\<lparr>groups := gs @ hs\<rparr>) \<longleftrightarrow>
      sql_accepts off env (t\<lparr>groups := gs\<rparr>) \<or> sql_accepts off env (t\<lparr>groups := hs\<rparr>))"
  using rust.accepts_append_groups [where e = "(f, m)"] sql.accepts_append_groups by simp

text \<open>
  C35: the two evaluators differ on a list that belongs to another account. The SQL clause asks only
  for membership, the per-player sync for a list owned by the bound account; the condition of \<open>covered\<close>
  on lists is needed. A member of the foreign list gets the role from one sync and loses it by the other.
\<close>

definition foreign_list_db :: db where
  "foreign_list_db = sample_db\<lparr>accounts := [sample_account, second_account],
     bsky_lists := [\<lparr>li_uri = ''at://b/l'', li_owner = ''did:b'', li_name = ''l'',
                     li_description = None, li_purpose = None\<rparr>],
     list_members := [\<lparr>mb_uri = ''at://b/l'', mb_did = ''did:u''\<rparr>]\<rparr>"

definition foreign_list_tree :: rule_tree where
  "foreign_list_tree = \<lparr>grant_on_any_relation = False, groups = [\<lparr>conditions =
     [\<lparr>c_target = IsOnList, c_operator = Eq, c_value = JStr ''at://b/l'', c_value_end = None\<rparr>]\<rparr>]\<rparr>"

theorem foreign_list_splits_the_evaluators:
  "db_ok foreign_list_db \<and> wf_tree rx foreign_list_tree \<and>
   ''1'' \<in> set (rule_users app foreign_list_db ''did:a'' foreign_list_tree [''1'']) \<and>
   \<not> qualifies app foreign_list_db ''1'' (sample_link\<lparr>rl_tree := json_of_tree foreign_list_tree\<rparr>)"
proof -
  let ?c = "\<lparr>c_target = IsOnList, c_operator = Eq, c_value = JStr ''at://b/l'', c_value_end = None\<rparr>"
  have ok: "db_ok foreign_list_db"
    using sample_db_ok(1)
    by (simp add: foreign_list_db_def db_ok_def keys_ok_def refs_ok_def sample_handles)
      (simp add: unique_key_def sample_relation_def)
  have wf: "wf_tree rx foreign_list_tree" for rx
    by (simp add: foreign_list_tree_def wf_tree_def wf_group_def wf_condition_def wf_value_def
        is_membership_target_def str_or_empty_def max_groups_def max_conditions_per_group_def)
  have tree: "tree_of_json (json_of_tree foreign_list_tree) = foreign_list_tree"
    unfolding tree_of_json_def
    by (subst decode_tree_json) (simp_all add: foreign_list_tree_def)
  have us: "users foreign_list_db = [sample_user]" by (simp add: foreign_list_db_def)
  have sql: "sql_atom (row_env pg now foreign_list_db ''did:a'' sample_user) ?c = STrue" for pg now
    by (simp add: sql_atom_def build_condition_def build_membership_def row_env_def row_member_def
        foreign_list_db_def sample_user_def str_or_empty_def)
  have "''1'' \<in> set (rule_users app foreign_list_db ''did:a'' foreign_list_tree [''1''])"
    using sql by (simp add: rule_users_def us sql_accepts_iff) (simp add: foreign_list_tree_def sample_user_def)
  moreover have "\<not> qualifies app foreign_list_db ''1'' (sample_link\<lparr>rl_tree := json_of_tree foreign_list_tree\<rparr>)"
  proof -
    have fs: "facts_select foreign_list_db ''1'' ''did:a'' =
        Some (''did:u'', row_facts foreign_list_db ''did:a'' sample_user)"
      by (simp add: facts_select_def us find_row_def row_facts_def) (simp add: sample_user_def)
    have "''at://b/l'' \<notin> list_uris (load_memberships foreign_list_db (Some ''did:a'') ''did:u'')"
      by (simp add: load_memberships_def foreign_list_db_def)
    moreover have "rl_account (sample_link\<lparr>rl_tree := json_of_tree foreign_list_tree\<rparr>) = Some ''did:a''"
      by (simp add: sample_link_def)
    ultimately show ?thesis
      by (simp add: qualifies_def tree fs Let_def)
        (simp add: foreign_list_tree_def evaluate_with_memberships_def evaluate_single_def)
  qed
  ultimately show ?thesis using ok wf by blast
qed

end
