(* ===== verification/Remote_Mirror.thy ===== *)
theory Remote_Mirror
  imports Sync_Player
begin

section \<open>The mirror and RoleLogic\<close>

text \<open>
  \<open>role_assignments\<close> is the plugin's copy of what RoleLogic holds for each role link. Here the outside
  world has a second reading, \<open>rm_held\<close>: the members RoleLogic holds per link, with \<open>rm_staged\<close> for the
  chunks of an upload in progress. \<open>rolelogic_ok\<close> is RoleLogic's documented behaviour, request by
  request: a successful call has its effect, a refused one has none, a call whose answer is lost may
  have either; \<open>answers_all\<close> says that no answer is lost and that bodies are JSON.

  \<open>in_step\<close> relates the two. Every sync keeps it when no answer is lost, whatever RoleLogic refuses
  (\<open>role_link_in_step\<close>, \<open>player_in_step\<close>). A lost answer breaks it for good: \<open>unplanned_untouched\<close>.
\<close>

record 'w rolelogic =
  rm_held :: "'w \<Rightarrow> string \<times> string \<Rightarrow> string set"
  rm_staged :: "'w \<Rightarrow> string \<times> string \<times> string \<Rightarrow> string set"

text \<open>Path segments: without a slash, so that different links have different URLs.\<close>

definition path_segment :: "string \<Rightarrow> bool" where
  "path_segment s \<longleftrightarrow> s \<noteq> [] \<and> CHR ''/'' \<notin> set s"

definition member_segment :: "string \<Rightarrow> bool" where
  "member_segment s \<longleftrightarrow> path_segment s \<and> s \<noteq> ''upload''"

definition effect :: "'w app \<Rightarrow> ('w \<Rightarrow> 'v) \<Rightarrow> request \<Rightarrow> ('w \<Rightarrow> 'v) \<Rightarrow> bool" where
  "effect app read rq f \<longleftrightarrow>
     (\<forall>w. case ap_send app rq w of
            (Inr resp, w') \<Rightarrow> read w' = (if is_success resp then f w else read w)
          | (Inl _, w') \<Rightarrow> read w' = read w \<or> read w' = f w)"

definition start_request :: "'w app \<Rightarrow> string \<Rightarrow> string \<Rightarrow> string \<Rightarrow> request" where
  "start_request app g r token = rl_request POST (users_url app g r @ ''/upload'') token None"

definition member_request :: "'w app \<Rightarrow> http_method \<Rightarrow> string \<Rightarrow> string \<Rightarrow> string \<Rightarrow> string \<Rightarrow> request" where
  "member_request app m g r user token = rl_request m (users_url app g r @ ''/'' @ user) token None"

definition put_request :: "'w app \<Rightarrow> string \<Rightarrow> string \<Rightarrow> string list \<Rightarrow> string \<Rightarrow> request" where
  "put_request app g r us token = rl_request PUT (users_url app g r) token (Some (JArr (map JStr us)))"

definition upload_id_of :: "'w app \<Rightarrow> response \<Rightarrow> string option" where
  "upload_id_of app resp =
     (case rl_json app resp of
        Inl _ \<Rightarrow> None | Inr body \<Rightarrow> as_str (json_at (json_at body ''data'') ''upload_id''))"

text \<open>The six writing calls of one link.\<close>

definition link_effects :: "'w app \<Rightarrow> 'w rolelogic \<Rightarrow> string \<Rightarrow> string \<Rightarrow> string \<Rightarrow> bool" where
  "link_effects app rm g r token \<longleftrightarrow>
     (\<forall>us. effect app (rm_held rm) (put_request app g r us token) (\<lambda>w. (rm_held rm w)((g, r) := set us))) \<and>
     (\<forall>u. member_segment u \<longrightarrow>
        effect app (rm_held rm) (member_request app POST g r u token)
          (\<lambda>w. (rm_held rm w)((g, r) := insert u (rm_held rm w (g, r)))) \<and>
        effect app (rm_held rm) (member_request app DELETE g r u token)
          (\<lambda>w. (rm_held rm w)((g, r) := rm_held rm w (g, r) - {u}))) \<and>
     (effect app (rm_held rm) (start_request app g r token) (rm_held rm) \<and>
      (\<forall>w resp w' u. ap_send app (start_request app g r token) w = (Inr resp, w') \<longrightarrow> is_success resp \<longrightarrow>
         upload_id_of app resp = Some u \<longrightarrow> path_segment u \<and> rm_staged rm w' (g, r, u) = {})) \<and>
     (\<forall>u. path_segment u \<longrightarrow>
        (\<forall>us. effect app (rm_held rm) (chunk_request app g r u token us) (rm_held rm) \<and>
              effect app (rm_staged rm) (chunk_request app g r u token us)
                (\<lambda>w. (rm_staged rm w)((g, r, u) := rm_staged rm w (g, r, u) \<union> set us))) \<and>
        effect app (rm_held rm) (commit_request app g r u token)
          (\<lambda>w. (rm_held rm w)((g, r) := rm_staged rm w (g, r, u))) \<and>
        effect app (rm_held rm) (cancel_request app g r u token) (rm_held rm))"

definition rolelogic_ok :: "'w app \<Rightarrow> 'w rolelogic \<Rightarrow> bool" where
  "rolelogic_ok app rm \<longleftrightarrow>
     (\<forall>rq w. rq_method rq = GET \<or> \<not> prefix (rl_base app) (rq_url rq) \<longrightarrow>
        rm_held rm (snd (ap_send app rq w)) = rm_held rm w) \<and>
     (\<forall>g r token. path_segment g \<longrightarrow> path_segment r \<longrightarrow> link_effects app rm g r token)"

definition answers_all :: "'w app \<Rightarrow> bool" where
  "answers_all app \<longleftrightarrow>
     (\<forall>rq w. \<exists>resp. fst (ap_send app rq w) = Inr resp \<and>
        (is_success resp \<longrightarrow> (\<exists>v. cr_json (ap_crates app) (rs_body resp) = Inr v)))"

definition in_step :: "'w rolelogic \<Rightarrow> db \<times> 'w \<Rightarrow> bool" where
  "in_step rm st \<longleftrightarrow>
     (\<forall>l \<in> set (role_links (fst st)).
        rm_held rm (snd st) (link_key l) = set (local_users (rl_guild l) (rl_role l) (fst st)))"

definition links_addressable :: "db \<Rightarrow> bool" where
  "links_addressable d \<longleftrightarrow> (\<forall>l \<in> set (role_links d). path_segment (rl_guild l) \<and> path_segment (rl_role l))"

subsection \<open>The client calls\<close>

lemma effect_call:
  assumes "effect app read rq f" "answers_all app"
    and k: "\<And>resp w. snd (k resp w) = w"
    and ok: "\<And>resp w v. cr_json (ap_crates app) (rs_body resp) = Inr v \<or> \<not> is_success resp \<Longrightarrow>
      is_ok (fst (k resp w)) \<longleftrightarrow> is_success resp"
    and run: "io_then (send_req app err rq) k w = (x, w')"
  shows "read w' = (if is_ok x then f w else read w)"
proof -
  obtain y w1 where s: "ap_send app rq w = (y, w1)" by (rule prod.exhaust)
  then obtain resp where y: "y = Inr resp"
    and js: "is_success resp \<Longrightarrow> \<exists>v. cr_json (ap_crates app) (rs_body resp) = Inr v"
    using assms(2) unfolding answers_all_def by (metis fst_conv)
  have "(x, w') = k resp w1" using run s y by (simp add: io_then_def send_req_def)
  with k [of resp w1] have x: "x = fst (k resp w1)" "w' = w1" by (metis fst_conv, metis snd_conv)
  have "is_ok x \<longleftrightarrow> is_success resp" using ok js unfolding x by blast
  moreover have "read w1 = (if is_success resp then f w else read w)"
    using assms(1) s y unfolding effect_def by (auto split: prod.splits sum.splits dest!: spec [of _ w])
  ultimately show ?thesis using x by simp
qed

lemma rl_json_parsed: "cr_json (ap_crates app) (rs_body resp) = Inr v \<Longrightarrow> rl_json app resp = Inr v"
  by (simp add: rl_json_def json_body_def parse_as_def)

lemma reads_held:
  assumes "rolelogic_ok app rm" "rq_method rq = GET \<or> \<not> prefix (rl_base app) (rq_url rq)"
    and "\<And>resp w. snd (k resp w) = w"
  shows "rm_held rm (snd (io_then (send_req app err rq) k w)) = rm_held rm w"
proof -
  obtain y w1 where s: "ap_send app rq w = (y, w1)" by (rule prod.exhaust)
  moreover have "rm_held rm w1 = rm_held rm w" using assms(1,2) s unfolding rolelogic_ok_def by (metis snd_conv)
  ultimately show ?thesis using assms(3) by (cases y) (simp_all add: io_then_def send_req_def)
qed

lemma internal_call_held:
  "rolelogic_ok app rm \<Longrightarrow> rm_held rm (snd (internal_call app ep dec q w)) = rm_held rm w"
  unfolding internal_call_def by (rule reads_held) simp_all

lemma fetch_held:
  assumes "rolelogic_ok app rm"
  shows "rm_held rm (snd (fetch_user_guild_ids app u w)) = rm_held rm w"
    and "rm_held rm (snd (fetch_guild_member_ids app g w)) = rm_held rm w"
proof -
  show "rm_held rm (snd (fetch_user_guild_ids app u w)) = rm_held rm w"
    by (simp add: fetch_user_guild_ids_def internal_call_held assms)
  have "snd (fetch_guild_member_ids app g w) = snd (fetch_guild_member_ids_full app g w)"
    by (auto simp: fetch_guild_member_ids_def io_then_def split: prod.splits sum.splits)
  then show "rm_held rm (snd (fetch_guild_member_ids app g w)) = rm_held rm w"
    by (simp add: fetch_guild_member_ids_full_def internal_call_held assms)
qed

lemma get_user_info_held:
  "rolelogic_ok app rm \<Longrightarrow> rm_held rm (snd (get_user_info app g r tok w)) = rm_held rm w"
  unfolding get_user_info_def by (rule reads_held) (simp_all add: rl_request_def)

lemma link_effectsD:
  assumes "rolelogic_ok app rm" "path_segment g" "path_segment r"
  shows "link_effects app rm g r token"
  using assms by (simp add: rolelogic_ok_def)

lemma add_user_held:
  assumes ok: "rolelogic_ok app rm" "answers_all app" and seg: "path_segment g" "path_segment r" "member_segment u"
    and run: "add_user app g r u tok w = (x, w')"
  shows "rm_held rm w' = (if is_ok x then (rm_held rm w)((g, r) := insert u (rm_held rm w (g, r)))
    else rm_held rm w)"
proof -
  have "effect app (rm_held rm) (member_request app POST g r u tok)
      (\<lambda>w. (rm_held rm w)((g, r) := insert u (rm_held rm w (g, r))))"
    using link_effectsD [OF ok(1) seg(1,2), of tok] seg(3) by (simp add: link_effects_def)
  then show ?thesis
    by (rule effect_call [OF _ ok(2) _ _ run [unfolded add_user_def, folded member_request_def]])
      (auto simp: io_then_def rl_json_parsed split: sum.splits)
qed

lemma remove_user_held:
  assumes ok: "rolelogic_ok app rm" "answers_all app" and seg: "path_segment g" "path_segment r" "member_segment u"
    and run: "remove_user app g r u tok w = (x, w')"
  shows "rm_held rm w' = (if is_ok x then (rm_held rm w)((g, r) := rm_held rm w (g, r) - {u})
    else rm_held rm w)"
proof -
  have "effect app (rm_held rm) (member_request app DELETE g r u tok)
      (\<lambda>w. (rm_held rm w)((g, r) := rm_held rm w (g, r) - {u}))"
    using link_effectsD [OF ok(1) seg(1,2), of tok] seg(3) by (simp add: link_effects_def)
  then show ?thesis
    by (rule effect_call [OF _ ok(2) _ _ run [unfolded remove_user_def, folded member_request_def]])
      (auto simp: io_then_def rl_json_parsed split: sum.splits)
qed

lemma replace_users_held:
  assumes ok: "rolelogic_ok app rm" "answers_all app" and seg: "path_segment g" "path_segment r"
    and run: "replace_users app g r us tok w = (x, w')"
  shows "rm_held rm w' = (if is_ok x then (rm_held rm w)((g, r) := set us) else rm_held rm w)"
proof -
  have "effect app (rm_held rm) (put_request app g r us tok) (\<lambda>w. (rm_held rm w)((g, r) := set us))"
    using link_effectsD [OF ok(1) seg, of tok] by (simp add: link_effects_def)
  then show ?thesis
    by (rule effect_call [OF _ ok(2) _ _ run [unfolded replace_users_def, folded put_request_def]])
      (auto simp: io_then_def rl_json_parsed split: sum.splits)
qed

text \<open>An upload in chunks: nothing is held until the commit, which takes what was staged.\<close>

lemma cancel_held:
  assumes ok: "rolelogic_ok app rm" "answers_all app" and seg: "path_segment g" "path_segment r" "path_segment u"
  shows "rm_held rm (snd (cancel_upload app g r u tok w)) = rm_held rm w"
proof -
  obtain x w' where run: "cancel_upload app g r u tok w = (x, w')" by (rule prod.exhaust)
  have "effect app (rm_held rm) (cancel_request app g r u tok) (rm_held rm)"
    using link_effectsD [OF ok(1) seg(1,2), of tok] seg(3) by (simp add: link_effects_def)
  from effect_call [OF this ok(2) _ _ run [unfolded cancel_upload_def]] run show ?thesis by simp
qed

lemma chunk_effects:
  assumes ok: "rolelogic_ok app rm" "answers_all app" and seg: "path_segment g" "path_segment r" "path_segment u"
    and run: "upload_chunk app g r u us tok w = (x, w')"
  shows "rm_held rm w' = rm_held rm w"
    and "is_ok x \<Longrightarrow> rm_staged rm w' (g, r, u) = rm_staged rm w (g, r, u) \<union> set us"
proof -
  have eff: "effect app (rm_held rm) (chunk_request app g r u tok us) (rm_held rm)"
    "effect app (rm_staged rm) (chunk_request app g r u tok us)
       (\<lambda>w. (rm_staged rm w)((g, r, u) := rm_staged rm w (g, r, u) \<union> set us))"
    using link_effectsD [OF ok(1) seg(1,2), of tok] seg(3) by (simp_all add: link_effects_def)
  note call = effect_call [OF _ ok(2) _ _ run [unfolded upload_chunk_def]]
  show "rm_held rm w' = rm_held rm w" using call [OF eff(1)] by simp
  show "is_ok x \<Longrightarrow> rm_staged rm w' (g, r, u) = rm_staged rm w (g, r, u) \<union> set us"
    using call [OF eff(2)] by simp
qed

lemma chunks_effects:
  assumes ok: "rolelogic_ok app rm" "answers_all app" and seg: "path_segment g" "path_segment r" "path_segment u"
  shows "upload_chunks app g r u tok cs w = (x, w') \<Longrightarrow>
    rm_held rm w' = rm_held rm w \<and>
    (is_ok x \<longrightarrow> rm_staged rm w' (g, r, u) = rm_staged rm w (g, r, u) \<union> set (concat cs))"
proof (induction cs arbitrary: w)
  case (Cons c cs)
  obtain y w1 where c: "upload_chunk app g r u c tok w = (y, w1)" by (rule prod.exhaust)
  note eff = chunk_effects [OF ok seg c]
  show ?case
  proof (cases y)
    case (Inl e)
    with c Cons.prems have "x = Inl e" "w' = snd (cancel_upload app g r u tok w1)" by auto
    with eff(1) cancel_held [OF ok seg, of tok w1] show ?thesis by simp
  next
    case (Inr v)
    with c Cons.prems have "upload_chunks app g r u tok cs w1 = (x, w')" by simp
    from Cons.IH [OF this] eff Inr show ?thesis by auto
  qed
qed simp

lemma commit_held:
  assumes ok: "rolelogic_ok app rm" "answers_all app" and seg: "path_segment g" "path_segment r" "path_segment u"
    and run: "commit_upload app g r u tok w = (x, w')"
  shows "rm_held rm w' = (if is_ok x then (rm_held rm w)((g, r) := rm_staged rm w (g, r, u)) else rm_held rm w)"
proof -
  have "effect app (rm_held rm) (commit_request app g r u tok)
      (\<lambda>w. (rm_held rm w)((g, r) := rm_staged rm w (g, r, u)))"
    using link_effectsD [OF ok(1) seg(1,2), of tok] seg(3) by (simp add: link_effects_def)
  then show ?thesis
    by (rule effect_call [OF _ ok(2) _ _ run [unfolded commit_upload_def]])
      (auto simp: io_then_def rl_json_parsed split: sum.splits)
qed

lemma start_effects:
  assumes ok: "rolelogic_ok app rm" "answers_all app" and seg: "path_segment g" "path_segment r"
    and run: "start_upload app g r tok w = (x, w')"
  shows "rm_held rm w' = rm_held rm w"
    and "x = Inr u \<Longrightarrow> path_segment u \<and> rm_staged rm w' (g, r, u) = {}"
proof -
  have law: "effect app (rm_held rm) (start_request app g r tok) (rm_held rm)"
    "\<And>w resp w' u. ap_send app (start_request app g r tok) w = (Inr resp, w') \<Longrightarrow> is_success resp \<Longrightarrow>
       upload_id_of app resp = Some u \<Longrightarrow> path_segment u \<and> rm_staged rm w' (g, r, u) = {}"
    using link_effectsD [OF ok(1) seg, of tok] unfolding link_effects_def by blast+
  obtain y w1 where s: "ap_send app (start_request app g r tok) w = (y, w1)" by (rule prod.exhaust)
  moreover from this ok(2) obtain resp where y: "y = Inr resp" unfolding answers_all_def by (metis fst_conv)
  ultimately have run': "(x, w') = (if \<not> is_success resp then
       io_fail (if link_gone resp then RoleLinkNotFound
                else if link_inactive resp then RoleLinkDisabled
                else rl_failed app ''Start upload'' resp)
     else io_then (io_lift (rl_json app resp)) (\<lambda>body.
       io_lift (ok_or (as_str (json_at (json_at body ''data'') ''upload_id''))
                  (RoleLogic ''Start upload response missing upload_id'')))) w1"
    using run by (simp add: start_upload_def start_request_def [symmetric] send_req_def io_then_def)
  then have w': "w' = w1" by (auto split: if_splits) (metis lift_then_lift snd_conv)
  have "rm_held rm w1 = rm_held rm w"
    using law(1) s y unfolding effect_def by (auto split: if_splits dest!: spec [of _ w])
  with w' show "rm_held rm w' = rm_held rm w" by simp
  show "path_segment u \<and> rm_staged rm w' (g, r, u) = {}" if "x = Inr u"
  proof -
    from that run' have "is_success resp" by (auto split: if_splits)
    moreover from this that run' have "upload_id_of app resp = Some u"
      by (auto simp: upload_id_of_def io_then_def ok_or_Inr_iff split: sum.splits)
        (metis ok_or_Inr_iff)
    ultimately show ?thesis using law(2) s y w' by blast
  qed
qed

lemma upload_users_held:
  assumes ok: "rolelogic_ok app rm" "answers_all app" and seg: "path_segment g" "path_segment r"
    and run: "upload_users app g r us tok w = (x, w')"
  shows "rm_held rm w' = (if is_ok x then (rm_held rm w)((g, r) := set us) else rm_held rm w)"
proof (cases "length us \<le> put_max_users")
  case True
  with run have "replace_users app g r us tok w = (x, w')" by (simp add: upload_users_def)
  then show ?thesis by (rule replace_users_held [OF ok seg])
next
  case big: False
  obtain y w1 where start: "start_upload app g r tok w = (y, w1)" by (rule prod.exhaust)
  note st = start_effects [OF ok seg start]
  show ?thesis
  proof (cases y)
    case (Inl e)
    with big run start st(1) show ?thesis by (auto simp: upload_users_def)
  next
    case (Inr u)
    with st(2) have u: "path_segment u" "rm_staged rm w1 (g, r, u) = {}" by simp_all
    obtain z w2 where chunks: "upload_chunks app g r u tok (chunks chunk_size us) w1 = (z, w2)"
      by (rule prod.exhaust)
    note ch = chunks_effects [OF ok seg u(1) chunks]
    show ?thesis
    proof (cases z)
      case (Inl e)
      with big run start \<open>y = Inr u\<close> chunks st(1) ch show ?thesis by (auto simp: upload_users_def)
    next
      case (Inr v)
      with big run start \<open>y = Inr u\<close> chunks have "commit_upload app g r u tok w2 = (x, w')"
        by (auto simp: upload_users_def)
      moreover have "rm_staged rm w2 (g, r, u) = set us"
        using ch Inr u(2) chunks_cover [of us] by simp
      ultimately show ?thesis using commit_held [OF ok seg u(1)] st(1) ch by simp
    qed
  qed
qed

subsection \<open>The bulk sync keeps the two in step\<close>

lemma in_step_same:
  "in_step rm st \<Longrightarrow> fst st' = fst st \<Longrightarrow> rm_held rm (snd st') = rm_held rm (snd st) \<Longrightarrow> in_step rm st'"
  by (simp add: in_step_def)

lemma in_step_enqueue:
  "in_step rm st \<Longrightarrow> rm_held rm (snd st') = rm_held rm (snd st) \<Longrightarrow>
   fst st' = enqueue_config_sync_unless_queued now g r s (fst st) \<Longrightarrow> in_step rm st'"
  by (simp add: in_step_def) (simp add: enqueue_config_sync_unless_queued_def)

text \<open>A link that is gone is no longer compared, and its rows go with it.\<close>

lemma in_step_orphan:
  assumes "in_step rm st" "rm_held rm (snd st') = rm_held rm (snd st)"
    and "fst st' = delete_orphan_role_link g r (fst st)"
  shows "in_step rm st'"
proof -
  have "rm_held rm (snd st') (link_key l) = set (local_users (rl_guild l) (rl_role l) (fst st'))"
    if "l \<in> set (role_links (fst st'))" for l
  proof -
    from that assms(3) have l: "l \<in> set (role_links (fst st))" "(rl_guild l, rl_role l) \<noteq> (g, r)"
      by (auto simp: delete_orphan_role_link_def delete_links_def delete_where_def link_key_def)
    then show ?thesis using assms local_users_orphan [OF l(2)] by (simp add: in_step_def)
  qed
  then show ?thesis by (simp add: in_step_def)
qed

text \<open>One link written on both sides alike.\<close>

lemma in_step_written:
  assumes "in_step rm st" "role_links (fst st') = role_links (fst st)"
    and "rm_held rm (snd st') = (rm_held rm (snd st))((g, r) := us)"
    and "\<And>g' r'. set (local_users g' r' (fst st')) =
      (if (g', r') = (g, r) then us else set (local_users g' r' (fst st)))"
  shows "in_step rm st'"
  using assms by (auto simp: in_step_def link_key_def)

lemma after_upload_in_step:
  assumes ok: "rolelogic_ok app rm" "answers_all app" and seg: "path_segment g" "path_segment r"
    and step: "in_step rm st"
    and k: "role_links (k (fst st)) = role_links (fst st)"
      "\<And>g' r'. set (local_users g' r' (k (fst st))) =
        (if (g', r') = (g, r) then set us else set (local_users g' r' (fst st)))"
    and run: "after_upload app g r us tok k st = (x, st')"
  shows "in_step rm st'"
proof -
  obtain y w where u: "upload_users app g r us tok (snd st) = (y, w)" by (rule prod.exhaust)
  note held = upload_users_held [OF ok seg u]
  from run u have run': "(x, st') = (case y of Inr _ \<Rightarrow> (Inr (), (k (fst st), w))
      | Inl RoleLinkNotFound \<Rightarrow> (Inr (), (delete_orphan_role_link g r (fst st), w))
      | Inl RoleLinkDisabled \<Rightarrow> (Inr (), (fst st, w))
      | Inl RemovalHeld \<Rightarrow>
          (Inr (), (enqueue_config_sync_unless_queued (ap_now app) g r held_recheck_secs (fst st), w))
      | Inl e \<Rightarrow> (Inl e, (fst st, w)))"
    by (auto simp: after_upload_def on_world_def recheck_held_def split: sum.splits app_error.splits)
  show ?thesis
  proof (cases y)
    case (Inr n)
    with run' held have "st' = (k (fst st), w)" "rm_held rm w = (rm_held rm (snd st))((g, r) := set us)" by auto
    then show ?thesis by (intro in_step_written [OF step]) (simp_all add: k)
  next
    case (Inl e)
    with held have w: "rm_held rm w = rm_held rm (snd st)" by simp
    consider "fst st' = fst st" | "fst st' = delete_orphan_role_link g r (fst st)"
      | "fst st' = enqueue_config_sync_unless_queued (ap_now app) g r held_recheck_secs (fst st)"
      using run' Inl by (cases e) auto
    moreover have "snd st' = w" using run' Inl by (auto split: app_error.splits)
    ultimately show ?thesis
      using w in_step_same [OF step] in_step_orphan [OF step] in_step_enqueue [OF step] by cases metis+
  qed
qed

lemma drain_in_step:
  assumes ok: "rolelogic_ok app rm" "answers_all app" and seg: "path_segment g" "path_segment r"
    and step: "in_step rm st" and run: "drain_to_empty app g r tok st = (x, st')"
  shows "in_step rm st'"
proof (cases "\<exists>a \<in> set (assignments (fst st)). assignment_link a = (g, r)")
  case True
  with run have "after_upload app g r [] tok (clear_assignments g r) st = (x, st')"
    by (auto simp: drain_to_empty_def io_then_def)
  then show ?thesis
    by (rule after_upload_in_step [OF ok seg step, rotated 2])
      (auto simp: local_users_clear, simp add: clear_assignments_def)
next
  case False
  with run step show ?thesis by (auto simp: drain_to_empty_def io_then_def)
qed

lemma write_members_in_step:
  assumes ok: "rolelogic_ok app rm" "answers_all app" and seg: "path_segment g" "path_segment r"
    and step: "in_step rm st" and run: "write_members app g r link ids limit st = (x, st')"
  shows "in_step rm st'"
proof (cases "select_qualifying app (fst st) (rl_account link) (tree_of_json (rl_tree link)) ids limit")
  case (Inl e)
  with run step show ?thesis by (auto simp: write_members_def io_then_def)
next
  case (Inr us)
  show ?thesis
  proof (cases "local_users g r (fst st) = us")
    case True
    with Inr run step show ?thesis by (auto simp: write_members_def io_then_def)
  next
    case False
    with Inr run have "after_upload app g r us (rl_token link) (replace_assignments g r us) st = (x, st')"
      by (auto simp: write_members_def io_then_def)
    then show ?thesis
      by (rule after_upload_in_step [OF ok seg step, rotated 2])
        (auto simp: local_users_replace, simp add: replace_assignments_def clear_assignments_def Let_def)
  qed
qed

lemma role_link_in_step:
  assumes ok: "rolelogic_ok app rm" "answers_all app" and seg: "links_addressable (fst st)"
    and step: "in_step rm st" and run: "sync_for_role_link app g r st = (x, st')"
  shows "in_step rm st'"
proof -
  let ?w1 = "snd (fetch_guild_member_ids app g (snd st))"
  have held: "rm_held rm ?w1 = rm_held rm (snd st)"
    "\<And>tok. rm_held rm (snd (get_user_info app g r tok ?w1)) = rm_held rm (snd st)"
    by (simp_all add: fetch_held [OF ok(1)] get_user_info_held [OF ok(1)])
  have addressable: "path_segment g \<and> path_segment r" if "find_link g r (fst st) = Some link" for link
    using that seg find_row_Some_in [of link_key "(g, r)" "role_links (fst st)" link]
    by (auto simp: find_link_def links_addressable_def link_key_def)
  show ?thesis using run
  proof (cases rule: sync_role_link_cases)
    case (stopped w1)
    with held in_step_same [OF step] show ?thesis by metis
  next
    case (gone tok)
    with held in_step_orphan [OF step] show ?thesis by metis
  next
    case (drained link w)
    have "rm_held rm w = rm_held rm (snd st)" using drained(2) held by blast
    with step have "in_step rm (fst st, w)" by (simp add: in_step_def)
    with drained drain_in_step [OF ok] addressable show ?thesis by blast
  next
    case (written link ids limit w1 w2)
    have "w1 = ?w1" using written(2) by simp
    with written(3) held have "rm_held rm w2 = rm_held rm (snd st)" by metis
    with step have "in_step rm (fst st, w2)" by (simp add: in_step_def)
    with written write_members_in_step [OF ok] addressable show ?thesis by blast
  qed
qed

subsection \<open>The per-player sync keeps them in step\<close>

lemma local_users_set: "set (local_users g r d) = {u. (g, r, u) \<in> held_keys d}"
  by (auto simp: local_users_def assignment_key_def assignment_link_def image_iff)

lemma in_step_keys:
  "in_step rm st \<longleftrightarrow> (\<forall>l \<in> set (role_links (fst st)).
     rm_held rm (snd st) (link_key l) = {u. user_key u l \<in> held_keys (fst st)})"
  by (simp add: in_step_def local_users_set user_key_def)

fun action_link :: "sync_action \<Rightarrow> string \<times> string" where
  "action_link (ActAdd g r tok) = (g, r)"
| "action_link (ActRemove g r tok) = (g, r)"

definition action_addressable :: "sync_action \<Rightarrow> bool" where
  "action_addressable a \<longleftrightarrow> path_segment (fst (action_link a)) \<and> path_segment (snd (action_link a))"

lemma insert_assignment_links [simp]: "role_links (insert_assignment g r u d) = role_links d"
  by (simp add: insert_assignment_def)

lemma delete_assignment_links [simp]: "role_links (delete_assignment g r u d) = role_links d"
  by (simp add: delete_assignment_def)

lemma link_key_eq: "link_key l = (g, r) \<longleftrightarrow> user_key u l = (g, r, u)"
  by (auto simp: link_key_def user_key_def)

lemma added_in_step:
  assumes step: "in_step rm st" and d: "fst st' = insert_assignment g r u (fst st)"
    and w: "rm_held rm (snd st') = (rm_held rm (snd st))((g, r) := insert u (rm_held rm (snd st) (g, r)))"
  shows "in_step rm st'"
  unfolding in_step_keys
proof
  fix l assume "l \<in> set (role_links (fst st'))"
  then have l: "l \<in> set (role_links (fst st))" using d by simp
  with step have held: "rm_held rm (snd st) (link_key l) = {v. user_key v l \<in> held_keys (fst st)}"
    by (simp add: in_step_keys)
  show "rm_held rm (snd st') (link_key l) = {v. user_key v l \<in> held_keys (fst st')}"
  proof (cases "link_key l = (g, r)")
    case True
    then have "(g, r) \<in> link_key ` set (role_links (fst st))" using l by force
    from insert_assignment_keys [OF this, of u] True held show ?thesis
      by (auto simp: d w user_key_def link_key_def)
  next
    case False
    have key: "assignment_key \<lparr>as_guild = g, as_role = r, as_user = u\<rparr> = (g, r, u)"
      by (simp add: assignment_key_def)
    have "held_keys (fst st') \<subseteq> insert (g, r, u) (held_keys (fst st)) \<and> held_keys (fst st) \<subseteq> held_keys (fst st')"
      unfolding d by (cases "find_link g r (fst st)") (auto simp: insert_assignment_def keep.keys_upsert key)
    moreover have "user_key v l \<noteq> (g, r, u)" for v using False by (auto simp: link_key_def user_key_def)
    ultimately show ?thesis using False held by (auto simp: w)
  qed
qed

lemma removed_in_step:
  assumes step: "in_step rm st" and d: "fst st' = delete_assignment g r u (fst st)"
    and w: "rm_held rm (snd st') = (rm_held rm (snd st))((g, r) := rm_held rm (snd st) (g, r) - {u})"
  shows "in_step rm st'"
  unfolding in_step_keys
proof
  fix l assume "l \<in> set (role_links (fst st'))"
  then have "rm_held rm (snd st) (link_key l) = {v. user_key v l \<in> held_keys (fst st)}"
    using d step by (simp add: in_step_keys)
  then show "rm_held rm (snd st') (link_key l) = {v. user_key v l \<in> held_keys (fst st')}"
    by (auto simp: d w delete_assignment_keys user_key_def link_key_def)
qed

lemma perform_action_in_step:
  assumes ok: "rolelogic_ok app rm" "answers_all app" and seg: "action_addressable a" "member_segment u"
    and step: "in_step rm st"
  shows "in_step rm (perform_action app u a st)"
proof (cases a)
  case (ActAdd g r tok)
  obtain x w where run: "add_user app g r u tok (snd st) = (x, w)" by (rule prod.exhaust)
  have "path_segment g" "path_segment r" using seg(1) ActAdd by (simp_all add: action_addressable_def)
  note held = add_user_held [OF ok this seg(2) run]
  show ?thesis
  proof (cases x)
    case (Inr b)
    with run held ActAdd show ?thesis by (intro added_in_step [OF step, of _ g r u]) simp_all
  next
    case (Inl e)
    with held have "rm_held rm w = rm_held rm (snd st)" by simp
    with run Inl ActAdd in_step_same [OF step] in_step_orphan [OF step] show ?thesis by (cases e) auto
  qed
next
  case (ActRemove g r tok)
  obtain x w where run: "remove_user app g r u tok (snd st) = (x, w)" by (rule prod.exhaust)
  have "path_segment g" "path_segment r" using seg(1) ActRemove by (simp_all add: action_addressable_def)
  note held = remove_user_held [OF ok this seg(2) run]
  show ?thesis
  proof (cases x)
    case (Inr b)
    with run held ActRemove show ?thesis by (intro removed_in_step [OF step, of _ g r u]) simp_all
  next
    case (Inl e)
    with held have "rm_held rm w = rm_held rm (snd st)" by simp
    with run Inl ActRemove in_step_same [OF step] in_step_orphan [OF step] show ?thesis by (cases e) auto
  qed
qed

lemma perform_actions_in_step:
  assumes "rolelogic_ok app rm" "answers_all app" "member_segment u"
  shows "\<forall>a \<in> set as. action_addressable a \<Longrightarrow> in_step rm st \<Longrightarrow>
    in_step rm (foldl (\<lambda>st a. perform_action app u a st) st as)"
  by (induction as arbitrary: st) (simp_all add: perform_action_in_step assms)

lemma planned_link: "plan_action app d u l = Some a \<Longrightarrow> action_link a = link_key l"
  by (auto simp: plan_action_def Let_def link_key_def split: bool.splits)

lemma planned_actions:
  "a \<in> set (List.map_filter (plan_action app d u) (filter P (role_links d))) \<Longrightarrow>
   \<exists>l \<in> set (role_links d). plan_action app d u l = Some a"
  by (auto simp: List.map_filter_def)

lemma player_in_step:
  assumes ok: "rolelogic_ok app rm" "answers_all app"
    and seg: "links_addressable (fst st)" "member_segment u"
    and step: "in_step rm st" and run: "sync_for_player app u st = (x, st')"
  shows "in_step rm st'"
proof -
  obtain y w where f: "fetch_user_guild_ids app u (snd st) = (y, w)" by (rule prod.exhaust)
  have held: "rm_held rm w = rm_held rm (snd st)" using fetch_held(1) [OF ok(1), of u "snd st"] f by simp
  show ?thesis
  proof (cases "\<exists>gs. y = Inr gs \<and> gs \<noteq> []")
    case False
    with run f have "fst st' = fst st" "snd st' = w"
      by (auto simp: sync_for_player_def io_then_def on_world_def split: sum.splits)
    with held step show ?thesis by (simp add: in_step_def)
  next
    case True
    then obtain gs where gs: "y = Inr gs" "gs \<noteq> []" by blast
    let ?d = "ensure_baseline_relations (ap_now app) u gs (fst st)"
    let ?as = "List.map_filter (plan_action app ?d u) (filter (\<lambda>l. rl_guild l \<in> set gs) (role_links ?d))"
    have st': "st' = foldl (\<lambda>st a. perform_action app u a st) (?d, w) ?as"
      using run f gs by (auto simp: sync_for_player_def io_then_def on_world_def)
    have "action_addressable a" if "a \<in> set ?as" for a
      using planned_actions [OF that] seg(1)
      by (auto simp: action_addressable_def links_addressable_def baseline_other_tables link_key_def
          dest!: planned_link)
    moreover have "in_step rm (?d, w)"
      using step held by (simp add: in_step_keys baseline_other_tables)
    ultimately show ?thesis unfolding st' using perform_actions_in_step [OF ok seg(2)] by blast
  qed
qed

subsection \<open>Answers that get lost\<close>

text \<open>A call for one link leaves the others alone, answered or not.\<close>

lemma effect_frame:
  assumes "effect app read rq f" "\<And>w. f w k = read w k" "\<And>resp w. snd (c resp w) = w"
  shows "read (snd (io_then (send_req app err rq) c w)) k = read w k"
proof -
  obtain y w1 where s: "ap_send app rq w = (y, w1)" by (rule prod.exhaust)
  with assms(1) [unfolded effect_def, rule_format, of w] have "read w1 = read w \<or> read w1 = f w"
    by (cases y) (simp_all split: if_splits)
  with assms(2) have "read w1 k = read w k" by metis
  with s assms(3) show ?thesis by (cases y) (simp_all add: io_then_def send_req_def)
qed

lemma perform_action_world:
  "snd (perform_action app u a st) =
     (case a of ActAdd g r tok \<Rightarrow> snd (add_user app g r u tok (snd st))
      | ActRemove g r tok \<Rightarrow> snd (remove_user app g r u tok (snd st)))"
proof (cases a)
  case (ActAdd g r tok)
  obtain x w where "add_user app g r u tok (snd st) = (x, w)" by (rule prod.exhaust)
  with ActAdd show ?thesis by (auto split: sum.split app_error.split)
next
  case (ActRemove g r tok)
  obtain x w where "remove_user app g r u tok (snd st) = (x, w)" by (rule prod.exhaust)
  with ActRemove show ?thesis by (auto split: sum.split app_error.split)
qed

lemma perform_action_frame:
  assumes ok: "rolelogic_ok app rm" and seg: "action_addressable a" "member_segment u"
    and k: "action_link a \<noteq> k"
  shows "rm_held rm (snd (perform_action app u a st)) k = rm_held rm (snd st) k"
proof (cases a)
  case (ActAdd g r tok)
  have "path_segment g" "path_segment r" using seg(1) ActAdd by (simp_all add: action_addressable_def)
  from link_effectsD [OF ok this, of tok] seg(2)
  have "effect app (rm_held rm) (member_request app POST g r u tok)
      (\<lambda>w. (rm_held rm w)((g, r) := insert u (rm_held rm w (g, r))))" by (simp add: link_effects_def)
  then have "rm_held rm (snd (add_user app g r u tok (snd st))) k = rm_held rm (snd st) k"
    unfolding add_user_def member_request_def by (rule effect_frame) (use k ActAdd in auto)
  with perform_action_world [of app u a st] ActAdd show ?thesis by simp
next
  case (ActRemove g r tok)
  have "path_segment g" "path_segment r" using seg(1) ActRemove by (simp_all add: action_addressable_def)
  from link_effectsD [OF ok this, of tok] seg(2)
  have "effect app (rm_held rm) (member_request app DELETE g r u tok)
      (\<lambda>w. (rm_held rm w)((g, r) := rm_held rm w (g, r) - {u}))" by (simp add: link_effects_def)
  then have "rm_held rm (snd (remove_user app g r u tok (snd st))) k = rm_held rm (snd st) k"
    unfolding remove_user_def member_request_def by (rule effect_frame) (use k ActRemove in auto)
  with perform_action_world [of app u a st] ActRemove show ?thesis by simp
qed

lemma perform_actions_frame:
  assumes "rolelogic_ok app rm" "member_segment u"
  shows "\<forall>a \<in> set as. action_addressable a \<and> action_link a \<noteq> k \<Longrightarrow>
    rm_held rm (snd (foldl (\<lambda>st a. perform_action app u a st) st as)) k = rm_held rm (snd st) k"
  by (induction as arbitrary: st) (simp_all add: perform_action_frame assms)

text \<open>What the rows and the rule already agree on is not touched, whatever RoleLogic holds.\<close>

lemma unplanned_untouched:
  assumes ok: "rolelogic_ok app rm" and db: "db_ok (fst st)"
    and seg: "links_addressable (fst st)" "member_segment u"
    and l: "l \<in> set (role_links (fst st))"
    and agree: "\<And>gs. plan_action app (ensure_baseline_relations (ap_now app) u gs (fst st)) u l = None"
    and run: "sync_for_player app u st = (x, st')"
  shows "rm_held rm (snd st') (link_key l) = rm_held rm (snd st) (link_key l)"
proof -
  obtain y w where f: "fetch_user_guild_ids app u (snd st) = (y, w)" by (rule prod.exhaust)
  have held: "rm_held rm w = rm_held rm (snd st)" using fetch_held(1) [OF ok, of u "snd st"] f by simp
  show ?thesis
  proof (cases "\<exists>gs. y = Inr gs \<and> gs \<noteq> []")
    case False
    with run f have "snd st' = w"
      by (auto simp: sync_for_player_def io_then_def on_world_def split: sum.splits)
    with held show ?thesis by simp
  next
    case True
    then obtain gs where gs: "y = Inr gs" "gs \<noteq> []" by blast
    let ?d = "ensure_baseline_relations (ap_now app) u gs (fst st)"
    let ?as = "List.map_filter (plan_action app ?d u) (filter (\<lambda>l. rl_guild l \<in> set gs) (role_links ?d))"
    have st': "st' = foldl (\<lambda>st a. perform_action app u a st) (?d, w) ?as"
      using run f gs by (auto simp: sync_for_player_def io_then_def on_world_def)
    have "action_addressable a \<and> action_link a \<noteq> link_key l" if a: "a \<in> set ?as" for a
    proof -
      obtain m where m: "m \<in> set (role_links (fst st))" "plan_action app ?d u m = Some a"
        using planned_actions [OF a] by (auto simp: baseline_other_tables)
      have "m \<noteq> l" using m(2) agree [of gs] by auto
      then have "link_key m \<noteq> link_key l"
        using db m(1) l by (auto simp: db_ok_def keys_ok_def unique_key_def distinct_map inj_on_def)
      with m seg(1) planned_link [OF m(2)] show ?thesis
        by (simp add: action_addressable_def links_addressable_def link_key_def)
    qed
    from perform_actions_frame [OF ok seg(2), of ?as "link_key l" "(?d, w)"] this held
    show ?thesis unfolding st' by simp
  qed
qed

end
