(* ===== verification/Mirror_Worker.thy ===== *)
theory Mirror_Worker
  imports Remote_Mirror Worker
begin

section \<open>The worker and the mirror\<close>

text \<open>
  Every job keeps \<open>mirror_ok\<close>, so a pass of the worker and a reconciliation do: the calls of an account
  refresh go to Bluesky (\<open>held_by_refresh\<close>), its statements touch neither links nor assignments.
\<close>

subsection \<open>An account refresh\<close>

text \<open>The Bluesky server is not RoleLogic: a renewed session is no write there.\<close>

definition pds_apart :: "'w app \<Rightarrow> bool" where
  "pds_apart app \<longleftrightarrow>
     \<not> prefix (rl_base app) (pds app @ ''/xrpc/com.atproto.server.refreshSession'')"

lemma xrpc_held:
  "rolelogic_ok app rm \<Longrightarrow> rq_method rq = GET \<or> \<not> prefix (rl_base app) (rq_url rq) \<Longrightarrow>
   rm_held rm (snd (xrpc app what dec rq w)) = rm_held rm w"
  unfolding xrpc_def by (rule reads_held) simp_all

lemma pages_held:
  assumes "\<And>c w. rm_held rm (snd (fetch c w)) = rm_held rm w"
  shows "rm_held rm (snd (first_pages n fetch c out w)) = rm_held rm w"
proof (induction n arbitrary: c out w)
  case (Suc n)
  obtain x w1 where f: "fetch c w = (x, w1)" by (rule prod.exhaust)
  with assms [of c w] Suc.IH show ?case by (auto split: sum.split option.split)
qed simp

lemma drain_held:
  assumes fetch: "\<And>c w. rm_held rm (snd (fetch c w)) = rm_held rm w"
    and run: "drain fetch m c out w = Some r"
  shows "rm_held rm (snd r) = rm_held rm w"
  using run fetch
proof (induction rule: drain.raw_induct [rotated, consumes 1])
  case (1 drain' fetch m c out w r)
  obtain x w1 where f: "fetch c w = (x, w1)" by (rule prod.exhaust)
  have w1: "rm_held rm w1 = rm_held rm w" using 1(3) [of c w] f by simp
  show ?case
  proof (cases x)
    case (Inl e)
    with 1(2) f w1 show ?thesis by auto
  next
    case (Inr page)
    obtain items nxt where page: "page = (items, nxt)" by (rule prod.exhaust)
    obtain out' full where push: "push_items m items out = (out', full)" by (rule prod.exhaust)
    show ?thesis
    proof (cases "full \<or> nxt = None")
      case True
      with 1(2) f Inr page push w1 show ?thesis by (auto split: if_splits)
    next
      case False
      then obtain c' where "nxt = Some c'" "\<not> full" by auto
      with 1(2) f Inr page push have "drain' fetch m (Some c') out' w1 = Some r" by simp
      from 1(1) [OF this 1(3)] w1 show ?thesis by simp
    qed
  qed
qed

lemma paged_calls_held:
  assumes "rolelogic_ok app rm"
  shows "list_followers app jwt did m w = Some r \<Longrightarrow> rm_held rm (snd r) = rm_held rm w"
    "list_follows app jwt did m w = Some r \<Longrightarrow> rm_held rm (snd r) = rm_held rm w"
    "list_members_of app jwt uri m w = Some r \<Longrightarrow> rm_held rm (snd r) = rm_held rm w"
    "rm_held rm (snd (list_user_lists app jwt did w)) = rm_held rm w"
    "rm_held rm (snd (list_starter_packs app jwt did w)) = rm_held rm w"
    "rm_held rm (snd (get_profile_authed app jwt did w)) = rm_held rm w"
proof -
  note get = xrpc_held [OF assms]
  show "list_followers app jwt did m w = Some r \<Longrightarrow> rm_held rm (snd r) = rm_held rm w"
    unfolding list_followers_def
    by (rule drain_held [rotated]) (auto simp: followers_fetch_def page_request_def get)
  show "list_follows app jwt did m w = Some r \<Longrightarrow> rm_held rm (snd r) = rm_held rm w"
    unfolding list_follows_def
    by (rule drain_held [rotated]) (auto simp: follows_fetch_def page_request_def get)
  show "list_members_of app jwt uri m w = Some r \<Longrightarrow> rm_held rm (snd r) = rm_held rm w"
    unfolding list_members_of_def
    by (rule drain_held [rotated]) (auto simp: members_fetch_def page_request_def get)
  show "rm_held rm (snd (list_user_lists app jwt did w)) = rm_held rm w"
    "rm_held rm (snd (list_starter_packs app jwt did w)) = rm_held rm w"
    unfolding list_user_lists_def list_starter_packs_def
    by (rule pages_held; simp add: page_request_def get)+
  show "rm_held rm (snd (get_profile_authed app jwt did w)) = rm_held rm w"
    by (simp add: get_profile_authed_def get)
qed

text \<open>The world's side of a partial computation.\<close>

lemma opreserves_snd:
  "(\<And>w. H (snd (m w)) = H w) \<Longrightarrow> opreserves (\<lambda>s. H (snd s) = h) (total (on_world m))"
  "(\<And>w r. n w = Some r \<Longrightarrow> H (snd r) = H w) \<Longrightarrow> opreserves (\<lambda>s. H (snd s) = h) (ot_world n)"
  "opreserves (\<lambda>s. H (snd s) = h) (total (on_db f))"
  "opreserves (\<lambda>s. H (snd s) = h) (total (io_return a))"
proof -
  show "opreserves (\<lambda>s. H (snd s) = h) (total (on_world m))" if m: "\<And>w. H (snd (m w)) = H w"
  proof (rule opreserves_total)
    fix s show "H (snd s) = h \<Longrightarrow> H (snd (snd (on_world m s))) = h"
      using m [of "snd s"] by (cases "m (snd s)") (simp add: on_world_def)
  qed
  show "opreserves (\<lambda>s. H (snd s) = h) (ot_world n)" if "\<And>w r. n w = Some r \<Longrightarrow> H (snd r) = H w"
    using that by (fastforce simp: opreserves_def ot_world_def)
qed (auto simp: opreserves_def total_def)

lemma token_held:
  assumes "rolelogic_ok app rm" "pds_apart app"
  shows "rm_held rm (snd (snd (valid_access_jwt app did st))) = rm_held rm (snd st)"
proof -
  have "rm_held rm (snd (refresh_session app t w)) = rm_held rm w" for t w
    unfolding refresh_session_def
    by (rule xrpc_held [OF assms(1)]) (use assms(2) in \<open>simp add: pds_apart_def\<close>)
  then have "rm_held rm (snd (snd (on_world (refresh_session app t) st))) = rm_held rm (snd st)" for t
    by (metis (no_types, lifting) on_world_def prod.collapse prod.simps(2) snd_conv)
  then show ?thesis
    unfolding valid_access_jwt_def
    by (auto split: option.splits sum.splits prod.splits) (metis snd_conv)+
qed

lemma held_by_refresh:
  assumes "rolelogic_ok app rm" "pds_apart app"
  shows "opreserves (\<lambda>s. rm_held rm (snd s) = h) (refresh_account app did)"
proof -
  note calls = paged_calls_held [OF assms(1)] and snds = opreserves_snd [where H = "rm_held rm"]
  have token: "opreserves (\<lambda>s. rm_held rm (snd s) = h) (total (valid_access_jwt app did))"
    by (rule opreserves_total) (simp add: token_held assms)
  have lists: "opreserves (\<lambda>s. rm_held rm (snd s) = h) (refresh_lists app t did)" for t
    unfolding refresh_lists_def
    by (intro opreserves_then opreserves_attempt snds calls)
      (auto split: sum.split intro!: snds opreserves_then opreserves_each opreserves_attempt calls
        simp del: on_db_step io_basic)
  have packs: "opreserves (\<lambda>s. rm_held rm (snd s) = h) (refresh_packs app t did)" for t
    unfolding refresh_packs_def refresh_pack_def
    by (intro opreserves_then opreserves_attempt snds calls)
      (auto split: sum.split option.split intro!: snds opreserves_then opreserves_each opreserves_attempt calls
        simp del: on_db_step io_basic)
  show ?thesis
    unfolding refresh_account_def refresh_profile_def refresh_graph_def
    by (intro opreserves_then token lists packs snds opreserves_attempt calls)
      (auto split: sum.split intro!: snds simp del: on_db_step io_basic)
qed

subsection \<open>Jobs\<close>

definition mirror_ok :: "'w rolelogic \<Rightarrow> db \<times> 'w \<Rightarrow> bool" where
  "mirror_ok rm s \<longleftrightarrow> full_ok (fst s) \<and> links_addressable (fst s) \<and> in_step rm s"

definition job_addressable :: "job \<Rightarrow> bool" where
  "job_addressable j \<longleftrightarrow> (\<forall>u. decode_player_payload (j_payload j) = Some u \<longrightarrow> member_segment u)"

lemma links_addressable_subset:
  "links_addressable d \<Longrightarrow> set (role_links d') \<subseteq> set (role_links d) \<Longrightarrow> links_addressable d'"
  by (auto simp: links_addressable_def)

text \<open>Statements on other tables.\<close>

lemma mirror_other_tables:
  assumes "mirror_ok rm s" "full_ok (fst s')" "role_links (fst s') = role_links (fst s)"
    and "assignments (fst s') = assignments (fst s)" "rm_held rm (snd s') = rm_held rm (snd s)"
  shows "mirror_ok rm s'"
  using assms by (simp add: mirror_ok_def in_step_keys links_addressable_def)

lemma perform_action_subset:
  "set (role_links (fst (perform_action app u a st))) \<subseteq> set (role_links (fst st))"
  by (cases a)
    (auto simp: delete_orphan_role_link_def delete_links_def delete_where_def
      split: prod.splits sum.splits app_error.splits)

lemma perform_actions_subset:
  "set (role_links (fst (foldl (\<lambda>st a. perform_action app u a st) st as))) \<subseteq> set (role_links (fst st))"
  by (induction as arbitrary: st) (use perform_action_subset in fastforce)+

lemma player_links_subset: "set (role_links (fst (snd (sync_for_player app u st)))) \<subseteq> set (role_links (fst st))"
proof -
  obtain y w where f: "fetch_user_guild_ids app u (snd st) = (y, w)" by (rule prod.exhaust)
  show ?thesis
  proof (cases y)
    case (Inl e)
    with f show ?thesis by (simp add: sync_for_player_def io_then_def on_world_def)
  next
    case (Inr gs)
    let ?d = "ensure_baseline_relations (ap_now app) u gs (fst st)"
    have "role_links ?d = role_links (fst st)" by (rule baseline_other_tables)
    with f Inr perform_actions_subset [of app u "(?d, w)"] show ?thesis
      by (simp add: sync_for_player_def io_then_def on_world_def)
  qed
qed

lemma role_link_write_subset: "role_link_write app g r d d' \<Longrightarrow> set (role_links d') \<subseteq> set (role_links d)"
proof -
  have "role_links (clear_assignments g r d) = role_links d"
    "role_links (replace_assignments g r us d) = role_links d"
    "role_links (enqueue_config_sync_unless_queued now g r t d) = role_links d"
    "set (role_links (delete_orphan_role_link g r d)) \<subseteq> set (role_links d)" for us now t
    by (auto simp: clear_assignments_def replace_assignments_def Let_def delete_orphan_role_link_def
        delete_links_def delete_where_def enqueue_config_sync_unless_queued_def)
  note frames = this
  assume "role_link_write app g r d d'"
  then show "set (role_links d') \<subseteq> set (role_links d)"
    unfolding role_link_write_def using frames by (elim disjE exE conjE) simp_all
qed

lemma player_mirror:
  assumes ok: "rolelogic_ok app rm" "answers_all app" "member_segment u" and step: "mirror_ok rm s"
  shows "mirror_ok rm (snd (sync_for_player app u s))"
proof -
  obtain x s' where run: "sync_for_player app u s = (x, s')" by (rule prod.exhaust)
  have s: "full_ok (fst s)" "links_addressable (fst s)" "in_step rm s" using step by (simp_all add: mirror_ok_def)
  have "full_ok (fst s')" using player_sync_full [OF s(1), of app u] run by simp
  moreover have "links_addressable (fst s')"
    using links_addressable_subset [OF s(2) player_links_subset, of app u] run by simp
  moreover have "in_step rm s'" using player_in_step [OF ok(1,2) s(2) ok(3) s(3) run] .
  ultimately show ?thesis by (simp add: mirror_ok_def run)
qed

lemma role_link_mirror:
  assumes ok: "rolelogic_ok app rm" "answers_all app" and step: "mirror_ok rm s"
  shows "mirror_ok rm (snd (sync_for_role_link app g r s))"
proof -
  obtain x s' where run: "sync_for_role_link app g r s = (x, s')" by (rule prod.exhaust)
  have s: "full_ok (fst s)" "links_addressable (fst s)" "in_step rm s" using step by (simp_all add: mirror_ok_def)
  have "db_ok (fst s)" using s(1) by (simp add: full_ok_def)
  from role_link_step [OF this run] have "role_link_write app g r (fst s) (fst s')" by blast
  then have "links_addressable (fst s')" by (rule links_addressable_subset [OF s(2) role_link_write_subset])
  moreover have "full_ok (fst s')" using sync_role_link_ok [OF s(1), of app g r] run by simp
  moreover have "in_step rm s'" using role_link_in_step [OF ok s(2,3) run] .
  ultimately show ?thesis by (simp add: mirror_ok_def run)
qed

interpretation kept_mirror: refresh_invariant "\<lambda>d. role_links d = L \<and> assignments d = A" did app
  for L A did and app :: "'w app"
proof -
  have "role_links (foldl (\<lambda>d v. insert_relation now did v d) d vs) = role_links d \<and>
      assignments (foldl (\<lambda>d v. insert_relation now did v d) d vs) = assignments d" for now did d vs
    by (induction vs arbitrary: d) (simp_all add: insert_relation_def)
  then show "refresh_invariant (\<lambda>d. role_links d = L \<and> assignments d = A) did app"
    by unfold_locales
      (simp_all add: upsert_list_def gc_lists_def delete_lists_def refresh_list_members_def Let_def
        upsert_pack_def gc_packs_def delete_packs_def refresh_starter_pack_members_def store_session_def
        mark_refresh_failed_def update_profile_def write_flags_def set_followers_def set_followed_back_def
        reset_flags_def touch_account_def)
qed

lemma refresh_mirror:
  assumes "rolelogic_ok app rm" "pds_apart app" "mirror_ok rm s"
    and run: "refresh_account app did s = Some (x, s')"
  shows "mirror_ok rm s'"
proof (rule mirror_other_tables [OF assms(3)])
  show "full_ok (fst s')" by (rule refresh_account_full [OF _ run]) (use assms(3) in \<open>simp add: mirror_ok_def\<close>)
  show "role_links (fst s') = role_links (fst s)" "assignments (fst s') = assignments (fst s)"
    using opreservesD [OF kept_mirror.refresh_inv _ run] by simp_all
  show "rm_held rm (snd s') = rm_held rm (snd s)"
    using opreservesD [OF held_by_refresh [OF assms(1,2)] _ run] by simp
qed

lemma enqueue_tables:
  "role_links (enqueue now k p t d) = role_links d" "assignments (enqueue now k p t d) = assignments d"
  by (simp_all add: enqueue_def)

lemma fan_out_tables:
  "role_links (foldl (\<lambda>d l. enqueue_config_sync now (rl_guild l) (rl_role l) d) d ls) = role_links d"
  "assignments (foldl (\<lambda>d l. enqueue_config_sync now (rl_guild l) (rl_role l) d) d ls) = assignments d"
  by (induction ls arbitrary: d) (simp_all add: enqueue_config_sync_def enqueue_tables)

lemma fan_out_mirror: "mirror_ok rm s \<Longrightarrow> mirror_ok rm (snd (sync_for_account app did s))"
proof (rule mirror_other_tables)
  assume "mirror_ok rm s"
  then show "full_ok (fst (snd (sync_for_account app did s)))"
    by (intro account_fan_out_full) (simp add: mirror_ok_def)
qed (simp_all add: sync_for_account_def fan_out_tables)

lemma dispatch_mirror:
  assumes ok: "rolelogic_ok app rm" "answers_all app" "pds_apart app"
    and j: "job_addressable j" and step: "mirror_ok rm s" and run: "dispatch app j s = Some (x, s')"
  shows "mirror_ok rm s'"
  using run
proof (cases rule: dispatch_cases)
  case failed
  with step show ?thesis by simp
next
  case (player u)
  with j player_mirror [OF ok(1,2) _ step] show ?thesis by (simp add: job_addressable_def)
next
  case (role_link g r)
  with role_link_mirror [OF ok(1,2) step] show ?thesis by simp
next
  case (account did y)
  then obtain z s1 where z: "refresh_account app did s = Some (z, s1)"
    by (auto simp: ot_then_def split: option.splits)
  from refresh_mirror [OF ok(1,3) step this] fan_out_mirror [of rm s1 app did] account z show ?thesis
    by (auto simp: ot_then_def total_def split: sum.splits)
qed

subsection \<open>A pass\<close>

lemma job_update_mirror:
  "mirror_ok rm s \<Longrightarrow> full_ok (f (fst s)) \<Longrightarrow> role_links (f (fst s)) = role_links (fst s) \<Longrightarrow>
   assignments (f (fst s)) = assignments (fst s) \<Longrightarrow> mirror_ok rm (f (fst s), snd s)"
  by (rule mirror_other_tables) simp_all

lemma finish_tables:
  "role_links (finish_job app jitter j x d) = role_links d"
  "assignments (finish_job app jitter j x d) = assignments d"
  by (simp_all add: finish_job_def complete_def fail_dead_def fail_retry_def split: sum.split job_error.split)

lemma run_job_mirror:
  assumes ok: "rolelogic_ok app rm" "answers_all app" "pds_apart app"
    and j: "job_addressable j" and step: "mirror_ok rm s" and run: "run_job app stopping jitter j s = Some s'"
  shows "mirror_ok rm s'"
proof (cases stopping)
  case True
  with run step show ?thesis
    by (auto simp: run_job_def mirror_ok_def retry_full in_step_keys links_addressable_def fail_retry_def
        dest: retry_full)
next
  case False
  with run obtain x s1 where d: "dispatch app j s = Some (x, s1)" and s': "s' = (finish_job app jitter j x (fst s1), snd s1)"
    by (auto simp: run_job_def)
  from dispatch_mirror [OF ok j step d] have "mirror_ok rm s1" .
  then show ?thesis unfolding s'
    by (intro job_update_mirror) (simp_all add: finish_tables mirror_ok_def finish_full)
qed

lemma run_jobs_mirror:
  assumes ok: "rolelogic_ok app rm" "answers_all app" "pds_apart app"
  shows "\<forall>j \<in> set js. job_addressable j \<Longrightarrow> mirror_ok rm s \<Longrightarrow> run_jobs app turn js s = Some s' \<Longrightarrow>
    mirror_ok rm s'"
proof (induction js arbitrary: s)
  case (Cons j js)
  from Cons.prems(3) obtain s1 where
    "run_job app (fst (turn (j_id j))) (snd (turn (j_id j))) j s = Some s1"
    "run_jobs app turn js s1 = Some s'" by (auto simp: bind_eq_Some_conv simp del: split_paired_Ex)
  with Cons.IH run_job_mirror [OF ok] Cons.prems(1,2) show ?case by (metis list.set_intros)
qed simp

lemma claim_payloads:
  "claim_batch now skip w n d = (js, d') \<Longrightarrow> \<forall>j \<in> set (jobs d). job_addressable j \<Longrightarrow>
   \<forall>j \<in> set js. job_addressable j"
  by (auto simp: claim_batch_def Let_def job_addressable_def claim_row_def elim!: update_whereE)

lemma reap_payloads:
  "\<forall>j \<in> set (jobs d). job_addressable j \<Longrightarrow> \<forall>j \<in> set (jobs (snd (reap_stuck now limit d))). job_addressable j"
  by (auto simp: reap_stuck_def job_addressable_def elim!: update_whereE)

lemma queue_tables:
  "role_links (snd (reap_stuck now limit d)) = role_links d" "assignments (snd (reap_stuck now limit d)) = assignments d"
  "role_links (snd (claim_batch now skip w n d)) = role_links d"
  "assignments (snd (claim_batch now skip w n d)) = assignments d"
  by (simp_all add: reap_stuck_def claim_batch_def Let_def)

lemma worker_pass_mirror:
  assumes ok: "rolelogic_ok app rm" "answers_all app" "pds_apart app"
    and j: "\<forall>j \<in> set (jobs (fst s)). job_addressable j" and step: "mirror_ok rm s"
    and run: "worker_pass app w reap_due skip turn s = Some s'"
  shows "mirror_ok rm s'"
proof -
  let ?d = "if reap_due then snd (reap_stuck (ap_now app) stuck_lock_secs (fst s)) else fst s"
  obtain js d' where c: "claim_batch (ap_now app) skip w batch_size ?d = (js, d')" by (rule prod.exhaust)
  have d': "d' = snd (claim_batch (ap_now app) skip w batch_size ?d)" using c by simp
  have "full_ok ?d" using step by (simp add: mirror_ok_def reap_full)
  then have "full_ok d'" unfolding d' by (rule claim_full)
  moreover have "role_links d' = role_links (fst s)" "assignments d' = assignments (fst s)"
    unfolding d' by (simp_all add: queue_tables)
  ultimately have "mirror_ok rm (d', snd s)" by (intro mirror_other_tables [OF step]) simp_all
  moreover have "\<forall>j \<in> set (jobs ?d). job_addressable j"
    using j reap_payloads [OF j] by (cases reap_due) simp_all
  then have "\<forall>j \<in> set js. job_addressable j" by (rule claim_payloads [OF c])
  moreover have "run_jobs app turn js (d', snd s) = Some s'"
    using run c by (simp add: worker_pass_def Let_def split: if_splits)
  ultimately show ?thesis using run_jobs_mirror [OF ok] by blast
qed

lemma reconcile_mirror:
  assumes "rolelogic_ok app rm" "pds_apart app"
  shows "opreserves (mirror_ok rm) (reconcile_account app did)"
proof -
  have refreshed: "opreserves (mirror_ok rm) (refresh_account app did)"
    unfolding opreserves_def using refresh_mirror [OF assms] by blast
  have "opreserves (mirror_ok rm) (total (on_db (enqueue_account_sync (ap_now app) did)))"
  proof (rule opreserves_total, rule mirror_other_tables)
    fix s assume "mirror_ok rm s"
    then show "mirror_ok rm s"
      "full_ok (fst (snd (on_db (enqueue_account_sync (ap_now app) did) s)))"
      by (simp_all add: mirror_ok_def enqueue_account_sync_def enqueue_ok)
  qed (simp_all add: enqueue_account_sync_def enqueue_tables)
  moreover have "opreserves (mirror_ok rm) (total (io_return ()))" by (rule opreserves_total) simp
  ultimately have "opreserves (mirror_ok rm)
      (case x of Inl _ \<Rightarrow> total (io_return ()) | Inr _ \<Rightarrow> total (on_db (enqueue_account_sync (ap_now app) did)))"
    for x :: "app_error + unit" by (cases x) simp_all
  with refreshed show ?thesis unfolding reconcile_account_def
    by (intro opreserves_then opreserves_attempt)
qed

end
