(* ===== verification/Routes_Accounts.thy ===== *)
theory Routes_Accounts
  imports Routes_Plugin Worker
begin

section \<open>Connecting Bluesky accounts (\<open>routes/admin.rs\<close>, first and last part)\<close>

text \<open>
  An admin connects an account to a server with a handle and an app password, lists the connected
  accounts, disconnects one, and asks for a refresh. A handler is a task on the database and the
  outside world. The unique index on \<open>lower(handle)\<close> is the one constraint an upsert can break here;
  a transaction that breaks it changes nothing. \<open>ORDER BY connected_at DESC\<close> is a stable sort of the
  storage order.

  \<open>admin_gate\<close> is the entry of every handler that writes; \<open>admin_gate_ok\<close> says what it checked.
  \<open>stored_account\<close>: a fresh connection hands out the new token without traffic and clears a failed
  refresh. \<open>disconnect_effect\<close>: the server's links lose their binding, other servers keep theirs.
\<close>

subsection \<open>Gates and shared checks\<close>

definition admin_gate :: "'w app \<Rightarrow> incoming \<Rightarrow> string \<Rightarrow> ('w, string) task" where
  "admin_gate app inc g =
     io_then (io_lift (csrf_unless_bearer app inc)) (\<lambda>_. on_world (require_guild_admin app inc g))"

definition normalize_identifier :: "string \<Rightarrow> string" where
  "normalize_identifier s = trim_start_matches (CHR ''@'') (trim s)"

definition spaces_message :: string where
  "spaces_message = ''Your app password shouldn'' @ CHR 0x27 # ''t contain spaces '' @ em_dash
     @ '' paste exactly as Bluesky shows it.''"

definition check_credentials :: "string \<Rightarrow> string \<times> string \<Rightarrow> app_error + (string \<times> string)" where
  "check_credentials missing body =
     (let identifier = normalize_identifier (fst body); app_password = trim (snd body)
      in if identifier = [] \<or> app_password = [] then Inl (BadRequest missing)
         else if CHR '' '' \<in> set app_password then Inl (BadRequest spaces_message)
         else Inr (identifier, app_password))"

definition unique_violation :: "string \<Rightarrow> app_error" where
  "unique_violation constr = Database (SqlxDatabase (Some ''23505'') (Some constr)
     (''duplicate key value violates unique constraint '' @ constr))"

definition account_connected :: "string \<Rightarrow> string \<Rightarrow> db \<Rightarrow> bool" where
  "account_connected g did d \<longleftrightarrow> (g, did) \<in> guild_account_key ` set (guild_accounts d)"

subsection \<open>Connect\<close>

definition connected_account :: "'w app \<Rightarrow> session_resp \<Rightarrow> profile \<Rightarrow> bsky_account" where
  "connected_account app s p =
     (let seal = (\<lambda>n t. encrypt (ap_crates app) (ap_nonce app n) (session_secret (ap_config app)) (bytes t))
      in \<lparr>ba_did = ss_did s, ba_handle = ss_handle s, ba_pds_host = default_pds (ap_config app),
          ba_display_name = pr_display_name p, ba_description = pr_description p,
          ba_has_avatar = (pr_avatar p \<noteq> None), ba_has_banner = (pr_banner p \<noteq> None),
          ba_followers_count = as_i32 (pr_followers_count p), ba_follows_count = as_i32 (pr_follows_count p),
          ba_posts_count = as_i32 (pr_posts_count p),
          ba_created_at = parse_rfc3339 app (pr_created_at p),
          ba_access_enc = seal 0 (ss_access_jwt s), ba_refresh_enc = seal 1 (ss_refresh_jwt s),
          ba_token_expires_at = ap_now app + 2 * 60 * 60 * 1000000, ba_refresh_failed_at = None,
          ba_last_synced_at = Some (ap_now app), ba_updated_at = ap_now app\<rparr>)"

definition reconnect :: "bsky_account \<Rightarrow> bsky_account \<Rightarrow> bsky_account" where
  "reconnect old new = new\<lparr>ba_created_at := coalesce (ba_created_at new) (ba_created_at old)\<rparr>"

definition guild_account_row :: "instant \<Rightarrow> string \<Rightarrow> string \<Rightarrow> string \<Rightarrow> guild_account" where
  "guild_account_row now g did admin =
     \<lparr>ga_guild = g, ga_account = did, ga_connected_by = Some admin, ga_connected_at = now\<rparr>"

definition store_account :: "instant \<Rightarrow> string \<Rightarrow> string \<Rightarrow> bsky_account \<Rightarrow> db \<Rightarrow> db" where
  "store_account now g admin row d =
     d\<lparr>accounts := upsert ba_did reconnect row (accounts d),
       guild_accounts := upsert guild_account_key keep_old
         (guild_account_row now g (ba_did row) admin) (guild_accounts d)\<rparr>"

definition broadcaster_connect :: "'w app \<Rightarrow> incoming \<Rightarrow> string \<Rightarrow> string \<times> string \<Rightarrow> ('w, json) task" where
  "broadcaster_connect app inc g body =
     io_then (admin_gate app inc g) (\<lambda>admin.
     io_then (io_lift (check_credentials
       ''Both your Bluesky handle and an app password are required.'' body)) (\<lambda>(identifier, app_password).
     io_then (on_world (create_session app identifier app_password)) (\<lambda>session.
     io_then (on_world (get_profile_authed app (ss_access_jwt session) (ss_did session))) (\<lambda>profile.
     io_then (query (handle_free (ss_did session) (ss_handle session))) (\<lambda>free.
     if \<not> free then io_fail (unique_violation ''idx_bsky_accounts_handle'')
     else
       io_then (on_db (store_account (ap_now app) g admin (connected_account app session profile))) (\<lambda>_.
       io_then (on_db (enqueue_account_sync (ap_now app) (ss_did session))) (\<lambda>_.
       io_return (JObj [(''did'', JStr (ss_did session)), (''handle'', JStr (ss_handle session))]))))))))"

subsection \<open>List, disconnect, refresh\<close>

record account_row =
  aw_account :: bsky_account
  aw_connected_at :: instant

definition json_of_account_row :: "'w app \<Rightarrow> account_row \<Rightarrow> json" where
  "json_of_account_row app r =
     (let a = aw_account r in JObj
       [(''did'', JStr (ba_did a)), (''handle'', JStr (ba_handle a)),
        (''display_name'', json_opt JStr (ba_display_name a)),
        (''followers_count'', json_of_i64 (ba_followers_count a)),
        (''follows_count'', json_of_i64 (ba_follows_count a)),
        (''posts_count'', json_of_i64 (ba_posts_count a)),
        (''has_avatar'', JBool (ba_has_avatar a)), (''has_banner'', JBool (ba_has_banner a)),
        (''refresh_failed'', JBool (ba_refresh_failed_at a \<noteq> None)),
        (''connected_at'', JStr (cr_time_json (ap_crates app) (aw_connected_at r)))])"

definition account_rows :: "string \<Rightarrow> db \<Rightarrow> account_row list" where
  "account_rows g d =
     List.map_filter
       (\<lambda>ga. map_option (\<lambda>a. \<lparr>aw_account = a, aw_connected_at = ga_connected_at ga\<rparr>)
               (find_row ba_did (ga_account ga) (accounts d)))
       (sort_key (\<lambda>ga. - ga_connected_at ga) (filter (\<lambda>ga. ga_guild ga = g) (guild_accounts d)))"

definition broadcaster_list :: "'w app \<Rightarrow> incoming \<Rightarrow> string \<Rightarrow> ('w, json) task" where
  "broadcaster_list app inc g =
     io_then (on_world (require_guild_admin app inc g)) (\<lambda>_.
     query (\<lambda>d. JObj [(''accounts'', JArr (map (json_of_account_row app) (account_rows g d)))]))"

definition unbind_links :: "instant \<Rightarrow> string \<Rightarrow> string \<Rightarrow> db \<Rightarrow> db" where
  "unbind_links now g did d =
     d\<lparr>role_links := update_where (\<lambda>l. rl_guild l = g \<and> rl_account l = Some did)
         (\<lambda>l. l\<lparr>rl_account := None, rl_updated_at := now\<rparr>) (role_links d)\<rparr>"

definition remove_guild_account :: "string \<Rightarrow> string \<Rightarrow> db \<Rightarrow> db" where
  "remove_guild_account g did d =
     d\<lparr>guild_accounts := delete_where (\<lambda>ga. guild_account_key ga = (g, did)) (guild_accounts d)\<rparr>"

definition broadcaster_disconnect :: "'w app \<Rightarrow> incoming \<Rightarrow> string \<Rightarrow> string \<Rightarrow> ('w, json) task" where
  "broadcaster_disconnect app inc g did =
     io_then (admin_gate app inc g) (\<lambda>_.
     io_then (on_db (unbind_links (ap_now app) g did)) (\<lambda>_.
     io_then (query (account_connected g did)) (\<lambda>removed.
     io_then (on_db (remove_guild_account g did)) (\<lambda>_.
     io_return (JObj [(''removed'', JBool removed)])))))"

definition not_connected_message :: string where
  "not_connected_message =
     ''That Bluesky account isn'' @ CHR 0x27 # ''t connected to this server.''"

definition broadcaster_refresh :: "'w app \<Rightarrow> incoming \<Rightarrow> string \<Rightarrow> string \<Rightarrow> ('w, json) task" where
  "broadcaster_refresh app inc g did =
     io_then (admin_gate app inc g) (\<lambda>_.
     io_then (query (account_connected g did)) (\<lambda>connected.
     if \<not> connected then io_fail (Forbidden not_connected_message)
     else
       io_then (valid_access_jwt app did) (\<lambda>_.
       io_then (on_db (enqueue_account_sync (ap_now app) did)) (\<lambda>_.
       io_return (JObj [(''queued'', JBool True)])))))"

subsection \<open>What the handlers keep\<close>

lemma preserves_case_prod [intro]:
  "(\<And>x y. preserves P (k x y)) \<Longrightarrow> preserves P (case p of (x, y) \<Rightarrow> k x y)"
  by (cases p) simp

lemma preserves_case_option [intro]:
  "preserves P m \<Longrightarrow> (\<And>x. preserves P (k x)) \<Longrightarrow> preserves P (case v of None \<Rightarrow> m | Some x \<Rightarrow> k x)"
  by (cases v) simp_all

lemmas preserves_rules = preserves_then preserves_lift preserves_return preserves_fail
  preserves_on_world preserves_query preserves_on_db preserves_if preserves_case_prod
  preserves_case_option

abbreviation keeps_full :: "('w, 'a) task \<Rightarrow> bool" where
  "keeps_full m \<equiv> preserves (\<lambda>s. full_ok (fst s)) m"

lemma keeps_fullD: "keeps_full m \<Longrightarrow> full_ok (fst s) \<Longrightarrow> full_ok (fst (snd (m s)))"
  unfolding preserves_def by blast

interpretation connects: keyed_table ba_did reconnect
  by unfold_locales (simp add: reconnect_def)

lemma store_account_full:
  assumes "full_ok d" and free: "handle_free (ba_did row) (ba_handle row) d"
  shows "full_ok (store_account now g admin row d)"
proof -
  let ?new = "guild_account_row now g (ba_did row) admin"
  have one: "ga_account ` set (upsert guild_account_key keep_old ?new rows)
      \<subseteq> insert (ba_did row) (ga_account ` set rows)" for rows
    by (auto simp: keep_upsert guild_account_row_def)
  note ok = \<open>full_ok d\<close>
  then have handles: "unique_key (\<lambda>a. db_lower d (ba_handle a)) (upsert ba_did reconnect row (accounts d))"
    using free by (intro unique_upsert_other)
      (simp_all add: full_ok_def db_ok_def keys_ok_def handle_free_def reconnect_def)
  from ok have "ga_account ` set (guild_accounts d) \<subseteq> ba_did ` set (accounts d)"
    by (simp add: full_ok_def db_ok_def refs_ok_def)
  with one [of "guild_accounts d"]
  have "ga_account ` set (upsert guild_account_key keep_old ?new (guild_accounts d))
      \<subseteq> insert (ba_did row) (ba_did ` set (accounts d))" by (meson insert_mono order_trans)
  with ok handles show ?thesis
    by (simp add: full_ok_def queue_ok_def store_account_def db_ok_def keys_ok_def refs_ok_def
        connects.unique_upsert keep.unique_upsert connects.keys_upsert subset_insertI2)
qed

lemma enqueue_account_full: "full_ok d \<Longrightarrow> full_ok (enqueue_account_sync now did d)"
  by (simp add: enqueue_account_sync_def enqueue_ok)

lemma unbind_full: "full_ok d \<Longrightarrow> full_ok (unbind_links now g did d)"
  by (simp add: full_ok_def queue_ok_def unbind_links_def db_ok_def keys_ok_def refs_ok_def
      unique_key_update_where keys_update_where link_key_def)

lemma remove_guild_account_full: "full_ok d \<Longrightarrow> full_ok (remove_guild_account g did d)"
  by (auto simp: full_ok_def queue_ok_def remove_guild_account_def db_ok_def keys_ok_def refs_ok_def
      unique_key_delete_where)

lemma valid_jwt_full: "keeps_full (valid_access_jwt app did)"
proof -
  have "jobs (fst (snd (valid_access_jwt app did s))) = jobs (fst s) \<and>
      next_job_id (fst (snd (valid_access_jwt app did s))) = next_job_id (fst s)" for s
    by (auto simp: valid_access_jwt_def store_session_def mark_refresh_failed_def Let_def
        dest!: on_world_db split: option.splits sum.splits prod.splits)
  then show ?thesis
    by (auto simp: preserves_def full_ok_def valid_access_jwt_ok intro: same_queue_ok)
qed

lemma admin_gate_full: "keeps_full (admin_gate app inc g)"
  unfolding admin_gate_def by (intro preserves_rules)

lemma connected_account_key [simp]:
  "ba_did (connected_account app se p) = ss_did se" "ba_handle (connected_account app se p) = ss_handle se"
  by (simp_all add: connected_account_def Let_def)

text \<open>The statements of a connection: the index on the handles is looked up before anything is written.\<close>

lemma store_free_full:
  assumes "keeps_full k"
  shows "keeps_full (io_then (query (handle_free (ss_did se) (ss_handle se))) (\<lambda>free.
     if \<not> free then io_fail e
     else io_then (on_db (store_account now g admin (connected_account app se p))) (\<lambda>_. k)))"
proof -
  have "full_ok (fst (snd (k (store_account now g admin (connected_account app se p) d, w))))"
    if "full_ok d" "handle_free (ss_did se) (ss_handle se) d" for d w
    using assms store_account_full [of d "connected_account app se p"] that by (simp add: preserves_def)
  then show ?thesis by (auto simp: preserves_def)
qed

lemmas account_keeps = admin_gate_full valid_jwt_full enqueue_account_full unbind_full
  remove_guild_account_full

lemma connect_full: "keeps_full (broadcaster_connect app inc g body)"
  unfolding broadcaster_connect_def by (intro preserves_rules store_free_full account_keeps)

lemma list_full: "keeps_full (broadcaster_list app inc g)"
  unfolding broadcaster_list_def by (intro preserves_rules)

lemma disconnect_full: "keeps_full (broadcaster_disconnect app inc g did)"
  unfolding broadcaster_disconnect_def by (intro preserves_rules account_keeps)

lemma refresh_full: "keeps_full (broadcaster_refresh app inc g did)"
  unfolding broadcaster_refresh_def by (intro preserves_rules account_keeps)

subsection \<open>What the gate has checked\<close>

definition admin_of :: "'w app \<Rightarrow> incoming \<Rightarrow> string \<Rightarrow> 'w \<Rightarrow> bool" where
  "admin_of app inc g w \<longleftrightarrow>
     (\<exists>s. bearer_for app inc s \<and> if_guild s = g) \<or>
     extract_bearer inc = None \<and> verify_origin inc (allowed_origins (ap_config app)) = Inr () \<and>
     (\<exists>d. manager_of app inc g d w)"

lemma bearer_for_Some: "bearer_for app inc s \<Longrightarrow> extract_bearer inc \<noteq> None"
  by (auto simp: bearer_for_def)

lemma admin_gate_ok:
  assumes "admin_gate app inc g s = (Inr d, s')"
  shows "admin_of app inc g (snd s) \<and> fst s' = fst s"
proof -
  from assms obtain s1 where csrf: "csrf_unless_bearer app inc = Inr ()"
    and gate: "on_world (require_guild_admin app inc g) s = (Inr d, s1)" and "s' = s1"
    by (auto simp: admin_gate_def io_then_Inr)
  then obtain w' where r: "require_guild_admin app inc g (snd s) = (Inr d, w')"
    by (auto simp: on_world_def split: prod.splits)
  have "admin_of app inc g (snd s)"
    using guild_admin_ok [OF r] csrf bearer_for_Some [of app inc]
    by (auto simp: admin_of_def csrf_unless_bearer_def)
  with on_world_db [OF gate] \<open>s' = s1\<close> show ?thesis by simp
qed

lemma admin_gate_cases:
  obtains (refused) e s' where "admin_gate app inc g s = (Inl e, s')" "fst s' = fst s"
  | (passed) d s' where "admin_gate app inc g s = (Inr d, s')" "fst s' = fst s"
      "admin_of app inc g (snd s)"
proof -
  obtain r s' where Pair: "admin_gate app inc g s = (r, s')" by (rule prod.exhaust)
  show ?thesis
  proof (cases r)
    case (Inr d)
    with Pair show ?thesis using admin_gate_ok [of app inc g s d s'] passed by blast
  next
    case (Inl e)
    with Pair have "fst s' = fst s"
      by (auto simp: admin_gate_def io_then_Inl dest: on_world_db)
    with Pair Inl show ?thesis using refused by blast
  qed
qed

lemma forged_origin_refused:
  "csrf_unless_bearer app inc = Inl e \<Longrightarrow> admin_gate app inc g s = (Inl e, s)"
  by (simp add: admin_gate_def)

lemma gated_then:
  assumes "fst (snd (io_then (admin_gate app inc g) k s)) \<noteq> fst s"
  shows "admin_of app inc g (snd s)"
  by (cases rule: admin_gate_cases [of app inc g s]) (use assms in auto)

subsection \<open>Connect and disconnect\<close>

lemma connect_stored:
  assumes "broadcaster_connect app inc g body s = (Inr x, s')"
  obtains admin ident password session profile w where
    "admin_of app inc g (snd s)" "check_credentials
       ''Both your Bluesky handle and an app password are required.'' body = Inr (ident, password)"
    "\<exists>w0. create_session app ident password w0 = (Inr session, w)"
    "handle_free (ss_did session) (ss_handle session) (fst s)"
    "fst s' = enqueue_account_sync (ap_now app) (ss_did session)
       (store_account (ap_now app) g admin (connected_account app session profile) (fst s))"
proof -
  from assms obtain admin s1 ident password session s2 profile s3 where
    gate: "admin_gate app inc g s = (Inr admin, s1)"
    and cred: "check_credentials ''Both your Bluesky handle and an app password are required.'' body =
      Inr (ident, password)"
    and sess: "on_world (create_session app ident password) s1 = (Inr session, s2)"
    and prof: "on_world (get_profile_authed app (ss_access_jwt session) (ss_did session)) s2 = (Inr profile, s3)"
    and free: "handle_free (ss_did session) (ss_handle session) (fst s3)"
    and s': "fst s' = enqueue_account_sync (ap_now app) (ss_did session)
       (store_account (ap_now app) g admin (connected_account app session profile) (fst s3))"
    by (auto simp: broadcaster_connect_def io_then_Inr split: if_splits)
  have same: "fst s3 = fst s" and adm: "admin_of app inc g (snd s)"
    using admin_gate_ok [OF gate] on_world_db [OF sess] on_world_db [OF prof] by simp_all
  from sess have "\<exists>w0. create_session app ident password w0 = (Inr session, snd s2)"
    by (auto simp: on_world_def split: prod.splits)
  with adm cred free s' same show thesis by (intro that) simp_all
qed

lemma stored_account:
  assumes aead: "aead_ok (ap_crates app)"
    and utf8: "\<And>t. cr_utf8 (ap_crates app) (bytes t) = Inr t"
    and nonce: "\<And>n. length (ap_nonce app n) = nonce_bytes"
    and d: "d' = enqueue_account_sync now (ss_did se)
      (store_account (ap_now app) g admin (connected_account app se p) d)"
  shows "valid_access_jwt app (ss_did se) (d', w) = (Inr (ss_access_jwt se), (d', w))"
    and "account_connected g (ss_did se) d'"
    and "\<exists>a. find_row ba_did (ss_did se) (accounts d') = Some a \<and> ba_refresh_failed_at a = None"
proof -
  let ?row = "connected_account app se p"
  have key: "ba_did ?row = ss_did se" by (simp add: connected_account_def Let_def)
  have acc: "accounts d' = upsert ba_did reconnect ?row (accounts d)"
    by (simp add: d enqueue_account_sync_def enqueue_def store_account_def)
  obtain a where a: "find_row ba_did (ss_did se) (accounts d') = Some a"
    "ba_token_expires_at a = ap_now app + 2 * 60 * 60 * 1000000" "ba_refresh_failed_at a = None"
    "ba_access_enc a = encrypt (ap_crates app) (ap_nonce app 0) (session_secret (ap_config app))
       (bytes (ss_access_jwt se))"
    using connects.find_upsert [of "ss_did se" ?row "accounts d"]
    by (cases "find_row ba_did (ss_did se) (accounts d)")
      (simp_all add: acc key reconnect_def connected_account_def Let_def)
  have "\<not> needs_refresh app a" using a(2) by (simp add: needs_refresh_def refresh_lead_secs_def)
  moreover have "open_text app ''access_jwt'' (ba_access_enc a) = Inr (ss_access_jwt se)"
    using a(4) decrypt_encrypt [OF aead nonce] utf8 by (simp add: open_text_def)
  ultimately show "valid_access_jwt app (ss_did se) (d', w) = (Inr (ss_access_jwt se), (d', w))"
    using fresh_token_no_traffic [of "ss_did se" "(d', w)" a app] a(1) by simp
  show "\<exists>a. find_row ba_did (ss_did se) (accounts d') = Some a \<and> ba_refresh_failed_at a = None"
    using a by blast
  show "account_connected g (ss_did se) d'"
    unfolding account_connected_def d enqueue_account_sync_def enqueue_def store_account_def
    by (simp add: keep.keys_upsert key) (simp add: guild_account_key_def guild_account_row_def)
qed

lemma disconnect_effect:
  assumes "broadcaster_disconnect app inc g did s = (Inr x, s')"
  shows "\<not> account_connected g did (fst s')"
    and "\<forall>l \<in> set (role_links (fst s')). rl_guild l = g \<longrightarrow> rl_account l \<noteq> Some did"
    and "filter (\<lambda>l. rl_guild l \<noteq> g) (role_links (fst s')) = filter (\<lambda>l. rl_guild l \<noteq> g) (role_links (fst s))"
    and "accounts (fst s') = accounts (fst s) \<and> assignments (fst s') = assignments (fst s) \<and>
      jobs (fst s') = jobs (fst s)"
proof -
  from assms obtain d s1 where gate: "admin_gate app inc g s = (Inr d, s1)"
    and s': "fst s' = remove_guild_account g did (unbind_links (ap_now app) g did (fst s1))"
    by (auto simp: broadcaster_disconnect_def io_then_Inr)
  have s1: "fst s1 = fst s" using admin_gate_ok [OF gate] by simp
  show "\<not> account_connected g did (fst s')"
    by (auto simp: s' account_connected_def remove_guild_account_def)
  show "\<forall>l \<in> set (role_links (fst s')). rl_guild l = g \<longrightarrow> rl_account l \<noteq> Some did"
  proof (intro ballI impI)
    fix l assume l: "l \<in> set (role_links (fst s'))" and g: "rl_guild l = g"
    from l have "l \<in> set (update_where (\<lambda>l. rl_guild l = g \<and> rl_account l = Some did)
        (\<lambda>l. l\<lparr>rl_account := None, rl_updated_at := ap_now app\<rparr>) (role_links (fst s1)))"
      by (simp add: s' remove_guild_account_def unbind_links_def)
    then show "rl_account l \<noteq> Some did" by (cases rule: update_whereE) (simp_all add: g)
  qed
  have "filter (\<lambda>l. rl_guild l \<noteq> g) (update_where (\<lambda>l. rl_guild l = g \<and> rl_account l = Some did)
      (\<lambda>l. l\<lparr>rl_account := None, rl_updated_at := now\<rparr>) ls) = filter (\<lambda>l. rl_guild l \<noteq> g) ls" for now ls
    by (induction ls) (auto simp: update_where_def)
  then show "filter (\<lambda>l. rl_guild l \<noteq> g) (role_links (fst s')) =
      filter (\<lambda>l. rl_guild l \<noteq> g) (role_links (fst s))"
    by (simp add: s' s1 remove_guild_account_def unbind_links_def)
  show "accounts (fst s') = accounts (fst s) \<and> assignments (fst s') = assignments (fst s) \<and>
      jobs (fst s') = jobs (fst s)"
    by (simp add: s' s1 remove_guild_account_def unbind_links_def)
qed

end
