(* ===== verification/Pages.thy ===== *)
theory Pages
  imports Http
begin

section \<open>HTML pages\<close>

text \<open>
  The pages are static templates (\<open>templates/\<close>, arguments here) with a few markers replaced, or small
  documents around a message. \<open>replace_all\<close> is Rust's \<open>str::replace\<close>; \<open>html_escape\<close> the three
  replacements applied to a message. A \<open>page\<close> names the document and the text put into it;
  \<open>page_status\<close> and \<open>page_headers\<close> are what the renderers answer with.

  \<open>html_escape_safe\<close>: an escaped message opens no tag. The path segments that
  \<open>users_html\<close> and \<open>role_config_html\<close> put into a script are not escaped.
\<close>

function replace_all :: "string \<Rightarrow> string \<Rightarrow> string \<Rightarrow> string" where
  "replace_all pat rep s =
     (if pat = [] \<or> s = [] then s
      else if prefix pat s then rep @ replace_all pat rep (drop (length pat) s)
      else hd s # replace_all pat rep (tl s))"
  by pat_completeness auto
termination by (relation "measure (\<lambda>(pat, rep, s). length s)") auto

declare replace_all.simps [simp del]

definition html_escape :: "string \<Rightarrow> string" where
  "html_escape m = replace_all ''>'' ''&gt;'' (replace_all ''<'' ''&lt;'' (replace_all ''&'' ''&amp;'' m))"

definition fill :: "(string \<times> string) list \<Rightarrow> string \<Rightarrow> string" where
  "fill markers template = foldl (\<lambda>t (marker, value). replace_all marker value t) template markers"

datatype page =
    InlineError string
  | IframeNoToken
  | Signin string
  | RoleConfigPage (page_guild: string) (page_role: string) (page_token: string) (page_read_only: bool)

fun page_status :: "page \<Rightarrow> nat" where
  "page_status (InlineError _) = 403"
| "page_status IframeNoToken = 401"
| "page_status (Signin _) = 401"
| "page_status (RoleConfigPage _ _ _ _) = 200"

definition html_type :: "string \<times> string" where
  "html_type = (''content-type'', ''text/html; charset=utf-8'')"

definition page_headers :: "'w app \<Rightarrow> page \<Rightarrow> (string \<times> string) list" where
  "page_headers app p =
     [html_type, (''content-security-policy'', admin_iframe_csp (rl_dashboard_origin (ap_config app)))]
     @ (case p of RoleConfigPage _ _ _ _ \<Rightarrow> [(''cache-control'', ''private, max-age=300, must-revalidate'')]
                | _ \<Rightarrow> [])"

definition role_config_html :: "string \<Rightarrow> 'w app \<Rightarrow> string \<Rightarrow> string \<Rightarrow> string \<Rightarrow> bool \<Rightarrow> string" where
  "role_config_html template app g r token read_only =
     fill [(''__BASE_URL__'', base_url (ap_config app)), (''__GUILD_ID__'', g), (''__ROLE_ID__'', r),
           (''__IFRAME_TOKEN__'', token), (''__READ_ONLY__'', if read_only then ''1'' else ''0'')] template"

definition users_html :: "string \<Rightarrow> 'w app \<Rightarrow> string \<Rightarrow> string" where
  "users_html template app g = fill [(''{{BASE_URL}}'', base_url (ap_config app)), (''{{GUILD_ID}}'', g)] template"

definition verify_html :: "string \<Rightarrow> 'w app \<Rightarrow> string" where
  "verify_html template app = fill [(''{{BASE_URL}}'', base_url (ap_config app))] template"

subsection \<open>Replacing\<close>

lemma replace_all_Nil [simp]: "replace_all pat rep [] = []"
  by (subst replace_all.simps) simp

lemma replace_all_char:
  "replace_all [c] rep s = concat (map (\<lambda>x. if x = c then rep else [x]) s)"
proof (induction s)
  case (Cons x xs)
  then show ?case by (subst replace_all.simps) auto
qed simp

lemma replace_all_step:
  "pat \<noteq> [] \<Longrightarrow> replace_all pat rep (pat @ s) = rep @ replace_all pat rep s"
  by (subst replace_all.simps) simp

lemma replace_all_absent:
  assumes "c \<notin> set s" shows "replace_all (c # pat) rep s = s"
  using assms
proof (induction s)
  case (Cons x xs)
  then show ?case by (subst replace_all.simps) auto
qed simp

lemma replace_all_skip:
  assumes "c \<notin> set s" shows "replace_all (c # pat) rep (s @ t) = s @ replace_all (c # pat) rep t"
  using assms
proof (induction s)
  case (Cons x xs)
  then show ?case by (subst replace_all.simps) auto
qed simp

lemma html_escape_safe: "CHR ''<'' \<notin> set (html_escape m) \<and> CHR ''>'' \<notin> set (html_escape m)"
  by (auto simp: html_escape_def replace_all_char)

lemma html_escape_plain:
  "set m \<inter> {CHR ''<'', CHR ''>'', CHR ''&''} = {} \<Longrightarrow> html_escape m = m"
  by (simp add: html_escape_def replace_all_absent)

end
