(* ===== verification/Routes_Users.thy ===== *)
theory Routes_Users
  imports Routes_Accounts Pages
begin

section \<open>The list of linked viewers (\<open>routes/users.rs\<close>)\<close>

text \<open>
  A server decides who may read the list of its linked members: nobody, its managers or its members.
  \<open>viewer_rows\<close> is the query: one row per linked viewer among the members the gateway reports, the
  relations to the server's accounts folded together. \<open>ORDER BY handle\<close> is the byte order.

  \<open>users_data_ok\<close> says who has been let in and which viewers were listed; \<open>permission_lookup\<close> that a
  stored permission is the one read back.
\<close>

definition view_permission_of :: "string \<Rightarrow> db \<Rightarrow> string" where
  "view_permission_of g d =
     (case find_row gs_guild g (settings d) of None \<Rightarrow> ''managers'' | Some s \<Rightarrow> gs_view_permission s)"

record viewer_row =
  vw_user :: bsky_user
  vw_is_follower :: bool
  vw_is_followed_back :: bool
  vw_is_mutual :: bool
  vw_followed_at :: "instant option"

definition guild_relations :: "string \<Rightarrow> db \<Rightarrow> bsky_user \<Rightarrow> account_relation list" where
  "guild_relations g d u =
     List.map_filter (\<lambda>ga. join_relation d (ga_account ga) u) (filter (\<lambda>ga. ga_guild ga = g) (guild_accounts d))"

fun earliest :: "instant list \<Rightarrow> instant option" where
  "earliest [] = None"
| "earliest (t # ts) = Some (foldl min t ts)"

definition viewer_row_of :: "string \<Rightarrow> db \<Rightarrow> bsky_user \<Rightarrow> viewer_row" where
  "viewer_row_of g d u =
     (let rs = guild_relations g d u
      in \<lparr>vw_user = u, vw_is_follower = (\<exists>r \<in> set rs. ar_is_follower r),
          vw_is_followed_back = (\<exists>r \<in> set rs. ar_is_followed_back r),
          vw_is_mutual = (\<exists>r \<in> set rs. ar_is_follower r \<and> ar_is_followed_back r),
          vw_followed_at = earliest (List.map_filter ar_followed_at rs)\<rparr>)"

definition viewer_rows :: "string \<Rightarrow> string list \<Rightarrow> db \<Rightarrow> viewer_row list" where
  "viewer_rows g member_ids d =
     take 1000 (map (viewer_row_of g d)
       (sort_key bu_handle (filter (\<lambda>u. bu_discord_id u \<in> set member_ids) (users d))))"

definition json_of_viewer :: "'w app \<Rightarrow> viewer_row \<Rightarrow> json" where
  "json_of_viewer app v =
     (let u = vw_user v; time = (\<lambda>t. JStr (cr_show_rfc3339 (ap_crates app) t))
      in JObj
       [(''discord_id'', JStr (bu_discord_id u)), (''discord_name'', json_opt JStr (bu_discord_name u)),
        (''handle'', JStr (bu_handle u)), (''did'', JStr (bu_did u)),
        (''display_name'', json_opt JStr (bu_display_name u)), (''has_avatar'', JBool (bu_has_avatar u)),
        (''followers_count'', json_of_i64 (bu_followers_count u)),
        (''follows_count'', json_of_i64 (bu_follows_count u)),
        (''posts_count'', json_of_i64 (bu_posts_count u)),
        (''bsky_created_at'', json_opt time (bu_created_at u)),
        (''is_follower'', JBool (vw_is_follower v)), (''is_followed_back'', JBool (vw_is_followed_back v)),
        (''is_mutual'', JBool (vw_is_mutual v)), (''followed_at'', json_opt time (vw_followed_at v)),
        (''linked_at'', time (bu_linked_at u))])"

definition users_json :: "'w app \<Rightarrow> string \<Rightarrow> string option \<Rightarrow> viewer_row list \<Rightarrow> json" where
  "users_json app g name rows = JObj
     [(''guild_id'', JStr g), (''guild_name'', json_opt JStr name),
      (''count'', json_of_nat (length rows)), (''users'', JArr (map (json_of_viewer app) rows))]"

definition users_data :: "'w app \<Rightarrow> incoming \<Rightarrow> string \<Rightarrow> ('w, json) task" where
  "users_data app inc g =
     io_then (query (view_permission_of g)) (\<lambda>vp.
     if vp = ''disabled'' then io_fail (Forbidden ''The user list is disabled for this server.'')
     else
       io_then (on_world (guild_permission_of app inc g)) (\<lambda>perm.
       if \<not> gp_is_member perm then
         io_fail (Forbidden (''You'' @ CHR 0x27 # ''re not a member of this server.''))
       else if vp = ''managers'' \<and> \<not> gp_is_manager perm then
         io_fail (Forbidden ''This list is visible to server managers only.'')
       else
         io_then (on_world (guild_members app inc g)) (\<lambda>(member_ids, guild_name).
         query (\<lambda>d. users_json app g guild_name (viewer_rows g member_ids d)))))"

definition view_permissions :: "string list" where
  "view_permissions = [''disabled'', ''managers'', ''members'']"

definition set_permission :: "guild_setting \<Rightarrow> guild_setting \<Rightarrow> guild_setting" where
  "set_permission old new = old\<lparr>gs_view_permission := gs_view_permission new\<rparr>"

definition store_permission :: "string \<Rightarrow> string \<Rightarrow> db \<Rightarrow> db" where
  "store_permission g vp d =
     d\<lparr>settings := upsert gs_guild set_permission \<lparr>gs_guild = g, gs_view_permission = vp\<rparr> (settings d)\<rparr>"

definition set_view_permission :: "'w app \<Rightarrow> incoming \<Rightarrow> string \<Rightarrow> string \<Rightarrow> ('w, json) task" where
  "set_view_permission app inc g vp =
     io_then (admin_gate app inc g) (\<lambda>_.
     if vp \<notin> set view_permissions then
       io_fail (BadRequest (''Unknown view_permission '' @ CHR 0x27 # vp
         @ CHR 0x27 # '' (expected disabled|managers|members).''))
     else
       io_then (on_db (store_permission g vp)) (\<lambda>_.
       io_return (JObj [(''success'', JBool True), (''view_permission'', JStr vp)])))"

subsection \<open>Who reads what\<close>

interpretation permissions: keyed_table gs_guild set_permission
  by unfold_locales (simp add: set_permission_def)

lemma permission_lookup:
  "view_permission_of g' (store_permission g vp d) = (if g' = g then vp else view_permission_of g' d)"
  by (auto simp: view_permission_of_def store_permission_def permissions.find_upsert set_permission_def
      split: option.split)

lemma store_permission_full: "full_ok d \<Longrightarrow> full_ok (store_permission g vp d)"
  by (simp add: full_ok_def queue_ok_def store_permission_def db_ok_def keys_ok_def refs_ok_def
      permissions.unique_upsert)

lemma set_view_permission_full: "keeps_full (set_view_permission app inc g vp)"
  unfolding set_view_permission_def by (intro preserves_rules account_keeps store_permission_full)

lemma users_data_full: "keeps_full (users_data app inc g)"
  unfolding users_data_def by (intro preserves_rules)

lemma viewer_rows_members:
  "v \<in> set (viewer_rows g ids d) \<Longrightarrow> vw_user v \<in> set (users d) \<and> bu_discord_id (vw_user v) \<in> set ids"
  unfolding viewer_rows_def
  by (auto simp: viewer_row_of_def Let_def dest!: in_set_takeD)

lemma users_data_ok:
  assumes "users_data app inc g s = (Inr j, s')"
  shows "\<exists>perm ids name w w' w''.
    view_permission_of g (fst s) \<noteq> ''disabled'' \<and>
    guild_permission_of app inc g (snd s) = (Inr perm, w) \<and> gp_is_member perm \<and>
    (view_permission_of g (fst s) = ''managers'' \<longrightarrow> gp_is_manager perm) \<and>
    guild_members app inc g w = (Inr (ids, name), w') \<and>
    j = users_json app g name (viewer_rows g ids (fst s)) \<and> s' = (fst s, w')"
proof -
  from assms obtain perm s1 ids name s2 where
    vp: "view_permission_of g (fst s) \<noteq> ''disabled''"
    and perm: "on_world (guild_permission_of app inc g) s = (Inr perm, s1)" "gp_is_member perm"
      "view_permission_of g (fst s) = ''managers'' \<longrightarrow> gp_is_manager perm"
    and ids: "on_world (guild_members app inc g) s1 = (Inr (ids, name), s2)"
    and j: "j = users_json app g name (viewer_rows g ids (fst s2))" "s' = s2"
    by (auto simp: users_data_def io_then_Inr split: if_splits)
  show ?thesis
    using vp perm ids j by (auto simp: on_world_def split: prod.splits)
qed

end
