(* ===== verification/Routes_Role_Config.thy ===== *)
theory Routes_Role_Config
  imports Routes_Users
begin

section \<open>The role editor (\<open>routes/admin.rs\<close>, middle part)\<close>

text \<open>
  The editor page is entered with the dashboard's token, exchanged for the editor's own session, or
  with a manager's cookie. Its three endpoints read the configuration, save it under a version lock
  and count the members a draft would match. \<open>rule_tree_version + 1\<close> is an \<open>INTEGER\<close> sum, PostgreSQL's
  error 22003 beyond its range; \<open>expect\<close> in the preview is an error nobody can reach
  (\<open>preview_bound\<close>).

  \<open>save_cases\<close> is the whole outcome of a save, refused or successful, \<open>save_lookup\<close> the links after
  it, \<open>preview_counts_sync\<close> that the preview counts the members the next sync uploads.
\<close>

subsection \<open>Opening the page\<close>

fun rl_error_message :: "rl_token_error \<Rightarrow> string" where
  "rl_error_message Expired = ''Your session expired. Reopen the plugin in the RoleLogic dashboard.''"
| "rl_error_message BadSignature = ''Invalid auth token.''"
| "rl_error_message Malformed = ''Invalid auth token.''"
| "rl_error_message WrongAudience = ''Token is for a different plugin.''"
| "rl_error_message WrongIssuer = ''Token was not issued by RoleLogic.''"

definition inline_error :: "string \<Rightarrow> page + 'a" where
  "inline_error m = Inl (InlineError (html_escape m))"

definition verify_iframe_entry ::
  "'w app \<Rightarrow> string \<Rightarrow> string \<Rightarrow> string \<Rightarrow> db \<Rightarrow> page + (string \<times> bool)"
where
  "verify_iframe_entry app g r rl_token_str d =
     (case find_link g r d of
        None \<Rightarrow> inline_error (''This role link isn'' @ CHR 0x27 # ''t registered with this plugin yet.'')
      | Some link \<Rightarrow>
          (case verify (ap_crates app) (now_secs app) rl_token_str (rl_token link)
                  (base_url (ap_config app)) of
             Inl e \<Rightarrow> inline_error (rl_error_message e)
           | Inr v \<Rightarrow>
               if v_guild v \<noteq> g \<or> v_role v \<noteq> r then inline_error ''Token does not match this role link.''
               else Inr (mint_iframe_session (ap_crates app) (now_secs app) (v_discord_id v) g r
                           (v_read_only v) (session_key app), v_read_only v)))"

definition lower_header :: "incoming \<Rightarrow> string \<Rightarrow> string" where
  "lower_header inc k = to_ascii_lowercase (case in_header inc k of None \<Rightarrow> [] | Some v \<Rightarrow> v)"

definition looks_embedded :: "incoming \<Rightarrow> bool" where
  "looks_embedded inc \<longleftrightarrow>
     lower_header inc ''sec-fetch-dest'' \<in> {''iframe'', ''frame''} \<or>
     lower_header inc ''sec-fetch-site'' = ''cross-site''"

definition role_config_page ::
  "'w app \<Rightarrow> incoming \<Rightarrow> string \<Rightarrow> string \<Rightarrow> string option \<Rightarrow> db \<times> 'w \<Rightarrow> page \<times> (db \<times> 'w)"
where
  "role_config_page app inc g r entry st =
     (case entry of
        Some (c # cs) \<Rightarrow>
          (case verify_iframe_entry app g r (c # cs) (fst st) of
             Inl p \<Rightarrow> (p, st)
           | Inr (token, read_only) \<Rightarrow> (RoleConfigPage g r token read_only, st))
      | _ \<Rightarrow>
          (case on_world (require_manager app inc g) st of
             (Inl e, st1) \<Rightarrow>
               (if looks_embedded inc then IframeNoToken else Signin (html_escape (error_text e)), st1)
           | (Inr _, st1) \<Rightarrow> (RoleConfigPage g r [] False, st1)))"

subsection \<open>Catalogs\<close>

fun kind_str :: "target_kind \<Rightarrow> string" where
  "kind_str KBool = ''bool''"
| "kind_str KInt = ''int''"
| "kind_str KString = ''string''"

abbreviation quote :: char where "quote \<equiv> CHR 0x27"

definition catalog_entries :: "(condition_target \<times> string \<times> string \<times> string) list" where
  "catalog_entries =
     [(IsFollower, ''Is a follower'', ''relation'', ''Currently follows the connected Bluesky account.''),
      (FollowAgeDays, ''Days since started following'', ''relation'',
        ''How long they'' @ quote # ''ve followed the account.''),
      (IsFollowedBack, ''Account follows them back'', ''relation'',
        ''The connected Bluesky account follows the viewer.''),
      (IsMutual, ''Mutual follow'', ''relation'', ''Both follow each other.''),
      (LikedPostsCount, ''Likes on the account'' @ quote # ''s posts'', ''relation'',
        ''How many of the connected account'' @ quote # ''s posts they'' @ quote # ''ve liked.''),
      (RepostedPostsCount, ''Reposts of the account'' @ quote # ''s posts'', ''relation'',
        ''How many they'' @ quote # ''ve reposted.''),
      (RepliedPostsCount, ''Replies to the account'' @ quote # ''s posts'', ''relation'',
        ''How many they'' @ quote # ''ve replied to.''),
      (IsOnList, ''On a specific list'', ''containers'',
        ''Member of one of the account'' @ quote # ''s Bluesky lists.''),
      (IsOnStarterPack, ''On a specific starter pack'', ''containers'',
        ''Listed in one of the account'' @ quote # ''s starter packs.''),
      (AccountAgeDays, ''Bluesky account age (days)'', ''account'',
        ''Age of the viewer'' @ quote # ''s Bluesky account in days.''),
      (PostsCount, ''Total posts'', ''account'', ''Viewer'' @ quote # ''s total post count.''),
      (FollowersCount, ''Followers'', ''account'', ''Number of people who follow the viewer.''),
      (FollowsCount, ''Follows'', ''account'', ''Number of accounts the viewer follows.''),
      (Handle, ''Handle'', ''account'', ''Viewer'' @ quote # ''s Bluesky handle (alice.bsky.social).''),
      (HandleDomain, ''Handle domain'', ''account'', ''The part after the first dot (e.g. bsky.social).''),
      (HasCustomDomain, ''Has a custom domain handle'', ''account'',
        ''Uses a non-bsky.social handle domain.''),
      (DisplayName, ''Display name'', ''account'', ''Viewer'' @ quote # ''s display name on Bluesky.''),
      (Description, ''Bio / description contains'', ''account'',
        ''Substring or regex match against their bio.''),
      (HasAvatar, ''Has set an avatar'', ''account'', ''Has uploaded a profile picture.''),
      (HasBanner, ''Has set a banner'', ''account'', ''Has uploaded a profile banner.''),
      (PdsHost, ''PDS host'', ''account'', ''Which PDS hosts their account (e.g. bsky.social).'')]"

definition target_catalog :: "json list" where
  "target_catalog =
     map (\<lambda>(t, label, group, help). JObj
       [(''key'', JStr (target_as_str t)), (''label'', JStr label),
        (''kind'', JStr (kind_str (target_kind_of t))), (''group'', JStr group), (''help'', JStr help)])
       catalog_entries"

definition operator_entries :: "(condition_operator \<times> string) list" where
  "operator_entries =
     [(Eq, ''equals''), (Neq, ''not equals''), (Gt, ''greater than''), (Gte, ''at least''),
      (Lt, ''less than''), (Lte, ''at most''), (Between, ''between''), (Contains, ''contains''),
      (Regex, ''matches regex''), (In, ''is one of''), (NotIn, ''is not one of'')]"

definition operator_catalog :: "json list" where
  "operator_catalog =
     map (\<lambda>(op, label). JObj
       [(''key'', JStr (operator_as_str op)), (''label'', JStr label),
        (''valid_for'', JObj [(''bool'', JBool (valid_for op KBool)), (''int'', JBool (valid_for op KInt)),
                            (''string'', JBool (valid_for op KString))]),
        (''needs_value_end'', JBool (op = Between)), (''value_is_list'', JBool (op \<in> {In, NotIn}))])
       operator_entries"

subsection \<open>Reading the configuration\<close>

definition link_missing :: app_error where
  "link_missing = NotFound (''This role link doesn'' @ quote # ''t exist. Has it been added in RoleLogic?'')"

definition list_picker_rows :: "string \<Rightarrow> db \<Rightarrow> json list" where
  "list_picker_rows did d =
     map (\<lambda>l. JObj [(''uri'', JStr (li_uri l)), (''name'', JStr (li_name l)),
                    (''purpose'', json_opt JStr (li_purpose l))])
       (sort_key li_name (filter (\<lambda>l. li_owner l = did) (bsky_lists d)))"

definition pack_picker_rows :: "string \<Rightarrow> db \<Rightarrow> json list" where
  "pack_picker_rows did d =
     map (\<lambda>p. JObj [(''uri'', JStr (sp_uri p)), (''name'', JStr (sp_name p))])
       (sort_key sp_name (filter (\<lambda>p. sp_owner p = did) (packs d)))"

definition pick_did :: "string option \<Rightarrow> account_row list \<Rightarrow> string option" where
  "pick_did account rows =
     (case account of
        Some did \<Rightarrow> Some did
      | None \<Rightarrow> (case rows of [] \<Rightarrow> None | r # _ \<Rightarrow> Some (ba_did (aw_account r))))"

definition role_config_json :: "'w app \<Rightarrow> string \<Rightarrow> string \<Rightarrow> role_link \<Rightarrow> db \<Rightarrow> json" where
  "role_config_json app g r link d =
     (let tree = tree_of_json (rl_tree link); rows = account_rows g d; did = pick_did (rl_account link) rows
      in JObj
       [(''guild_id'', JStr g), (''role_id'', JStr r),
        (''config'', JObj [(''bsky_account_did'', json_opt JStr (rl_account link)),
                         (''grant_on_any_relation'', JBool (grant_on_any_relation tree)),
                         (''groups'', JArr (map json_of_group (groups tree)))]),
        (''rule_tree_version'', json_of_i64 (rl_version link)),
        (''accounts'', JArr (map (json_of_account_row app) rows)),
        (''lists'', JArr (case did of None \<Rightarrow> [] | Some x \<Rightarrow> list_picker_rows x d)),
        (''starter_packs'', JArr (case did of None \<Rightarrow> [] | Some x \<Rightarrow> pack_picker_rows x d)),
        (''targets'', JArr target_catalog), (''operators'', JArr operator_catalog),
        (''limits'', JObj [(''max_groups'', json_of_nat max_groups),
                         (''max_conditions_per_group'', json_of_nat max_conditions_per_group)]),
        (''users'', JObj [(''url'', JStr (base_url (ap_config app) @ ''/users/'' @ g)),
                        (''view_permission'', JStr (view_permission_of g d))]),
        (''verify_url'', JStr (base_url (ap_config app) @ ''/verify?guild='' @ g))])"

definition role_config_data :: "'w app \<Rightarrow> incoming \<Rightarrow> string \<Rightarrow> string \<Rightarrow> ('w, json) task" where
  "role_config_data app inc g r =
     io_then (on_world (require_role_config_access app inc g r)) (\<lambda>_.
     io_then (query (find_link g r)) (\<lambda>found.
     case found of
       None \<Rightarrow> io_fail link_missing
     | Some link \<Rightarrow> query (role_config_json app g r link)))"

subsection \<open>Saving\<close>

record save_body =
  sv_version :: int
  sv_tree :: rule_tree_body

definition check_account :: "string \<Rightarrow> string option \<Rightarrow> ('w, unit) task" where
  "check_account g account =
     (case account of
        None \<Rightarrow> io_return ()
      | Some did \<Rightarrow>
          io_then (query (account_connected g did)) (\<lambda>ok.
          if ok then io_return ()
          else io_fail (BadRequest
            (''Selected Bluesky account isn'' @ quote # ''t connected to this server.''))))"

definition pick_account_message :: string where
  "pick_account_message =
     ''Pick the Bluesky account this rule checks against before saving '' @ em_dash
     @ '' without a connected account it would grant the role to nobody.''"

definition i32_max :: int where "i32_max = 2147483647"

definition save_rows :: "instant \<Rightarrow> string \<Rightarrow> string \<Rightarrow> int \<Rightarrow> parsed_rule \<Rightarrow> db \<Rightarrow> db" where
  "save_rows now g r version p d =
     d\<lparr>role_links := update_where (\<lambda>l. link_key l = (g, r) \<and> rl_version l = version)
         (\<lambda>l. l\<lparr>rl_account := p_account p, rl_tree := json_of_tree (p_tree p),
                rl_version := rl_version l + 1, rl_updated_at := now\<rparr>) (role_links d)\<rparr>"

text \<open>The \<open>UPDATE\<close> under the version lock and what its row count leads to.\<close>

definition save_locked :: "'w app \<Rightarrow> string \<Rightarrow> string \<Rightarrow> int \<Rightarrow> parsed_rule \<Rightarrow> ('w, int) task" where
  "save_locked app g r version p =
     io_then (query (find_link g r)) (\<lambda>found.
     case found of
       None \<Rightarrow> io_fail link_missing
     | Some link \<Rightarrow>
         if rl_version link \<noteq> version then io_fail StaleVersion
         else if version = i32_max then
           io_fail (Database (SqlxDatabase (Some ''22003'') None ''integer out of range''))
         else
           io_then (on_db (save_rows (ap_now app) g r version p)) (\<lambda>_. io_return (version + 1)))"

definition role_config_save ::
  "'w app \<Rightarrow> incoming \<Rightarrow> string \<Rightarrow> string \<Rightarrow> save_body \<Rightarrow> ('w, json) task"
where
  "role_config_save app inc g r body =
     io_then (io_lift (csrf_unless_bearer app inc)) (\<lambda>_.
     io_then (on_world (require_role_config_access app inc g r)) (\<lambda>access.
     if rc_read_only access then
       io_fail (Forbidden ''This configuration is read-only while impersonating a user.'')
     else
       io_then (check_account g (b_account (sv_tree body))) (\<lambda>_.
       io_then (io_lift (parse_rule_tree (cr_regex (ap_crates app)) (cr_json_show (ap_crates app))
                           (sv_tree body))) (\<lambda>parsed.
       if p_account parsed = None \<and> \<not> grant_on_any_relation (p_tree parsed) \<and> groups (p_tree parsed) \<noteq> [] then
         io_fail (BadRequest pick_account_message)
       else
         io_then (save_locked app g r (sv_version body) parsed) (\<lambda>new_version.
         io_then (on_db (enqueue_config_sync (ap_now app) g r)) (\<lambda>_.
         io_return (JObj [(''success'', JBool True), (''rule_tree_version'', json_of_i64 new_version)])))))))"

subsection \<open>Preview\<close>

definition preview_json :: "nat \<Rightarrow> nat \<Rightarrow> json" where
  "preview_json matching linked = JObj
     [(''available'', JBool True), (''matching'', json_of_nat matching), (''linked'', json_of_nat linked)]"

definition preview_unavailable :: json where
  "preview_unavailable = JObj [(''available'', JBool False), (''reason'', JStr
     ''Member list temporarily unavailable; preview will work once the Auth Gateway responds.'')]"

definition linked_count :: "string list \<Rightarrow> db \<Rightarrow> nat" where
  "linked_count member_ids d = length (filter (\<lambda>u. bu_discord_id u \<in> set member_ids) (users d))"

definition preview_count_for ::
  "'w app \<Rightarrow> string \<Rightarrow> string option \<Rightarrow> rule_tree \<Rightarrow> ('w, json) task"
where
  "preview_count_for app g account tree st =
     (if \<not> grant_on_any_relation tree \<and> (account = None \<or> groups tree = []) then (Inr (preview_json 0 0), st)
      else (case on_world (fetch_guild_member_ids app g) st of
         (Inl _, st1) \<Rightarrow> (Inr preview_unavailable, st1)
       | (Inr member_ids, st1) \<Rightarrow>
           (if member_ids = [] then (Inr (preview_json 0 0), st1)
            else (let linked = linked_count member_ids (fst st1)
              in if grant_on_any_relation tree then (Inr (preview_json linked linked), st1)
                 else (case account of
                    None \<Rightarrow> (Inl (Internal ''account bound for non-grant preview''), st1)
                  | Some did \<Rightarrow>
                      (Inr (preview_json (length (rule_users app (fst st1) did tree member_ids)) linked), st1))))))"

definition role_config_preview :: "'w app \<Rightarrow> incoming \<Rightarrow> string \<Rightarrow> string \<Rightarrow> ('w, json) task" where
  "role_config_preview app inc g r =
     io_then (on_world (require_role_config_access app inc g r)) (\<lambda>_.
     io_then (query (find_link g r)) (\<lambda>found.
     case found of
       None \<Rightarrow> io_fail (NotFound ''Role link not found.'')
     | Some link \<Rightarrow> preview_count_for app g (rl_account link) (tree_of_json (rl_tree link))))"

definition role_config_preview_edit ::
  "'w app \<Rightarrow> incoming \<Rightarrow> string \<Rightarrow> string \<Rightarrow> rule_tree_body \<Rightarrow> ('w, json) task"
where
  "role_config_preview_edit app inc g r body =
     io_then (io_lift (csrf_unless_bearer app inc)) (\<lambda>_.
     io_then (on_world (require_role_config_access app inc g r)) (\<lambda>_.
     io_then (check_account g (b_account body)) (\<lambda>_.
     io_then (io_lift (parse_rule_tree (cr_regex (ap_crates app)) (cr_json_show (ap_crates app)) body)) (\<lambda>parsed.
     preview_count_for app g (p_account parsed) (p_tree parsed)))))"

subsection \<open>Catalogs and gates\<close>

lemma catalog_targets: "distinct (map fst catalog_entries) \<and> set (map fst catalog_entries) = UNIV"
proof -
  have "t \<in> set (map fst catalog_entries)" for t by (cases t) (simp_all add: catalog_entries_def)
  then show ?thesis by (auto simp: catalog_entries_def)
qed

lemma catalog_operators: "distinct (map fst operator_entries) \<and> set (map fst operator_entries) = UNIV"
proof -
  have "o' \<in> set (map fst operator_entries)" for o' by (cases o') (simp_all add: operator_entries_def)
  then show ?thesis by (auto simp: operator_entries_def)
qed

text \<open>What may open the editor of a role: its own session or a manager; the flag travels along.\<close>

definition editor_of :: "'w app \<Rightarrow> incoming \<Rightarrow> string \<Rightarrow> string \<Rightarrow> 'w \<Rightarrow> bool" where
  "editor_of app inc g r w \<longleftrightarrow>
     (\<exists>s. bearer_for app inc s \<and> if_guild s = g \<and> if_role s = r \<and> \<not> if_read_only s) \<or>
     extract_bearer inc = None \<and> verify_origin inc (allowed_origins (ap_config app)) = Inr () \<and>
     (\<exists>d. manager_of app inc g d w)"

lemma writer_is_editor:
  assumes csrf: "csrf_unless_bearer app inc = Inr ()"
    and acc: "on_world (require_role_config_access app inc g r) s = (Inr a, s')" and "\<not> rc_read_only a"
  shows "editor_of app inc g r (snd s) \<and> fst s' = fst s"
proof -
  from acc obtain w' where "require_role_config_access app inc g r (snd s) = (Inr a, w')"
    by (auto simp: on_world_def split: prod.splits)
  from role_access_ok [OF this] csrf assms(3) on_world_db [OF acc] bearer_for_Some [of app inc]
  show ?thesis by (auto simp: editor_of_def csrf_unless_bearer_def)
qed

subsection \<open>Save\<close>

lemma check_account_ok:
  "check_account g account s = (Inr u, s') \<longleftrightarrow>
     u = () \<and> s' = s \<and> (\<forall>did. account = Some did \<longrightarrow> account_connected g did (fst s))"
  by (auto simp: check_account_def io_then_def split: option.split)

lemma check_account_Inl: "check_account g account s = (Inl e, s') \<Longrightarrow> s' = s"
  by (auto simp: check_account_def io_then_def split: option.splits if_splits)

lemma save_locked_Inr:
  "save_locked app g r version p s = (Inr v, s') \<longleftrightarrow>
     (\<exists>link. find_link g r (fst s) = Some link \<and> rl_version link = version \<and> version \<noteq> i32_max \<and>
        v = version + 1 \<and> s' = (save_rows (ap_now app) g r version p (fst s), snd s))"
  by (auto simp: save_locked_def io_then_def split: option.split)

lemma save_locked_Inl: "save_locked app g r version p s = (Inl e, s') \<Longrightarrow> s' = s"
  by (auto simp: save_locked_def io_then_def split: option.splits if_splits)

lemma save_cases:
  assumes "role_config_save app inc g r body s = (x, s')"
  obtains (refused) e where "x = Inl e" "fst s' = fst s"
  | (saved) p link where
      "editor_of app inc g r (snd s)"
      "parse_rule_tree (cr_regex (ap_crates app)) (cr_json_show (ap_crates app)) (sv_tree body) = Inr p"
      "\<forall>did. b_account (sv_tree body) = Some did \<longrightarrow> account_connected g did (fst s)"
      "p_account p = None \<longrightarrow> grant_on_any_relation (p_tree p) \<or> groups (p_tree p) = []"
      "find_link g r (fst s) = Some link" "rl_version link = sv_version body" "sv_version body \<noteq> i32_max"
      "x = Inr (JObj [(''success'', JBool True), (''rule_tree_version'', json_of_i64 (sv_version body + 1))])"
      "fst s' = enqueue_config_sync (ap_now app) g r
         (save_rows (ap_now app) g r (sv_version body) p (fst s))"
proof (cases x)
  case (Inl e)
  have "fst s' = fst s"
    using assms unfolding Inl
    by (auto simp: role_config_save_def io_then_Inl check_account_ok save_locked_Inr
        dest!: save_locked_Inl check_account_Inl on_world_db split: if_splits)
  with Inl show thesis by (rule refused)
next
  case (Inr j)
  from assms obtain a s1 p where csrf: "csrf_unless_bearer app inc = Inr ()"
    and acc: "on_world (require_role_config_access app inc g r) s = (Inr a, s1)" "\<not> rc_read_only a"
    and con: "\<forall>did. b_account (sv_tree body) = Some did \<longrightarrow> account_connected g did (fst s1)"
    and p: "parse_rule_tree (cr_regex (ap_crates app)) (cr_json_show (ap_crates app)) (sv_tree body) = Inr p"
    and pick: "p_account p = None \<longrightarrow> grant_on_any_relation (p_tree p) \<or> groups (p_tree p) = []"
    and rest: "io_then (save_locked app g r (sv_version body) p) (\<lambda>new_version.
         io_then (on_db (enqueue_config_sync (ap_now app) g r)) (\<lambda>_.
         io_return (JObj [(''success'', JBool True), (''rule_tree_version'', json_of_i64 new_version)]))) s1
       = (Inr j, s')"
    unfolding Inr
    by (auto simp: role_config_save_def io_then_Inr [of "io_lift _"] io_then_Inr [of "on_world _"]
        io_then_Inr [of "check_account _ _"] check_account_ok split: if_splits)
  from writer_is_editor [OF csrf acc] have ed: "editor_of app inc g r (snd s)" "fst s1 = fst s" by simp_all
  from rest obtain link where "find_link g r (fst s1) = Some link" "rl_version link = sv_version body"
    "sv_version body \<noteq> i32_max"
    "j = JObj [(''success'', JBool True), (''rule_tree_version'', json_of_i64 (sv_version body + 1))]"
    "fst s' = enqueue_config_sync (ap_now app) g r (save_rows (ap_now app) g r (sv_version body) p (fst s1))"
    by (auto simp: io_then_Inr save_locked_Inr)
  with ed con p pick Inr show thesis by (intro saved) simp_all
qed

definition saved_link :: "instant \<Rightarrow> parsed_rule \<Rightarrow> role_link \<Rightarrow> role_link" where
  "saved_link now p l = l\<lparr>rl_account := p_account p, rl_tree := json_of_tree (p_tree p),
     rl_version := rl_version l + 1, rl_updated_at := now\<rparr>"

lemma save_lookup:
  assumes "find_link g r d = Some l" "rl_version l = version"
  shows "find_link g' r' (save_rows now g r version p d) =
    (if (g', r') = (g, r) then Some (saved_link now p l) else find_link g' r' d)"
proof -
  let ?P = "\<lambda>l. link_key l = (g, r) \<and> rl_version l = version"
  have "find_link g' r' (save_rows now g r version p d) =
      map_option (\<lambda>l. if ?P l then saved_link now p l else l) (find_link g' r' d)"
    unfolding find_link_def save_rows_def saved_link_def
    by (simp add: find_row_update_where link_key_def)
  then show ?thesis
    using assms by (auto simp: find_link_def dest: find_row_Some_in intro!: option.map_ident_strong)
qed

lemma find_link_enqueue [simp]: "find_link g r (enqueue now k q n d) = find_link g r d"
  by (simp add: find_link_def enqueue_def)

lemma save_rows_full: "full_ok d \<Longrightarrow> full_ok (save_rows now g r version p d)"
  by (simp add: full_ok_def queue_ok_def save_rows_def db_ok_def keys_ok_def refs_ok_def
      unique_key_update_where keys_update_where link_key_def)

lemma check_account_full: "keeps_full (check_account g account)"
  unfolding check_account_def by (intro preserves_rules)

lemma save_locked_full: "keeps_full (save_locked app g r version p)"
  unfolding save_locked_def by (intro preserves_rules save_rows_full)

lemma enqueue_config_full: "full_ok d \<Longrightarrow> full_ok (enqueue_config_sync now g r d)"
  by (simp add: enqueue_config_sync_def enqueue_ok)

lemma save_full: "keeps_full (role_config_save app inc g r body)"
  unfolding role_config_save_def
  by (intro preserves_rules check_account_full save_locked_full enqueue_config_full)

lemma data_full: "keeps_full (role_config_data app inc g r)"
  unfolding role_config_data_def by (intro preserves_rules)

lemma preview_count_db: "fst (snd (preview_count_for app g account tree s)) = fst s"
  by (auto simp: preview_count_for_def Let_def dest!: on_world_db split: sum.split prod.split option.split)

lemma preview_count_full: "keeps_full (preview_count_for app g account tree)"
  unfolding preserves_def by (simp only: preview_count_db) blast

lemma preview_full: "keeps_full (role_config_preview app inc g r)"
  unfolding role_config_preview_def by (intro preserves_rules preview_count_full)

lemma preview_edit_full: "keeps_full (role_config_preview_edit app inc g r body)"
  unfolding role_config_preview_edit_def by (intro preserves_rules check_account_full preview_count_full)

subsection \<open>Preview\<close>

lemma rule_users_nobody: "\<not> grant_on_any_relation tree \<Longrightarrow> groups tree = [] \<Longrightarrow> rule_users app d did tree ids = []"
  using sql.convention_42 by (simp add: rule_users_def filter_empty_conv)

lemma preview_bound:
  "fst (preview_count_for app g account tree s) \<noteq> Inl e"
  by (auto simp: preview_count_for_def Let_def split: sum.split prod.split option.split)

lemma preview_counts_sync:
  assumes ids: "fetch_guild_member_ids app g (snd s) = (Inr ids, w)" and lim: "\<not> limit_is_negative limit"
  shows "\<exists>us l. fst (preview_count_for app g account tree s) = Inr (preview_json (length us) l) \<and>
    select_qualifying app (fst s) account tree ids limit = Inr (take limit us)"
proof -
  have on: "on_world (fetch_guild_member_ids app g) s = (Inr ids, (fst s, w))"
    using ids by (simp add: on_world_def)
  have empty: "rule_users app (fst s) did tree [] = []" for did by (simp add: rule_users_def)
  consider (nobody) "\<not> grant_on_any_relation tree" "account = None \<or> groups tree = []"
    | (any) "grant_on_any_relation tree"
    | (bound) did where "\<not> grant_on_any_relation tree" "account = Some did" "groups tree \<noteq> []"
    by (cases account) auto
  then show ?thesis
  proof cases
    case nobody
    then show ?thesis
      using lim rule_users_nobody [of tree]
      by (intro exI [of _ "[]"] exI [of _ 0])
        (auto simp: preview_count_for_def select_qualifying_def split: option.split)
  next
    case any
    let ?us = "sort (map bu_discord_id (filter (\<lambda>u. bu_discord_id u \<in> set ids) (users (fst s))))"
    have "length ?us = (if ids = [] then 0 else linked_count ids (fst s))" by (simp add: linked_count_def)
    with any show ?thesis
      using lim on
      by (intro exI [of _ ?us] exI [of _ "length ?us"])
        (simp add: preview_count_for_def select_qualifying_def grant_any_users_def Let_def)
  next
    case bound
    with empty show ?thesis
      using lim on
      by (intro exI [of _ "rule_users app (fst s) did tree ids"]
          exI [of _ "if ids = [] then 0 else linked_count ids (fst s)"])
        (simp add: preview_count_for_def select_qualifying_def Let_def)
  qed
qed

subsection \<open>The editor's session\<close>

lemma entry_ok:
  assumes "verify_iframe_entry app g r t d = Inr (token, ro)"
  obtains link v where "find_link g r d = Some link"
    "verify (ap_crates app) (now_secs app) t (rl_token link) (base_url (ap_config app)) = Inr v"
    "v_guild v = g" "v_role v = r" "v_read_only v = ro"
    "token = mint_iframe_session (ap_crates app) (now_secs app) (v_discord_id v) g r ro (session_key app)"
  using assms
  by (auto simp: verify_iframe_entry_def inline_error_def split: option.splits sum.splits if_splits)

end
