(* ===== verification/Routes_Verify.thy ===== *)
theory Routes_Verify
  imports Routes_Accounts Pages
begin

section \<open>Linking a member's Bluesky account (\<open>routes/verify.rs\<close>)\<close>

text \<open>
  A signed-in member proves a Bluesky account with an app password; one account belongs to at most
  one Discord user (the \<open>UNIQUE\<close> constraint \<open>bsky_users_did_key\<close>). Unlinking takes the row and what was
  recorded about the account's DID. Of the templates only the markers matter here.

  \<open>verify_bsky_cases\<close> and \<open>unlink_effect\<close> are the outcomes of linking and unlinking, \<open>forgotten\<close> that
  nothing about an unlinked account is left.
\<close>

definition verify_status :: "'w app \<Rightarrow> incoming \<Rightarrow> ('w, json) task" where
  "verify_status app inc =
     (let discord = (case read_session app inc of Inl _ \<Rightarrow> None | Inr s \<Rightarrow> Some s)
      in query (\<lambda>d. let link = Option.bind discord (\<lambda>(discord_id, _). find_row bu_discord_id discord_id (users d))
         in JObj
          [(''signed_in_discord'', JBool (discord \<noteq> None)),
           (''discord_username'', json_opt (\<lambda>(_, name). JStr name) discord),
           (''linked_bsky'', JBool (link \<noteq> None)),
           (''bsky_did'', json_opt (\<lambda>u. JStr (bu_did u)) link),
           (''bsky_handle'', json_opt (\<lambda>u. JStr (bu_handle u)) link),
           (''bsky_display_name'', json_opt JStr (Option.bind link bu_display_name))]))"

subsection \<open>Unlink\<close>

definition remove_viewer :: "string \<Rightarrow> db \<Rightarrow> db" where
  "remove_viewer discord_id d = d\<lparr>users := delete_where (\<lambda>u. bu_discord_id u = discord_id) (users d)\<rparr>"

definition forget_viewer :: "string \<Rightarrow> db \<Rightarrow> db" where
  "forget_viewer did d =
     d\<lparr>relations := delete_where (\<lambda>r. ar_viewer r = did) (relations d),
       list_members := delete_where (\<lambda>m. mb_did m = did) (list_members d),
       pack_members := delete_where (\<lambda>m. mb_did m = did) (pack_members d)\<rparr>"

definition verify_unlink :: "'w app \<Rightarrow> incoming \<Rightarrow> ('w, json) task" where
  "verify_unlink app inc =
     io_then (io_lift (verify_origin inc (allowed_origins (ap_config app)))) (\<lambda>_.
     io_then (io_lift (read_session app inc)) (\<lambda>(discord_id, _).
     io_then (query (\<lambda>d. find_row bu_discord_id discord_id (users d))) (\<lambda>removed.
     case removed of
       None \<Rightarrow> io_fail (NotFound ''No linked Bluesky account to unlink.'')
     | Some u \<Rightarrow>
         io_then (on_db (remove_viewer discord_id)) (\<lambda>_.
         io_then (on_db (forget_viewer (bu_did u))) (\<lambda>_.
         io_then (on_db (enqueue_player_sync (ap_now app) discord_id)) (\<lambda>_.
         io_return success_json))))))"

definition verify_login :: "'w app \<Rightarrow> string" where
  "verify_login app =
     auth_gateway_url (ap_config app) @ ''/auth/login?return_to=''
     @ cr_url_encode (ap_crates app) (path_only (base_url (ap_config app)) @ ''/verify'')"

subsection \<open>Link\<close>

definition linked_user :: "'w app \<Rightarrow> string \<Rightarrow> string \<Rightarrow> session_resp \<Rightarrow> profile \<Rightarrow> bsky_user" where
  "linked_user app discord_id discord_name se p =
     \<lparr>bu_discord_id = discord_id, bu_did = ss_did se, bu_handle = ss_handle se,
      bu_handle_domain = handle_domain (ss_handle se),
      bu_has_custom_domain = is_custom_domain (ss_handle se),
      bu_pds_host = Some (default_pds (ap_config app)), bu_display_name = pr_display_name p,
      bu_description = pr_description p, bu_has_avatar = (pr_avatar p \<noteq> None),
      bu_has_banner = (pr_banner p \<noteq> None), bu_posts_count = as_i32 (pr_posts_count p),
      bu_followers_count = as_i32 (pr_followers_count p), bu_follows_count = as_i32 (pr_follows_count p),
      bu_created_at = parse_rfc3339 app (pr_created_at p), bu_discord_name = Some discord_name,
      bu_linked_at = ap_now app, bu_refreshed_at = ap_now app\<rparr>"

definition relink :: "bsky_user \<Rightarrow> bsky_user \<Rightarrow> bsky_user" where
  "relink old new = new\<lparr>bu_created_at := coalesce (bu_created_at new) (bu_created_at old),
     bu_discord_name := coalesce (bu_discord_name new) (bu_discord_name old),
     bu_linked_at := bu_linked_at old\<rparr>"

definition did_free :: "string \<Rightarrow> string \<Rightarrow> db \<Rightarrow> bool" where
  "did_free discord_id did d \<longleftrightarrow> (\<forall>u \<in> set (users d). bu_discord_id u \<noteq> discord_id \<longrightarrow> bu_did u \<noteq> did)"

definition store_user :: "bsky_user \<Rightarrow> db \<Rightarrow> db" where
  "store_user u d = d\<lparr>users := upsert bu_discord_id relink u (users d)\<rparr>"

definition already_linked_message :: "string \<Rightarrow> string" where
  "already_linked_message handle =
     ''Bluesky account @'' @ handle @ '' is already linked to a different Discord account. ''
     @ ''Unlink there first, then try again.''"

text \<open>The public profile, or the member's own view of it when the public mirror fails.\<close>

definition fetch_profile :: "'w app \<Rightarrow> session_resp \<Rightarrow> ('w, profile) io" where
  "fetch_profile app se w =
     (case get_profile_public app (ss_handle se) w of
        (Inr p, w1) \<Rightarrow> (Inr p, w1)
      | (Inl _, w1) \<Rightarrow> get_profile_authed app (ss_access_jwt se) (ss_did se) w1)"

text \<open>Empty relations for every account of the member's servers; a failing gateway is only logged.\<close>

definition seed_relations :: "'w app \<Rightarrow> string \<Rightarrow> ('w, unit) task" where
  "seed_relations app discord_id st =
     (case on_world (fetch_user_guild_ids app discord_id) st of
        (Inr guild_ids, st1) \<Rightarrow> on_db (ensure_baseline_relations (ap_now app) discord_id guild_ids) st1
      | (Inl _, st1) \<Rightarrow> io_return () st1)"

text \<open>The upsert, with the violated constraint turned into the answer.\<close>

definition upsert_user ::
  "'w app \<Rightarrow> string \<Rightarrow> string \<Rightarrow> session_resp \<Rightarrow> profile \<Rightarrow> ('w, unit) task"
where
  "upsert_user app discord_id discord_name session profile =
     io_then (query (did_free discord_id (ss_did session))) (\<lambda>free.
     if \<not> free then io_fail (Forbidden (already_linked_message (ss_handle session)))
     else on_db (store_user (linked_user app discord_id discord_name session profile)))"

definition verify_bsky :: "'w app \<Rightarrow> incoming \<Rightarrow> string \<times> string \<Rightarrow> ('w, session_resp) task" where
  "verify_bsky app inc body =
     io_then (io_lift (verify_origin inc (allowed_origins (ap_config app)))) (\<lambda>_.
     io_then (io_lift (read_session app inc)) (\<lambda>(discord_id, discord_name).
     io_then (io_lift (check_credentials ''Both your handle and an app password are required.'' body))
       (\<lambda>(ident, app_password).
     io_then (on_world (create_session app ident app_password)) (\<lambda>session.
     io_then (on_world (fetch_profile app session)) (\<lambda>profile.
     io_then (upsert_user app discord_id discord_name session profile) (\<lambda>_.
     io_then (seed_relations app discord_id) (\<lambda>_.
     io_then (on_db (enqueue_player_sync (ap_now app) discord_id)) (\<lambda>_.
     io_return session))))))))"

definition verify_done_html :: "string \<Rightarrow> 'w app \<Rightarrow> session_resp \<Rightarrow> string" where
  "verify_done_html template app session =
     fill [(''{{BASE_URL}}'', base_url (ap_config app)), (''{{BSKY_HANDLE}}'', ss_handle session),
           (''{{BSKY_DID}}'', ss_did session), (''{{BSKY_PROFILE_URL}}'', profile_url (ss_handle session))]
       template"

subsection \<open>Constraints\<close>

interpretation user_links: keyed_table bu_discord_id relink
  by unfold_locales (simp add: relink_def)

lemma relink_did [simp]: "bu_did (relink old new) = bu_did new"
  by (simp add: relink_def)

lemma store_user_full:
  assumes ok: "full_ok d" and free: "did_free (bu_discord_id u) (bu_did u) d"
  shows "full_ok (store_user u d)"
proof -
  have "unique_key bu_did (upsert bu_discord_id relink u (users d))"
    using ok free by (intro unique_upsert_other) (auto simp: full_ok_def db_ok_def keys_ok_def did_free_def)
  with ok show ?thesis
    by (simp add: full_ok_def queue_ok_def store_user_def db_ok_def keys_ok_def refs_ok_def
        user_links.unique_upsert)
qed

lemma remove_viewer_full: "full_ok d \<Longrightarrow> full_ok (remove_viewer discord_id d)"
  by (simp add: full_ok_def queue_ok_def remove_viewer_def db_ok_def keys_ok_def refs_ok_def
      unique_key_delete_where)

lemma forget_viewer_full: "full_ok d \<Longrightarrow> full_ok (forget_viewer did d)"
  by (auto simp: full_ok_def queue_ok_def forget_viewer_def db_ok_def keys_ok_def refs_ok_def
      unique_key_delete_where)

lemma enqueue_player_full: "full_ok d \<Longrightarrow> full_ok (enqueue_player_sync now u d)"
  by (simp add: enqueue_player_sync_def enqueue_ok)

lemma baseline_full: "full_ok d \<Longrightarrow> full_ok (ensure_baseline_relations now discord gs d)"
proof -
  have ins: "jobs (foldl (\<lambda>d a. insert_relation now a v d) d as) = jobs d \<and>
      next_job_id (foldl (\<lambda>d a. insert_relation now a v d) d as) = next_job_id d" for v d as
    by (induction as arbitrary: d) (simp_all add: insert_relation_def)
  have "jobs (ensure_baseline_relations now discord gs d) = jobs d"
    "next_job_id (ensure_baseline_relations now discord gs d) = next_job_id d"
    using ins by (simp_all add: ensure_baseline_relations_def split: option.split)
  then show "full_ok d \<Longrightarrow> full_ok (ensure_baseline_relations now discord gs d)"
    unfolding full_ok_def using baseline_ok same_queue_ok by blast
qed

lemma seed_full: "keeps_full (seed_relations app discord_id)"
  unfolding preserves_def
  by (auto simp: seed_relations_def baseline_full dest!: on_world_db split: sum.split prod.split)

lemma unlink_full: "keeps_full (verify_unlink app inc)"
  unfolding verify_unlink_def
  by (intro preserves_rules remove_viewer_full forget_viewer_full enqueue_player_full)

lemma status_full: "keeps_full (verify_status app inc)"
  unfolding verify_status_def Let_def by (intro preserves_rules)

subsection \<open>Linking and unlinking\<close>

lemma seeded_baseline_keeps:
  "users (ensure_baseline_relations now u gs d) = users d"
  "jobs (ensure_baseline_relations now u gs d) = jobs d"
  "next_job_id (ensure_baseline_relations now u gs d) = next_job_id d"
proof -
  have "users (foldl (\<lambda>d a. insert_relation now a v d) d as) = users d \<and>
      jobs (foldl (\<lambda>d a. insert_relation now a v d) d as) = jobs d \<and>
      next_job_id (foldl (\<lambda>d a. insert_relation now a v d) d as) = next_job_id d" for v d as
    by (induction as arbitrary: d) (simp_all add: insert_relation_def)
  then show "users (ensure_baseline_relations now u gs d) = users d"
    "jobs (ensure_baseline_relations now u gs d) = jobs d"
    "next_job_id (ensure_baseline_relations now u gs d) = next_job_id d"
    by (simp_all add: ensure_baseline_relations_def split: option.split)
qed

lemma seed_keeps:
  assumes "seed_relations app u st = (x, st')"
  shows "x = Inr () \<and> users (fst st') = users (fst st) \<and> jobs (fst st') = jobs (fst st) \<and>
    next_job_id (fst st') = next_job_id (fst st)"
  using assms
  by (auto simp: seed_relations_def seeded_baseline_keeps dest!: on_world_db split: sum.splits prod.splits)

text \<open>What a handler knows when it writes: the caller's identity and the proof of ownership.\<close>

lemma verify_bsky_cases:
  assumes "verify_bsky app inc body s = (x, s')"
  obtains (refused) e where "x = Inl e" "fst s' = fst s"
  | (linked) discord_id name ident password se w p where
      "verify_origin inc (allowed_origins (ap_config app)) = Inr ()"
      "read_session app inc = Inr (discord_id, name)"
      "check_credentials ''Both your handle and an app password are required.'' body = Inr (ident, password)"
      "create_session app ident password (snd s) = (Inr se, w)"
      "did_free discord_id (ss_did se) (fst s)" "x = Inr se"
      "users (fst s') = upsert bu_discord_id relink (linked_user app discord_id name se p) (users (fst s))"
      "jobs (fst s') = jobs (fst s) @
         [new_job (next_job_id (fst s)) PlayerSync (player_payload discord_id) (ap_now app)]"
proof (cases x)
  case (Inl e)
  have "fst s' = fst s"
    using assms unfolding Inl
    by (auto simp: verify_bsky_def upsert_user_def io_then_Inl dest!: on_world_db seed_keeps split: if_splits)
  with Inl show thesis by (rule refused)
next
  case (Inr se0)
  from assms obtain discord_id name ident password se s1 p s2 s3 where
    o: "verify_origin inc (allowed_origins (ap_config app)) = Inr ()"
    and r: "read_session app inc = Inr (discord_id, name)"
    and c: "check_credentials ''Both your handle and an app password are required.'' body = Inr (ident, password)"
    and se: "on_world (create_session app ident password) s = (Inr se, s1)"
    and p: "on_world (fetch_profile app se) s1 = (Inr p, s2)"
    and free: "did_free discord_id (ss_did se) (fst s2)"
    and seed: "seed_relations app discord_id
       (store_user (linked_user app discord_id name se p) (fst s2), snd s2) = (Inr (), s3)"
    and s': "fst s' = enqueue_player_sync (ap_now app) discord_id (fst s3)" and x: "x = Inr se"
    unfolding Inr by (auto simp: verify_bsky_def upsert_user_def io_then_Inr split: if_splits)
  from se obtain w where w: "create_session app ident password (snd s) = (Inr se, w)"
    by (auto simp: on_world_def split: prod.splits)
  have s2: "fst s2 = fst s" using on_world_db [OF se] on_world_db [OF p] by simp
  from seed_keeps [OF seed] have "users (fst s3) = users (store_user (linked_user app discord_id name se p) (fst s))"
    "jobs (fst s3) = jobs (fst s)" "next_job_id (fst s3) = next_job_id (fst s)"
    by (simp_all add: s2 store_user_def)
  then show thesis
    using o r c w free x
    by (intro linked [of discord_id name ident password se w p])
      (simp_all add: s2 s' enqueue_player_sync_def enqueue_def store_user_def secs_def)
qed

lemma upsert_user_full: "keeps_full (upsert_user app u name se p)"
  unfolding preserves_def
proof (intro allI impI)
  fix s :: "db \<times> 'a" assume ok: "full_ok (fst s)"
  show "full_ok (fst (snd (upsert_user app u name se p s)))"
    using ok store_user_full [OF ok, of "linked_user app u name se p"]
    by (simp add: upsert_user_def io_then_def linked_user_def)
qed

lemma link_full: "keeps_full (verify_bsky app inc body)"
  unfolding verify_bsky_def
  by (intro preserves_rules upsert_user_full seed_full enqueue_player_full)

lemma unlink_effect:
  assumes "verify_unlink app inc s = (Inr j, s')"
  obtains discord_id name u where
    "verify_origin inc (allowed_origins (ap_config app)) = Inr ()"
    "read_session app inc = Inr (discord_id, name)"
    "find_row bu_discord_id discord_id (users (fst s)) = Some u"
    "fst s' = enqueue_player_sync (ap_now app) discord_id
       (forget_viewer (bu_did u) (remove_viewer discord_id (fst s)))" "snd s' = snd s"
  using assms by (auto simp: verify_unlink_def io_then_Inr split: option.splits)

lemma forgotten:
  "d' = enqueue_player_sync now discord_id (forget_viewer did (remove_viewer discord_id d)) \<Longrightarrow>
   find_row bu_discord_id discord_id (users d') = None \<and>
   (\<forall>r \<in> set (relations d'). ar_viewer r \<noteq> did) \<and> (\<forall>m \<in> set (list_members d'). mb_did m \<noteq> did) \<and>
   (\<forall>m \<in> set (pack_members d'). mb_did m \<noteq> did)"
  by (auto simp: enqueue_player_sync_def enqueue_def forget_viewer_def remove_viewer_def find_row_None_iff)

end
