(* ===== verification/Routes_Public.thy ===== *)
theory Routes_Public
  imports Routes_Accounts
begin

section \<open>Probes (\<open>routes/dweeb.rs\<close>, \<open>routes/health.rs\<close>)\<close>

text \<open>
  The public set-up probe of a server and the two liveness endpoints. A handler is a function of what
  the database or the network answered; a latency is an argument. \<open>status_configured\<close>: the probe tells
  whether a role link is registered, and nothing else of the server.
\<close>

definition is_snowflake :: "string \<Rightarrow> bool" where
  "is_snowflake s \<longleftrightarrow> 15 \<le> length s \<and> length s \<le> 25 \<and> list_all is_ascii_digit s"

record probe =
  pb_status :: nat
  pb_cache_control :: string
  pb_body :: json

definition probe_headers :: "probe \<Rightarrow> (string \<times> string) list" where
  "probe_headers p = [(''content-type'', ''application/json''), (''access-control-allow-origin'', ''*''),
     (''cache-control'', pb_cache_control p)]"

definition role_count :: "string \<Rightarrow> db \<Rightarrow> nat" where
  "role_count g d = length (filter (\<lambda>l. rl_guild l = g) (role_links d))"

text \<open>\<open>counted\<close> is what the count query answered.\<close>

definition status :: "string option \<Rightarrow> (string \<Rightarrow> sqlx_error + nat) \<Rightarrow> probe" where
  "status guild counted =
     (case guild of
        None \<Rightarrow> \<lparr>pb_status = 400, pb_cache_control = ''no-store'',
                 pb_body = err_json ''guild must be a Discord server id''\<rparr>
      | Some g \<Rightarrow>
          if \<not> is_snowflake g then
            \<lparr>pb_status = 400, pb_cache_control = ''no-store'',
             pb_body = err_json ''guild must be a Discord server id''\<rparr>
          else (case counted g of
             Inl _ \<Rightarrow> \<lparr>pb_status = 500, pb_cache_control = ''no-store'',
                       pb_body = err_json ''temporarily unavailable''\<rparr>
           | Inr n \<Rightarrow> \<lparr>pb_status = 200, pb_cache_control = ''public, max-age=60'',
                       pb_body = JObj [(''schema_version'', json_of_i64 1), (''plugin'', JStr plugin_slug),
                         (''guild_id'', JStr g), (''configured'', JBool (n > 0)),
                         (''role_count'', json_of_nat n)]\<rparr>))"

definition check_service :: "string \<Rightarrow> bool \<Rightarrow> nat \<Rightarrow> json" where
  "check_service name answered latency = JObj
     [(''name'', JStr name), (''status'', JStr (if answered then ''up'' else ''down'')),
      (''latency_ms'', json_of_nat latency)]"

definition health :: "string \<Rightarrow> bool \<times> nat \<Rightarrow> json \<Rightarrow> http_reply" where
  "health timestamp db_check bsky_check =
     (let bsky_down = (json_at bsky_check ''status'' = JStr ''down'')
      in (if fst db_check then 200 else 503,
          JObj [(''status'', JStr (if fst db_check then if bsky_down then ''degraded'' else ''healthy''
                                 else ''unhealthy'')),
                (''timestamp'', JStr timestamp),
                (''checks'', JObj [(''database'', JObj
                  [(''status'', JStr (if fst db_check then ''up'' else ''down'')),
                   (''latency_ms'', json_of_nat (snd db_check))])]),
                (''services'', JArr [bsky_check])]))"

definition ready :: "bool \<Rightarrow> http_reply" where
  "ready draining =
     (if draining then (503, JObj [(''status'', JStr ''draining'')])
      else (200, JObj [(''status'', JStr ''ready'')]))"

lemma status_configured:
  assumes "is_snowflake g"
  shows "json_at (pb_body (status (Some g) (\<lambda>g. Inr (role_count g d)))) ''configured'' =
    JBool (\<exists>l \<in> set (role_links d). rl_guild l = g)"
  using assms by (simp add: status_def json_at_def role_count_def filter_empty_conv)

lemma health_status:
  "health ts (up, l) (check_service ''Bluesky API'' b l') = (c, j) \<Longrightarrow>
   (c = 200 \<longleftrightarrow> up) \<and> (json_at j ''status'' = JStr ''healthy'' \<longleftrightarrow> up \<and> b)"
  by (cases up; cases b) (auto simp: health_def check_service_def json_at_def Let_def)

end
