(* ===== verification/Server.thy ===== *)
theory Server
  imports Routes_Role_Config Routes_Verify Routes_Public
begin

section \<open>The whole program (\<open>main.rs\<close>)\<close>

text \<open>
  \<open>route_table\<close> is the router of \<open>main.rs\<close>, \<open>route\<close> its lookup: the first path that matches, where a
  literal segment is listed before a capture. \<open>serve\<close> runs the handler of an endpoint. A request body
  arrives decoded; one of another shape is refused before the handler (\<open>axum\<close>'s extractors). Sockets,
  CORS, the rate limiter and compression are layers around this.

  \<open>system_step\<close> is one move of the program: a request, a worker's pass, the periodic reconciliation,
  or anything the outside world does. Each step may run with its own clock and nonces (\<open>app\<close>).
  \<open>program\<close> interprets \<open>step_invariant\<close> on it: whatever the interleaving, the database satisfies its
  constraints and the queue its invariant (\<open>reachable_full\<close>). \<open>get_is_safe\<close>: no \<open>GET\<close> writes.
\<close>

datatype endpoint =
    Register | GetConfig | PostConfig | DeleteConfig
  | BroadcasterList string | BroadcasterConnect string | BroadcasterDisconnect string string
  | BroadcasterRefresh string string
  | RoleConfigEditor string string | RoleConfigData string string | RoleConfigSave string string
  | RoleConfigPreview string string | RoleConfigPreviewEdit string string
  | SetViewPermission string | UsersPage string | UsersData string
  | VerifyPage | VerifyStatus | VerifyLogin | VerifyBsky | VerifyUnlink
  | Favicon | DweebStatus | Health | Ready

datatype segment = Lit string | Cap

fun match_path :: "segment list \<Rightarrow> string list \<Rightarrow> string list option" where
  "match_path [] [] = Some []"
| "match_path (Lit s # ps) (x # xs) = (if s = x then match_path ps xs else None)"
| "match_path (Cap # ps) (x # xs) = map_option ((#) x) (match_path ps xs)"
| "match_path _ _ = None"

type_synonym route_entry = "segment list \<times> (http_method \<times> (string list \<Rightarrow> endpoint)) list"

definition route_table :: "route_entry list" where
  "route_table =
     [([Lit ''register''], [(POST, \<lambda>_. Register)]),
      ([Lit ''config''], [(GET, \<lambda>_. GetConfig), (POST, \<lambda>_. PostConfig), (DELETE, \<lambda>_. DeleteConfig)]),
      ([Lit ''admin'', Cap, Lit ''accounts''], [(GET, \<lambda>c. BroadcasterList (c ! 0))]),
      ([Lit ''admin'', Cap, Lit ''accounts'', Lit ''connect''], [(POST, \<lambda>c. BroadcasterConnect (c ! 0))]),
      ([Lit ''admin'', Cap, Lit ''accounts'', Cap], [(DELETE, \<lambda>c. BroadcasterDisconnect (c ! 0) (c ! 1))]),
      ([Lit ''admin'', Cap, Lit ''accounts'', Cap, Lit ''refresh''],
        [(POST, \<lambda>c. BroadcasterRefresh (c ! 0) (c ! 1))]),
      ([Lit ''admin'', Cap, Lit ''role'', Cap], [(GET, \<lambda>c. RoleConfigEditor (c ! 0) (c ! 1))]),
      ([Lit ''admin'', Cap, Lit ''role'', Cap, Lit ''data''], [(GET, \<lambda>c. RoleConfigData (c ! 0) (c ! 1))]),
      ([Lit ''admin'', Cap, Lit ''role'', Cap, Lit ''save''], [(POST, \<lambda>c. RoleConfigSave (c ! 0) (c ! 1))]),
      ([Lit ''admin'', Cap, Lit ''role'', Cap, Lit ''preview''],
        [(GET, \<lambda>c. RoleConfigPreview (c ! 0) (c ! 1)), (POST, \<lambda>c. RoleConfigPreviewEdit (c ! 0) (c ! 1))]),
      ([Lit ''admin'', Cap, Lit ''view-permission''], [(POST, \<lambda>c. SetViewPermission (c ! 0))]),
      ([Lit ''users'', Cap], [(GET, \<lambda>c. UsersPage (c ! 0))]),
      ([Lit ''users'', Cap, Lit ''data''], [(GET, \<lambda>c. UsersData (c ! 0))]),
      ([Lit ''verify''], [(GET, \<lambda>_. VerifyPage)]),
      ([Lit ''verify'', Lit ''status''], [(GET, \<lambda>_. VerifyStatus)]),
      ([Lit ''verify'', Lit ''login''], [(POST, \<lambda>_. VerifyLogin)]),
      ([Lit ''verify'', Lit ''bsky''], [(POST, \<lambda>_. VerifyBsky)]),
      ([Lit ''verify'', Lit ''unlink''], [(POST, \<lambda>_. VerifyUnlink)]),
      ([Lit ''favicon.ico''], [(GET, \<lambda>_. Favicon)]),
      ([Lit ''dweeb'', Lit ''status''], [(GET, \<lambda>_. DweebStatus)]),
      ([Lit ''health''], [(GET, \<lambda>_. Health)]),
      ([Lit ''ready''], [(GET, \<lambda>_. Ready)])]"

datatype routed = NoRoute | MethodNotAllowed | To endpoint

fun dispatch_method :: "(http_method \<times> (string list \<Rightarrow> endpoint)) list \<Rightarrow> http_method \<Rightarrow> string list \<Rightarrow> routed"
where
  "dispatch_method ms m captures =
     (case map_of ms m of None \<Rightarrow> MethodNotAllowed | Some e \<Rightarrow> To (e captures))"

fun lookup_route :: "route_entry list \<Rightarrow> http_method \<Rightarrow> string list \<Rightarrow> routed" where
  "lookup_route [] m path = NoRoute"
| "lookup_route ((pat, ms) # rest) m path =
     (case match_path pat path of
        None \<Rightarrow> lookup_route rest m path
      | Some captures \<Rightarrow> dispatch_method ms m captures)"

definition mount :: string where "mount = ''bluesky-account-role''"

definition route :: "http_method \<Rightarrow> string list \<Rightarrow> routed" where
  "route m path =
     (case path of [] \<Rightarrow> NoRoute
      | p # rest \<Rightarrow> if p = mount then lookup_route route_table m rest else NoRoute)"

subsection \<open>Serving a request\<close>

datatype payload =
    NoBody
  | Pair string string
      \<comment> \<open>server and role, or handle and app password\<close>
  | Tree rule_tree_body
  | Save save_body
  | Permission string

record http_call =
  ca_method :: http_method
  ca_path :: "string list"
  ca_query :: "string \<Rightarrow> string option"
  ca_incoming :: incoming
  ca_payload :: payload

datatype reply = Json nat json | Html page | Static string | Redirect string | Refused nat

record probes =
  pr_database :: "bool \<times> nat"
  pr_bluesky :: json
  pr_draining :: bool

definition answer :: "(app_error + json) \<times> 's \<Rightarrow> reply \<times> 's" where
  "answer x = (case x of (Inr j, s) \<Rightarrow> (Json 200 j, s)
     | (Inl e, s) \<Rightarrow> (Json (fst (error_response e)) (snd (error_response e)), s))"

definition bad_body :: "'s \<Rightarrow> reply \<times> 's" where
  "bad_body s = (Refused 422, s)"

fun handler :: "'w app \<Rightarrow> probes \<Rightarrow> http_call \<Rightarrow> endpoint \<Rightarrow> db \<times> 'w \<Rightarrow> reply \<times> (db \<times> 'w)" where
  "handler app pr c Register s =
     (case ca_payload c of Pair g r \<Rightarrow> answer (register app (ca_incoming c) (g, r) s) | _ \<Rightarrow> bad_body s)"
| "handler app pr c GetConfig s = answer (get_config app (ca_incoming c) s)"
| "handler app pr c PostConfig s =
     (case ca_payload c of Pair g r \<Rightarrow> answer (post_config app (ca_incoming c) (g, r) s) | _ \<Rightarrow> bad_body s)"
| "handler app pr c DeleteConfig s =
     (case ca_payload c of Pair g r \<Rightarrow> answer (delete_config app (ca_incoming c) (g, r) s) | _ \<Rightarrow> bad_body s)"
| "handler app pr c (BroadcasterList g) s = answer (broadcaster_list app (ca_incoming c) g s)"
| "handler app pr c (BroadcasterConnect g) s =
     (case ca_payload c of Pair h p \<Rightarrow> answer (broadcaster_connect app (ca_incoming c) g (h, p) s)
      | _ \<Rightarrow> bad_body s)"
| "handler app pr c (BroadcasterDisconnect g did) s =
     answer (broadcaster_disconnect app (ca_incoming c) g did s)"
| "handler app pr c (BroadcasterRefresh g did) s = answer (broadcaster_refresh app (ca_incoming c) g did s)"
| "handler app pr c (RoleConfigEditor g r) s =
     (case role_config_page app (ca_incoming c) g r (ca_query c ''rl_token'') s of (p, s') \<Rightarrow> (Html p, s'))"
| "handler app pr c (RoleConfigData g r) s = answer (role_config_data app (ca_incoming c) g r s)"
| "handler app pr c (RoleConfigSave g r) s =
     (case ca_payload c of Save b \<Rightarrow> answer (role_config_save app (ca_incoming c) g r b s) | _ \<Rightarrow> bad_body s)"
| "handler app pr c (RoleConfigPreview g r) s = answer (role_config_preview app (ca_incoming c) g r s)"
| "handler app pr c (RoleConfigPreviewEdit g r) s =
     (case ca_payload c of Tree b \<Rightarrow> answer (role_config_preview_edit app (ca_incoming c) g r b s)
      | _ \<Rightarrow> bad_body s)"
| "handler app pr c (SetViewPermission g) s =
     (case ca_payload c of Permission vp \<Rightarrow> answer (set_view_permission app (ca_incoming c) g vp s)
      | _ \<Rightarrow> bad_body s)"
| "handler app pr c (UsersPage g) s = (Static ''users.html'', s)"
| "handler app pr c (UsersData g) s = answer (users_data app (ca_incoming c) g s)"
| "handler app pr c VerifyPage s = (Static ''verify.html'', s)"
| "handler app pr c VerifyStatus s = answer (verify_status app (ca_incoming c) s)"
| "handler app pr c VerifyLogin s = (Redirect (verify_login app), s)"
| "handler app pr c VerifyBsky s =
     (case ca_payload c of
        Pair h p \<Rightarrow>
          (case verify_bsky app (ca_incoming c) (h, p) s of
             (Inr _, s') \<Rightarrow> (Static ''verify_done.html'', s')
           | (Inl e, s') \<Rightarrow> answer (Inl e, s'))
      | _ \<Rightarrow> bad_body s)"
| "handler app pr c VerifyUnlink s = answer (verify_unlink app (ca_incoming c) s)"
| "handler app pr c Favicon s = (Static ''favicon.ico'', s)"
| "handler app pr c DweebStatus s =
     (let p = status (ca_query c ''guild'') (\<lambda>g. Inr (role_count g (fst s)))
      in (Json (pb_status p) (pb_body p), s))"
| "handler app pr c Health s =
     (case health (cr_show_rfc3339 (ap_crates app) (ap_now app)) (pr_database pr) (pr_bluesky pr) of
        (st, j) \<Rightarrow> (Json st j, s))"
| "handler app pr c Ready s = (case ready (pr_draining pr) of (st, j) \<Rightarrow> (Json st j, s))"

definition serve :: "'w app \<Rightarrow> probes \<Rightarrow> http_call \<Rightarrow> db \<times> 'w \<Rightarrow> reply \<times> (db \<times> 'w)" where
  "serve app pr c s =
     (case route (ca_method c) (ca_path c) of
        NoRoute \<Rightarrow> (Refused 404, s)
      | MethodNotAllowed \<Rightarrow> (Refused 405, s)
      | To e \<Rightarrow> handler app pr c e s)"

subsection \<open>\<open>GET\<close> is safe\<close>

fun reads :: "endpoint \<Rightarrow> bool" where
  "reads Register = False" | "reads DeleteConfig = False"
| "reads (BroadcasterConnect _) = False" | "reads (BroadcasterDisconnect _ _) = False"
| "reads (BroadcasterRefresh _ _) = False" | "reads (RoleConfigSave _ _) = False"
| "reads (SetViewPermission _) = False" | "reads VerifyBsky = False" | "reads VerifyUnlink = False"
| "reads _ = True"

lemma lookup_route_To:
  "lookup_route table m path = To e \<Longrightarrow>
   \<exists>pat ms f captures. (pat, ms) \<in> set table \<and> match_path pat path = Some captures \<and>
     map_of ms m = Some f \<and> e = f captures"
proof (induction table m path rule: lookup_route.induct)
  case (2 pat ms rest m path)
  show ?case
  proof (cases "match_path pat path")
    case None
    with 2 show ?thesis by auto
  next
    case (Some captures)
    with 2 show ?thesis by (auto split: option.splits)
  qed
qed simp

lemma table_gets: "(pat, ms) \<in> set route_table \<Longrightarrow> map_of ms GET = Some f \<Longrightarrow> reads (f captures)"
  by (auto simp: route_table_def)

lemma get_reads: "route GET path = To e \<Longrightarrow> reads e"
  by (auto simp: route_def split: list.splits if_splits dest!: lookup_route_To dest: table_gets)

definition untouched :: "('w, 'a) task \<Rightarrow> bool" where
  "untouched m \<longleftrightarrow> (\<forall>d. preserves (\<lambda>s. fst s = d) m)"

lemma untouchedD: "untouched m \<Longrightarrow> fst (snd (m s)) = fst s"
  unfolding untouched_def preserves_def by blast

lemma untouched_reads:
  "untouched (get_config app inc)" "untouched (post_config app inc b)" "untouched (broadcaster_list app inc g)"
  "untouched (role_config_data app inc g r)" "untouched (users_data app inc g)" "untouched (verify_status app inc)"
  unfolding untouched_def get_config_def post_config_def broadcaster_list_def role_config_data_def
    users_data_def verify_status_def Let_def
  by (intro allI preserves_rules)+

lemma untouched_check: "untouched (check_account g a)"
  unfolding untouched_def check_account_def by (intro allI preserves_rules)

lemma untouched_previews:
  "untouched (role_config_preview app inc g r)" "untouched (role_config_preview_edit app inc g r b)"
proof -
  have p: "preserves (\<lambda>s. fst s = d) (preview_count_for app g a t)" for d a t
    by (simp add: preserves_def preview_count_db del: split_paired_All)
  have c: "preserves (\<lambda>s. fst s = d) (check_account g a)" for d a
    using untouched_check unfolding untouched_def by blast
  show "untouched (role_config_preview app inc g r)" "untouched (role_config_preview_edit app inc g r b)"
    unfolding untouched_def role_config_preview_def role_config_preview_edit_def
    by (intro allI preserves_rules p c)+
qed

lemma page_db: "fst (snd (role_config_page app inc g r t s)) = fst s"
  by (auto simp: role_config_page_def dest!: on_world_db split: option.split list.split sum.split prod.split)

lemma answer_state [simp]: "snd (answer x) = snd x"
  by (cases x) (auto simp: answer_def split: sum.split)

lemma bad_body_state [simp]: "snd (bad_body s) = s"
  by (simp add: bad_body_def)

lemma reads_untouched: "reads e \<Longrightarrow> fst (snd (handler app pr c e s)) = fst s"
  by (cases e)
    (auto simp: untouchedD [OF untouched_reads(1)] untouchedD [OF untouched_reads(2)]
      untouchedD [OF untouched_reads(3)] untouchedD [OF untouched_reads(4)]
      untouchedD [OF untouched_reads(5)] untouchedD [OF untouched_reads(6)]
      untouchedD [OF untouched_previews(1)] untouchedD [OF untouched_previews(2)] Let_def case_prod_unfold page_db
      split: payload.split)

lemma get_is_safe: "ca_method c = GET \<Longrightarrow> fst (snd (serve app pr c s)) = fst s"
  unfolding serve_def
  by (cases "route GET (ca_path c)") (simp_all add: reads_untouched [OF get_reads])

subsection \<open>The constraints, whatever happens\<close>

lemma register_full: "keeps_full (register app inc b)"
proof -
  have "full_ok d \<Longrightarrow> full_ok (register_rows now g r t d)" for now g r t d
    using register_rows_ok same_queue_ok [of d "register_rows now g r t d"]
    by (simp add: full_ok_def register_rows_def)
  then show ?thesis unfolding register_def by (intro preserves_rules)
qed

lemma delete_config_full: "keeps_full (delete_config app inc b)"
proof -
  have "full_ok d \<Longrightarrow> full_ok (delete_links P d)" for P d
    using delete_links_ok same_queue_ok [of d "delete_links P d"] by (simp add: full_ok_def delete_links_def)
  then show ?thesis unfolding delete_config_def by (intro preserves_rules)
qed

lemma handler_full:
  assumes ok: "full_ok (fst s)" shows "full_ok (fst (snd (handler app pr c e s)))"
proof (cases "reads e")
  case True
  with ok show ?thesis by (simp add: reads_untouched)
next
  case False
  have link: "full_ok (fst (snd (handler app pr c VerifyBsky s)))"
  proof (cases "ca_payload c")
    case (Pair h p)
    then show ?thesis
      using keeps_fullD [OF link_full [of app "ca_incoming c" "(h, p)"] ok]
      by (simp add: case_prod_unfold split: sum.split)
  qed (use ok in simp_all)
  show ?thesis
    using False ok link
    by (cases e)
      (auto simp: keeps_fullD [OF register_full] keeps_fullD [OF delete_config_full]
        keeps_fullD [OF connect_full] keeps_fullD [OF disconnect_full] keeps_fullD [OF refresh_full]
        keeps_fullD [OF save_full] keeps_fullD [OF set_view_permission_full] keeps_fullD [OF unlink_full]
        split: payload.split simp del: handler.simps(20))
qed

lemma serve_full: "full_ok (fst s) \<Longrightarrow> full_ok (fst (snd (serve app pr c s)))"
  by (simp add: serve_def handler_full split: routed.split)

lemma reconcile_account_full: "opreserves (\<lambda>s. full_ok (fst s)) (reconcile_account app did)"
proof -
  have "opreserves (\<lambda>s. full_ok (fst s)) (refresh_account app did)"
    unfolding opreserves_def using refresh_account_full by blast
  then show ?thesis
    unfolding reconcile_account_def
    by (intro opreserves_then opreserves_attempt)
      (auto simp: enqueue_account_full intro: opreserves_total split: sum.split)
qed

lemma reconcile_pass_full:
  assumes "full_ok (fst s)" "reconcile_pass app s = Some (r, s')" shows "full_ok (fst s')"
  using assms(2) unfolding reconcile_pass_def
  by (rule opreservesD [OF opreserves_each [OF reconcile_account_full] assms(1)])

inductive system_step :: "db \<times> 'w \<Rightarrow> db \<times> 'w \<Rightarrow> bool" where
  request: "serve app pr c s = (reply, s') \<Longrightarrow> system_step s s'"
| work: "worker_pass app worker reap_due skip turn s = Some s' \<Longrightarrow> system_step s s'"
| reconcile: "reconcile_pass app s = Some (r, s') \<Longrightarrow> system_step s s'"
| outside: "system_step (d, w) (d, w')"

lemma fresh_full: "full_ok (empty_db\<lparr>db_lower := low\<rparr>)"
  by (simp add: full_ok_def queue_ok_def) (simp add: empty_db_def)

inductive_cases system_stepE: "system_step s s'"

interpretation program: step_invariant "\<lambda>s. fresh_db (fst s)" system_step "\<lambda>s. full_ok (fst s)"
proof
  fix s :: "db \<times> 'w"
  assume "fresh_db (fst s)"
  then have "fst s = empty_db\<lparr>db_lower := db_lower (fst s)\<rparr>" by (simp only: fresh_db_def)
  then show "full_ok (fst s)" by (rule ssubst) (rule fresh_full)
next
  fix s t :: "db \<times> 'w"
  assume ok: "full_ok (fst s)" and step: "system_step s t"
  from step show "full_ok (fst t)"
  proof (cases rule: system_step.cases)
    case (request app pr c reply)
    with serve_full [OF ok, of app pr c] show ?thesis by simp
  next
    case (work app worker reap_due skip turn)
    then show ?thesis using worker_pass_full [OF ok] by blast
  next
    case (reconcile app r)
    then show ?thesis using reconcile_pass_full [OF ok] by blast
  next
    case (outside d w w')
    with ok show ?thesis by simp
  qed
qed

lemma reachable_full: "reach (\<lambda>s. fresh_db (fst s)) system_step s \<Longrightarrow> full_ok (fst s)"
  by (rule program.reach_inv)

end
