(* ===== verification/Write_Scope.thy ===== *)
theory Write_Scope
  imports Server
begin

section \<open>What a request may write, and on whose authority\<close>

text \<open>
  The permission model of the routes, apart from their code. A \<open>write_scope\<close> says which rows of which
  table may be inserted, updated or deleted and which jobs may be queued; \<open>stays_within\<close> compares two
  databases: outside the scope every table is row for row what it was, and the queue has only grown.
  \<open>granted\<close> gives the scope a request has, endpoint by endpoint, and the credential it rests on.

  \<open>handler_stays_within\<close>: whatever a handler changes is within a scope granted to the request.
\<close>

subsection \<open>Scopes\<close>

record write_scope =
  sc_links :: "role_link \<Rightarrow> bool"
  sc_assignments :: "assignment \<Rightarrow> bool"
  sc_accounts :: "bsky_account \<Rightarrow> bool"
  sc_users :: "bsky_user \<Rightarrow> bool"
  sc_relations :: "account_relation \<Rightarrow> bool"
  sc_members :: "membership \<Rightarrow> bool"
  sc_settings :: "guild_setting \<Rightarrow> bool"
  sc_guild_accounts :: "guild_account \<Rightarrow> bool"
  sc_jobs :: "job \<Rightarrow> bool"

definition no_scope :: write_scope where
  "no_scope = \<lparr>sc_links = \<lambda>_. False, sc_assignments = \<lambda>_. False, sc_accounts = \<lambda>_. False,
     sc_users = \<lambda>_. False, sc_relations = \<lambda>_. False, sc_members = \<lambda>_. False, sc_settings = \<lambda>_. False,
     sc_guild_accounts = \<lambda>_. False, sc_jobs = \<lambda>_. False\<rparr>"

definition only_rows :: "('r \<Rightarrow> bool) \<Rightarrow> 'r list \<Rightarrow> 'r list \<Rightarrow> bool" where
  "only_rows P old new \<longleftrightarrow> filter (\<lambda>r. \<not> P r) new = filter (\<lambda>r. \<not> P r) old"

definition stays_within :: "write_scope \<Rightarrow> db \<Rightarrow> db \<Rightarrow> bool" where
  "stays_within sc d d' \<longleftrightarrow>
     only_rows (sc_links sc) (role_links d) (role_links d') \<and>
     only_rows (sc_assignments sc) (assignments d) (assignments d') \<and>
     only_rows (sc_accounts sc) (accounts d) (accounts d') \<and>
     only_rows (sc_users sc) (users d) (users d') \<and>
     only_rows (sc_relations sc) (relations d) (relations d') \<and>
     only_rows (sc_members sc) (list_members d) (list_members d') \<and>
     only_rows (sc_members sc) (pack_members d) (pack_members d') \<and>
     only_rows (sc_settings sc) (settings d) (settings d') \<and>
     only_rows (sc_guild_accounts sc) (guild_accounts d) (guild_accounts d') \<and>
     bsky_lists d' = bsky_lists d \<and> packs d' = packs d \<and>
     (\<exists>new. jobs d' = jobs d @ new \<and> (\<forall>j \<in> set new. sc_jobs sc j))"

lemma only_refl [simp]: "only_rows P rows rows"
  by (simp add: only_rows_def)

lemma only_trans: "only_rows P a b \<Longrightarrow> only_rows P b c \<Longrightarrow> only_rows P a c"
  by (simp add: only_rows_def)

lemma only_update: "(\<And>r. Q r \<Longrightarrow> P r \<and> P (f r)) \<Longrightarrow> only_rows P rows (update_where Q f rows)"
  by (induction rows) (auto simp: only_rows_def update_where_def)

lemma only_delete: "(\<And>r. Q r \<Longrightarrow> P r) \<Longrightarrow> only_rows P rows (delete_where Q rows)"
  by (induction rows) (auto simp: only_rows_def delete_where_def)

lemma only_upsert:
  assumes "P u" "\<And>r. key r = key u \<Longrightarrow> P r" "\<And>r. key r = key u \<Longrightarrow> P (merge r u)"
  shows "only_rows P rows (upsert key merge u rows)"
proof (cases "key u \<in> key ` set rows")
  case True
  then show ?thesis unfolding upsert_def using assms by (simp add: only_update)
next
  case False
  with assms(1) show ?thesis by (simp add: upsert_def only_rows_def)
qed

lemma stays_refl [simp]: "stays_within sc d d"
  by (simp add: stays_within_def)

lemma stays_trans:
  assumes "stays_within sc a b" "stays_within sc b c" shows "stays_within sc a c"
proof -
  from assms obtain p q where "jobs b = jobs a @ p" "\<forall>j \<in> set p. sc_jobs sc j"
    "jobs c = jobs b @ q" "\<forall>j \<in> set q. sc_jobs sc j" by (auto simp: stays_within_def)
  then have "jobs c = jobs a @ (p @ q) \<and> (\<forall>j \<in> set (p @ q). sc_jobs sc j)" by auto
  then have "\<exists>new. jobs c = jobs a @ new \<and> (\<forall>j \<in> set new. sc_jobs sc j)" by blast
  with assms show ?thesis by (auto simp: stays_within_def only_rows_def)
qed

lemma stays_enqueue:
  "(\<And>i t. sc_jobs sc (new_job i k payload t)) \<Longrightarrow> stays_within sc d (enqueue now k payload n d)"
  by (simp add: stays_within_def enqueue_def)

subsection \<open>The scopes of the endpoints\<close>

definition register_scope :: "string \<Rightarrow> string \<Rightarrow> write_scope" where
  "register_scope g r =
     no_scope\<lparr>sc_links := \<lambda>l. link_key l = (g, r), sc_settings := \<lambda>s. gs_guild s = g\<rparr>"

definition link_scope :: "string \<Rightarrow> string \<Rightarrow> write_scope" where
  "link_scope g r =
     no_scope\<lparr>sc_links := \<lambda>l. link_key l = (g, r), sc_assignments := \<lambda>a. assignment_link a = (g, r)\<rparr>"

definition save_scope :: "string \<Rightarrow> string \<Rightarrow> write_scope" where
  "save_scope g r =
     no_scope\<lparr>sc_links := \<lambda>l. link_key l = (g, r),
       sc_jobs := \<lambda>j. \<exists>i t. j = new_job i ConfigSync (config_payload g r) t\<rparr>"

definition account_scope :: "string \<Rightarrow> string \<Rightarrow> write_scope" where
  "account_scope g did =
     no_scope\<lparr>sc_accounts := \<lambda>a. ba_did a = did, sc_guild_accounts := \<lambda>ga. guild_account_key ga = (g, did),
       sc_jobs := \<lambda>j. \<exists>i t. j = new_job i AccountSync (account_payload did) t\<rparr>"

definition disconnect_scope :: "string \<Rightarrow> string \<Rightarrow> write_scope" where
  "disconnect_scope g did =
     no_scope\<lparr>sc_links := \<lambda>l. rl_guild l = g, sc_guild_accounts := \<lambda>ga. guild_account_key ga = (g, did)\<rparr>"

definition settings_scope :: "string \<Rightarrow> write_scope" where
  "settings_scope g = no_scope\<lparr>sc_settings := \<lambda>s. gs_guild s = g\<rparr>"

definition member_scope :: "string \<Rightarrow> string \<Rightarrow> write_scope" where
  "member_scope user did =
     no_scope\<lparr>sc_users := \<lambda>u. bu_discord_id u = user, sc_relations := \<lambda>r. ar_viewer r = did,
       sc_members := \<lambda>m. mb_did m = did,
       sc_jobs := \<lambda>j. \<exists>i t. j = new_job i PlayerSync (player_payload user) t\<rparr>"

lemmas scope_simps = no_scope_def register_scope_def link_scope_def save_scope_def account_scope_def
  disconnect_scope_def settings_scope_def member_scope_def

text \<open>
  Who is signed in as whom on the member's pages: the gateway's cookie, from an allowed origin.
\<close>

definition signed_in :: "'w app \<Rightarrow> incoming \<Rightarrow> string \<Rightarrow> bool" where
  "signed_in app inc user \<longleftrightarrow>
     verify_origin inc (allowed_origins (ap_config app)) = Inr () \<and> (\<exists>name. read_session app inc = Inr (user, name))"

definition proves_account :: "'w app \<Rightarrow> string \<Rightarrow> http_call \<Rightarrow> string \<Rightarrow> bool" where
  "proves_account app missing c did \<longleftrightarrow>
     (\<exists>h p ident password w w' se. ca_payload c = Pair h p \<and> check_credentials missing (h, p) = Inr (ident, password) \<and>
        create_session app ident password w = (Inr se, w') \<and> ss_did se = did)"

text \<open>
  \<open>Register\<close> is open to whoever sends a token: the first registration of a role brings its secret, and
  a later one replaces it, whoever sends it.
\<close>

fun granted :: "'w app \<Rightarrow> http_call \<Rightarrow> db \<times> 'w \<Rightarrow> endpoint \<Rightarrow> write_scope \<Rightarrow> bool" where
  "granted app c s Register sc =
     (\<exists>token g r. ca_payload c = Pair g r \<and> extract_token (ca_incoming c) = Inr token \<and> sc = register_scope g r)"
| "granted app c s DeleteConfig sc =
     (\<exists>token g r. ca_payload c = Pair g r \<and> extract_token (ca_incoming c) = Inr token \<and>
        (\<exists>l \<in> set (role_links (fst s)). holds_token g r token l) \<and> sc = link_scope g r)"
| "granted app c s (BroadcasterConnect g) sc =
     (admin_of app (ca_incoming c) g (snd s) \<and>
      (\<exists>did. proves_account app ''Both your Bluesky handle and an app password are required.'' c did \<and>
         sc = account_scope g did))"
| "granted app c s (BroadcasterDisconnect g did) sc =
     (admin_of app (ca_incoming c) g (snd s) \<and> sc = disconnect_scope g did)"
| "granted app c s (BroadcasterRefresh g did) sc =
     (admin_of app (ca_incoming c) g (snd s) \<and> account_connected g did (fst s) \<and> sc = account_scope g did)"
| "granted app c s (SetViewPermission g) sc =
     (admin_of app (ca_incoming c) g (snd s) \<and> sc = settings_scope g)"
| "granted app c s (RoleConfigSave g r) sc =
     (editor_of app (ca_incoming c) g r (snd s) \<and> sc = save_scope g r)"
| "granted app c s VerifyBsky sc =
     (\<exists>user did. signed_in app (ca_incoming c) user \<and>
        proves_account app ''Both your handle and an app password are required.'' c did \<and>
        sc = member_scope user did)"
| "granted app c s VerifyUnlink sc =
     (\<exists>user u. signed_in app (ca_incoming c) user \<and> find_row bu_discord_id user (users (fst s)) = Some u \<and>
        sc = member_scope user (bu_did u))"
| "granted app c s _ sc = False"

subsection \<open>The statements\<close>

lemma register_stays: "stays_within (register_scope g r) d (register_rows now g r token d)"
  by (auto simp: stays_within_def register_rows_def scope_simps retoken_def registered_link_def
      link_key_def keep_old_def intro!: only_upsert)

lemma delete_stays: "stays_within (link_scope g r) d (delete_links (holds_token g r token) d)"
  by (auto simp: stays_within_def delete_links_def scope_simps holds_token_def intro!: only_delete)

lemma store_account_stays: "stays_within (account_scope g (ba_did row)) d (store_account now g admin row d)"
  by (auto simp: stays_within_def store_account_def scope_simps reconnect_def keep_old_def
      guild_account_row_def guild_account_key_def intro!: only_upsert)

lemma enqueue_stays:
  "stays_within (account_scope g did) d (enqueue_account_sync now did d)"
  "stays_within (save_scope g r) d (enqueue_config_sync now g r d)"
  "stays_within (member_scope user vd) d (enqueue_player_sync now user d)"
  unfolding enqueue_account_sync_def enqueue_config_sync_def enqueue_player_sync_def
  by (rule stays_enqueue, auto simp: scope_simps)+

lemma disconnect_stays:
  "stays_within (disconnect_scope g did) d (remove_guild_account g did (unbind_links now g did d))"
  by (auto simp: stays_within_def remove_guild_account_def unbind_links_def scope_simps
      intro!: only_delete only_update)

lemma jwt_stays: "stays_within (account_scope g did) (fst s) (fst (snd (valid_access_jwt app did s)))"
  by (auto simp: valid_access_jwt_def store_session_def mark_refresh_failed_def Let_def stays_within_def scope_simps
      intro!: only_update dest!: on_world_db split: option.split sum.split prod.split)

lemma permission_stays: "stays_within (settings_scope g) d (store_permission g vp d)"
  by (auto simp: stays_within_def store_permission_def scope_simps set_permission_def intro!: only_upsert)

lemma save_stays: "stays_within (save_scope g r) d (save_rows now g r v p d)"
  by (auto simp: stays_within_def save_rows_def scope_simps link_key_def intro!: only_update)

lemma unlink_stays: "stays_within (member_scope user did) d (forget_viewer did (remove_viewer user d))"
  by (auto simp: stays_within_def forget_viewer_def remove_viewer_def scope_simps intro!: only_delete)

lemma store_user_stays: "bu_discord_id u = user \<Longrightarrow> stays_within (member_scope user did) d (store_user u d)"
  by (auto simp: stays_within_def store_user_def scope_simps relink_def intro!: only_upsert)

lemma insert_relation_stays: "stays_within (member_scope user did) d (insert_relation now a did d)"
  by (auto simp: stays_within_def insert_relation_def scope_simps keep_old_def relation_key_def
      new_relation_def intro!: only_upsert)

lemma insert_relations_stay:
  "stays_within (member_scope user did) d (foldl (\<lambda>d a. insert_relation now a did d) d as)"
proof (induction as arbitrary: d)
  case (Cons a as)
  from stays_trans [OF insert_relation_stays Cons.IH] show ?case by simp
qed simp

lemma baseline_stays:
  "find_row bu_discord_id user (users d) = Some u \<Longrightarrow>
   stays_within (member_scope user (bu_did u)) d (ensure_baseline_relations now user gs d)"
  by (simp add: ensure_baseline_relations_def insert_relations_stay)

subsection \<open>The handlers\<close>

lemma register_within:
  assumes "fst (snd (register app (ca_incoming c) (g, r) s)) \<noteq> fst s" and "ca_payload c = Pair g r"
  shows "\<exists>sc. granted app c s Register sc \<and>
    stays_within sc (fst s) (fst (snd (register app (ca_incoming c) (g, r) s)))"
proof (cases "extract_token (ca_incoming c)")
  case (Inl e)
  with assms missing_token_refused [OF Inl, of app "(g, r)" s] show ?thesis by simp
next
  case (Inr token)
  with assms(2) show ?thesis
    by (intro exI [of _ "register_scope g r"]) (simp add: register_def io_then_def register_stays)
qed

lemma delete_within:
  assumes "fst (snd (delete_config app (ca_incoming c) (g, r) s)) \<noteq> fst s" and "ca_payload c = Pair g r"
  shows "\<exists>sc. granted app c s DeleteConfig sc \<and>
    stays_within sc (fst s) (fst (snd (delete_config app (ca_incoming c) (g, r) s)))"
proof (cases "extract_token (ca_incoming c)")
  case (Inl e)
  with assms missing_token_refused [OF Inl, of app "(g, r)" s] show ?thesis by simp
next
  case (Inr token)
  with assms wrong_token_reads_nothing(2) [OF Inr, of s g r app]
  have "\<exists>l \<in> set (role_links (fst s)). holds_token g r token l" by (metis snd_conv)
  with Inr assms(2) show ?thesis
    by (intro exI [of _ "link_scope g r"]) (auto simp: delete_config_def io_then_def delete_stays)
qed

lemma connect_within:
  assumes "fst (snd (broadcaster_connect app (ca_incoming c) g (h, p) s)) \<noteq> fst s" and "ca_payload c = Pair h p"
  shows "\<exists>sc. granted app c s (BroadcasterConnect g) sc \<and>
    stays_within sc (fst s) (fst (snd (broadcaster_connect app (ca_incoming c) g (h, p) s)))"
proof -
  obtain x s' where run: "broadcaster_connect app (ca_incoming c) g (h, p) s = (x, s')" by (rule prod.exhaust)
  show ?thesis
  proof (cases x)
    case (Inl e)
    have "fst s' = fst s"
      using run unfolding Inl
      by (auto simp: broadcaster_connect_def admin_gate_def io_then_Inl io_then_Inr dest!: on_world_db split: if_splits)
    with assms run show ?thesis by simp
  next
    case (Inr v)
    from connect_stored [OF run [unfolded Inr]] obtain admin ident password se pr w where
      adm: "admin_of app (ca_incoming c) g (snd s)"
      and cred: "check_credentials ''Both your Bluesky handle and an app password are required.'' (h, p) =
        Inr (ident, password)"
      and sess: "\<exists>w0. create_session app ident password w0 = (Inr se, w)"
      and s': "fst s' = enqueue_account_sync (ap_now app) (ss_did se)
       (store_account (ap_now app) g admin (connected_account app se pr) (fst s))" .
    have "stays_within (account_scope g (ss_did se)) (fst s) (fst s')"
      using stays_trans [OF store_account_stays [of g "connected_account app se pr"] enqueue_stays(1)]
      by (simp add: s')
    moreover have "proves_account app ''Both your Bluesky handle and an app password are required.'' c (ss_did se)"
      unfolding proves_account_def using cred sess assms(2) by blast
    ultimately show ?thesis using adm run by auto
  qed
qed

lemma disconnect_within:
  assumes "fst (snd (broadcaster_disconnect app (ca_incoming c) g did s)) \<noteq> fst s"
  shows "\<exists>sc. granted app c s (BroadcasterDisconnect g did) sc \<and>
    stays_within sc (fst s) (fst (snd (broadcaster_disconnect app (ca_incoming c) g did s)))"
  by (cases rule: admin_gate_cases [of app "ca_incoming c" g s])
    (use assms in \<open>auto simp: broadcaster_disconnect_def io_then_def disconnect_stays\<close>)

lemma refresh_within:
  assumes "fst (snd (broadcaster_refresh app (ca_incoming c) g did s)) \<noteq> fst s"
  shows "\<exists>sc. granted app c s (BroadcasterRefresh g did) sc \<and>
    stays_within sc (fst s) (fst (snd (broadcaster_refresh app (ca_incoming c) g did s)))"
proof (cases rule: admin_gate_cases [of app "ca_incoming c" g s])
  case (refused e s1)
  with assms show ?thesis by (simp add: broadcaster_refresh_def io_then_def)
next
  case (passed d s1)
  show ?thesis
  proof (cases "account_connected g did (fst s)")
    case False
    with assms passed show ?thesis by (simp add: broadcaster_refresh_def io_then_def)
  next
    case True
    obtain x s2 where jwt: "valid_access_jwt app did s1 = (x, s2)" by (rule prod.exhaust)
    have a: "stays_within (account_scope g did) (fst s) (fst s2)"
      using jwt_stays [of g did s1 app] jwt passed(2) by simp
    then have "stays_within (account_scope g did) (fst s) (fst (snd (broadcaster_refresh app (ca_incoming c) g did s)))"
      using True passed jwt stays_trans [OF a enqueue_stays(1)]
      by (cases x) (simp_all add: broadcaster_refresh_def io_then_def)
    with True passed(3) show ?thesis by auto
  qed
qed

lemma permission_within:
  assumes "fst (snd (set_view_permission app (ca_incoming c) g vp s)) \<noteq> fst s"
  shows "\<exists>sc. granted app c s (SetViewPermission g) sc \<and>
    stays_within sc (fst s) (fst (snd (set_view_permission app (ca_incoming c) g vp s)))"
  by (cases rule: admin_gate_cases [of app "ca_incoming c" g s])
    (use assms in \<open>auto simp: set_view_permission_def io_then_def permission_stays\<close>)

lemma save_within:
  assumes "fst (snd (role_config_save app (ca_incoming c) g r b s)) \<noteq> fst s"
  shows "\<exists>sc. granted app c s (RoleConfigSave g r) sc \<and>
    stays_within sc (fst s) (fst (snd (role_config_save app (ca_incoming c) g r b s)))"
proof -
  obtain x s' where run: "role_config_save app (ca_incoming c) g r b s = (x, s')" by (rule prod.exhaust)
  then show ?thesis
  proof (cases rule: save_cases)
    case (refused e)
    with assms run show ?thesis by simp
  next
    case (saved p link)
    with run stays_trans [OF save_stays enqueue_stays(2)] show ?thesis by auto
  qed
qed

lemma unlink_within:
  assumes "fst (snd (verify_unlink app (ca_incoming c) s)) \<noteq> fst s"
  shows "\<exists>sc. granted app c s VerifyUnlink sc \<and>
    stays_within sc (fst s) (fst (snd (verify_unlink app (ca_incoming c) s)))"
proof -
  obtain x s' where run: "verify_unlink app (ca_incoming c) s = (x, s')" by (rule prod.exhaust)
  show ?thesis
  proof (cases x)
    case (Inl e)
    with run assms show ?thesis by (auto simp: verify_unlink_def io_then_Inl io_then_Inr split: option.splits)
  next
    case (Inr j)
    from unlink_effect [OF run [unfolded Inr]] obtain user name u where
      "verify_origin (ca_incoming c) (allowed_origins (ap_config app)) = Inr ()"
      "read_session app (ca_incoming c) = Inr (user, name)"
      "find_row bu_discord_id user (users (fst s)) = Some u"
      "fst s' = enqueue_player_sync (ap_now app) user (forget_viewer (bu_did u) (remove_viewer user (fst s)))" .
    with run stays_trans [OF unlink_stays enqueue_stays(3)] show ?thesis
      by (auto simp: signed_in_def)
  qed
qed

lemma seed_within:
  assumes "find_row bu_discord_id user (users (fst st)) = Some u"
  shows "stays_within (member_scope user (bu_did u)) (fst st) (fst (snd (seed_relations app user st)))"
  using baseline_stays [OF assms]
  by (auto simp: seed_relations_def dest!: on_world_db split: sum.split prod.split)

lemma link_within:
  assumes "fst (snd (verify_bsky app (ca_incoming c) (h, p) s)) \<noteq> fst s" and "ca_payload c = Pair h p"
  shows "\<exists>sc. granted app c s VerifyBsky sc \<and>
    stays_within sc (fst s) (fst (snd (verify_bsky app (ca_incoming c) (h, p) s)))"
proof -
  let ?missing = "''Both your handle and an app password are required.''"
  obtain x s' where run: "verify_bsky app (ca_incoming c) (h, p) s = (x, s')" by (rule prod.exhaust)
  show ?thesis
  proof (cases x)
    case (Inl e)
    have "fst s' = fst s"
      using run unfolding Inl
      by (auto simp: verify_bsky_def upsert_user_def io_then_Inl dest!: on_world_db seed_keeps split: if_splits)
    with assms run show ?thesis by simp
  next
    case (Inr se0)
    from run obtain user name ident password se s1 pr s2 s3 where
      o: "verify_origin (ca_incoming c) (allowed_origins (ap_config app)) = Inr ()"
      and r: "read_session app (ca_incoming c) = Inr (user, name)"
      and cr: "check_credentials ?missing (h, p) = Inr (ident, password)"
      and se: "on_world (create_session app ident password) s = (Inr se, s1)"
      and pr: "on_world (fetch_profile app se) s1 = (Inr pr, s2)"
      and seed: "seed_relations app user (store_user (linked_user app user name se pr) (fst s2), snd s2) = (Inr (), s3)"
      and s': "fst s' = enqueue_player_sync (ap_now app) user (fst s3)"
      unfolding Inr by (auto simp: verify_bsky_def upsert_user_def io_then_Inr split: if_splits)
    let ?u = "linked_user app user name se pr" and ?sc = "member_scope user (ss_did se)"
    have s2: "fst s2 = fst s" using on_world_db [OF se] on_world_db [OF pr] by simp
    have key: "bu_discord_id ?u = user" "bu_did ?u = ss_did se" by (simp_all add: linked_user_def)
    obtain u' where u': "find_row bu_discord_id user (users (store_user ?u (fst s))) = Some u'" "bu_did u' = ss_did se"
      using user_links.find_upsert [of user ?u "users (fst s)"] key
      by (cases "find_row bu_discord_id user (users (fst s))") (simp_all add: store_user_def)
    from seed_within [of user "(store_user ?u (fst s2), snd s2)" u' app] u' seed s2
    have "stays_within ?sc (store_user ?u (fst s)) (fst s3)" by simp
    with store_user_stays [OF key(1)] have "stays_within ?sc (fst s) (fst s3)" by (rule stays_trans)
    from stays_trans [OF this enqueue_stays(3)] have within: "stays_within ?sc (fst s) (fst s')" by (simp add: s')
    from se obtain w where w: "create_session app ident password (snd s) = (Inr se, w)"
      by (auto simp: on_world_def split: prod.splits)
    have "proves_account app ?missing c (ss_did se)"
      unfolding proves_account_def using w cr assms(2) by blast
    moreover have "signed_in app (ca_incoming c) user" using o r by (auto simp: signed_in_def)
    ultimately show ?thesis using within run by auto
  qed
qed

lemma handler_stays_within:
  assumes "fst (snd (handler app pr c e s)) \<noteq> fst s"
  shows "\<exists>sc. granted app c s e sc \<and> stays_within sc (fst s) (fst (snd (handler app pr c e s)))"
proof -
  have "\<not> reads e" using assms reads_untouched by blast
  moreover have verify: "fst (snd (handler app pr c VerifyBsky s)) =
      (case ca_payload c of Pair h p \<Rightarrow> fst (snd (verify_bsky app (ca_incoming c) (h, p) s)) | _ \<Rightarrow> fst s)"
    by (simp add: case_prod_unfold split: payload.split sum.split)
  ultimately show ?thesis
    using assms
    by (cases e)
      (simp_all add: register_within delete_within connect_within disconnect_within refresh_within
        permission_within save_within unlink_within link_within
        del: granted.simps handler.simps(20) split: payload.splits)
qed

end
