(* ===== verification/Access_Properties.thy ===== *)
theory Access_Properties
  imports Samples Write_Scope
begin

section \<open>Properties of access control\<close>

text \<open>
  Who may change what, over the whole router, and what the editor's sessions are worth. The sample
  requests at the head serve the witnesses.
\<close>

definition sample_token :: "bool \<Rightarrow> string" where
  "sample_token ro = mint_iframe_session plain_crates 1000 ''7'' ''g'' ''r'' ro ''secret''"

definition sample_bearer :: "bool \<Rightarrow> incoming" where
  "sample_bearer ro =
     \<lparr>in_header = (\<lambda>k. if k = ''authorization'' then Some (''Bearer '' @ sample_token ro) else None),
      in_cookie = None\<rparr>"

definition sample_session :: "bool \<Rightarrow> iframe_session" where
  "sample_session ro = \<lparr>if_discord_id = ''7'', if_guild = ''g'', if_role = ''r'', if_read_only = ro\<rparr>"

lemma bearer_for_any:
  assumes mac: "\<And>m. cr_hmac_hex cr ''secret'' m = cr_hmac_hex plain_crates ''secret'' m"
  shows "bearer_for (sample_app send cr) (sample_bearer ro) (sample_session ro)"
proof -
  have "sample_token ro = mint_iframe_session cr 1000 ''7'' ''g'' ''r'' ro ''secret''"
    by (simp add: sample_token_def mint_iframe_session_def mac)
  then have "verify_iframe_session cr 1000 (sample_token ro) ''secret'' = Some (sample_session ro)"
    by (simp add: sample_session_def mint_iframe_accepted in_i64_def i64_min_def i64_max_def iframe_ttl_secs_def)
  then show ?thesis
    by (simp add: bearer_for_def extract_bearer_def sample_bearer_def now_secs_def session_key_def
        sample_config_def)
qed

lemma sample_bearer_for: "bearer_for (sample_app send plain_crates) (sample_bearer ro) (sample_session ro)"
  by (rule bearer_for_any) simp

definition bare_request :: "(string \<times> string) list \<Rightarrow> incoming" where
  "bare_request hs = \<lparr>in_header = map_of hs, in_cookie = None\<rparr>"

lemma sample_origins:
  "allowed_origins sample_config = [''https://b.example'', ''https://dash.example'']"
  "trim_end_matches (CHR ''/'') ''https://b.example'' = ''https://b.example''"
  "trim_end_matches (CHR ''/'') ''https://dash.example'' = ''https://dash.example''"
proof -
  have "derive_origin ''https://b.example/p'' = ''https://b.example''" by code_simp
  then show "allowed_origins sample_config = [''https://b.example'', ''https://dash.example'']"
    by (simp add: allowed_origins_def sample_config_def)
  show "trim_end_matches (CHR ''/'') ''https://b.example'' = ''https://b.example''"
    "trim_end_matches (CHR ''/'') ''https://dash.example'' = ''https://dash.example''" by code_simp+
qed

definition no_probes :: probes where
  "no_probes = \<lparr>pr_database = (True, 0), pr_bluesky = JNull, pr_draining = False\<rparr>"

definition call_of :: "http_method \<Rightarrow> string list \<Rightarrow> incoming \<Rightarrow> payload \<Rightarrow> http_call" where
  "call_of m path inc body =
     \<lparr>ca_method = m, ca_path = mount # path, ca_query = (\<lambda>_. None), ca_incoming = inc, ca_payload = body\<rparr>"

subsection \<open>Writes\<close>

text \<open>
  C2: every change to the database by a request stays within what its sender was entitled to, row by
  row. A deletion carries the link's own token and takes that link and its assignments; an admin's
  write comes from a session of that very server or a cookie whose holder the gateway calls a manager,
  sent from an allowed origin, and touches rows of that server (and the account whose app password was
  in the body, or that is connected to the server); the editor writes one link with a writable session
  of that very role; linking and unlinking touch the signed-in member's row and what is recorded about
  the account proved with an app password, or the one that was linked, and no other member's. No other
  endpoint writes. Registration alone is open: whoever sends a token writes that link, and the token
  becomes its secret, also when the link had another.
\<close>

theorem every_write_is_authorised:
  assumes "fst (snd (serve app pr c s)) \<noteq> fst s"
  shows "\<exists>e sc. route (ca_method c) (ca_path c) = To e \<and> granted app c s e sc \<and>
    stays_within sc (fst s) (fst (snd (serve app pr c s)))"
proof (cases "route (ca_method c) (ca_path c)")
  case (To e)
  with assms have "fst (snd (handler app pr c e s)) \<noteq> fst s" by (simp add: serve_def)
  from handler_stays_within [OF this] To show ?thesis by (simp add: serve_def)
qed (use assms in \<open>simp_all add: serve_def\<close>)

definition other_user :: bsky_user where
  "other_user = sample_user\<lparr>bu_discord_id := ''2'', bu_did := ''did:v''\<rparr>"

definition two_users_db :: db where
  "two_users_db = sample_db\<lparr>users := [sample_user, other_user],
     relations := [sample_relation, sample_relation\<lparr>ar_viewer := ''did:v''\<rparr>]\<rparr>"

definition own_cookie :: incoming where
  "own_cookie = \<lparr>in_header = map_of [(''origin'', ''https://b.example'')],
     in_cookie = Some (mint_session plain_crates ''1'' ''n'' 2000 ''secret'')\<rparr>"

lemma own_session: "read_session (sample_app send plain_crates) own_cookie = Inr (''1'', ''n'')"
proof -
  have "verify_session plain_crates 1000 (mint_session plain_crates ''1'' ''n'' 2000 ''secret'') ''secret'' =
      Some (''1'', ''n'')"
    by (rule mint_session_accepted) (simp_all add: plain_crates_def in_i64_def i64_min_def i64_max_def)
  then show ?thesis
    by (simp add: read_session_def own_cookie_def now_secs_def session_key_def sample_config_def ok_or_def)
qed

lemma own_origin: "verify_origin own_cookie (allowed_origins (ap_config (sample_app send plain_crates))) = Inr ()"
  using sample_origins by (simp add: verify_origin_def own_cookie_def)

definition unlink_call :: http_call where
  "unlink_call = call_of POST [''verify'', ''unlink''] own_cookie NoBody"

lemma unlink_call_route: "route (ca_method unlink_call) (ca_path unlink_call) = To VerifyUnlink"
  by (simp add: unlink_call_def call_of_def route_def route_table_def)

lemma every_write_is_authorised_witness:
  "\<exists>d. fst (snd (serve (sample_app down plain_crates :: unit app) no_probes unlink_call (two_users_db, ()))) = d \<and>
     find_row bu_discord_id ''1'' (users d) = None \<and> only_rows (\<lambda>u. bu_discord_id u = ''1'') (users two_users_db) (users d) \<and>
     only_rows (\<lambda>r. ar_viewer r = ''did:u'') (relations two_users_db) (relations d) \<and>
     role_links d = role_links two_users_db"
proof -
  let ?app = "sample_app down plain_crates :: unit app" and ?s = "(two_users_db, ())"
  have row: "find_row bu_discord_id ''1'' (users (fst ?s)) = Some sample_user"
    by (simp add: two_users_db_def find_row_def sample_user_def)
  have did: "bu_did sample_user = ''did:u''" by (simp add: sample_user_def)
  have run: "verify_unlink ?app own_cookie ?s = (Inr success_json,
      (enqueue_player_sync (ap_now ?app) ''1'' (forget_viewer ''did:u'' (remove_viewer ''1'' two_users_db)), ()))"
    using row by (simp add: verify_unlink_def io_then_def own_session own_origin did del: sample_app_select)
  have served: "snd (serve ?app no_probes unlink_call ?s) = snd (verify_unlink ?app own_cookie ?s)"
    unfolding serve_def unlink_call_route by (simp add: unlink_call_def call_of_def)
  have gone: "find_row bu_discord_id ''1'' (users (fst (snd (serve ?app no_probes unlink_call ?s)))) = None"
    unfolding served run using forgotten [OF refl] by simp
  with row have "fst (snd (serve ?app no_probes unlink_call ?s)) \<noteq> fst ?s" by auto
  from every_write_is_authorised [OF this] obtain sc where
    g: "granted ?app unlink_call ?s VerifyUnlink sc"
    and w: "stays_within sc (fst ?s) (fst (snd (serve ?app no_probes unlink_call ?s)))"
    by (auto simp: unlink_call_route)
  from g row have "sc = member_scope ''1'' ''did:u''"
    by (auto simp: signed_in_def unlink_call_def call_of_def own_session did)
  with w gone show ?thesis
    by (auto simp: stays_within_def scope_simps only_rows_def)
qed

definition register_call :: http_call where
  "register_call = call_of POST [''register''] (bare_request [(''authorization'', ''Token new'')]) (Pair ''g2'' ''r2'')"

lemma register_call_token: "extract_token (ca_incoming register_call) = Inr ''new''"
  by (simp add: register_call_def call_of_def bare_request_def extract_token_def and_then_def ok_or_def)

lemma register_call_route: "route (ca_method register_call) (ca_path register_call) = To Register"
  by (simp add: register_call_def call_of_def route_def route_table_def)

lemma register_call_changes:
  fixes app :: "unit app"
  shows "role_links (fst (snd (serve app pr register_call (sample_db, ())))) \<noteq> role_links sample_db"
proof -
  let ?d = "register_rows (ap_now app) ''g2'' ''r2'' ''new'' sample_db"
  have "fst (snd (serve app pr register_call (sample_db, ()))) = ?d"
    using register_call_token
    by (simp add: serve_def register_call_route)
      (simp add: register_call_def call_of_def register_def io_then_def)
  moreover have "find_link ''g2'' ''r2'' ?d \<noteq> None"
    by (simp add: register_lookup split: option.split)
  moreover have "find_link ''g2'' ''r2'' sample_db = None"
    by (simp add: find_link_def find_row_def link_key_def sample_link_def)
  ultimately show ?thesis by (auto simp: find_link_def)
qed

text \<open>
  No \<open>GET\<close> request changes the database, whatever its path, headers and cookies: the origin check
  is needed on the other methods only.
\<close>

theorem get_requests_write_nothing:
  assumes "ca_method c = GET" shows "fst (snd (serve app pr c s)) = fst s"
  using assms by (rule get_is_safe)

lemma get_requests_write_nothing_witness:
  "fst (snd (serve (sample_app down plain_crates :: unit app) no_probes
      (call_of GET [''admin'', ''g'', ''role'', ''r'', ''preview''] (sample_bearer False) NoBody)
      (sample_db, ()))) = sample_db"
  using get_requests_write_nothing [of "call_of GET [''admin'', ''g'', ''role'', ''r'', ''preview'']
      (sample_bearer False) NoBody" "sample_app down plain_crates" no_probes "(sample_db, ())"]
  by (simp add: call_of_def)










subsection \<open>The editor's session\<close>

lemma entry_error: "verify_iframe_entry app g r t d = Inl p \<Longrightarrow> \<exists>m. p = InlineError m"
  by (auto simp: verify_iframe_entry_def inline_error_def split: option.splits sum.splits if_splits)

text \<open>
  C8: the editor opens by a dashboard token only if RoleLogic signed it with the token of this very
  role link: the tag is right, the claims name this server, this role and this plugin, they have not
  expired (but for a minute of skew), and the page gets a session minted for the claimed user with the
  claimed read-only flag.
\<close>

theorem dashboard_entry_is_signed:
  assumes "role_config_page app inc g r (Some (x # xs)) s = (RoleConfigPage g' r' token ro, s')"
  shows "\<exists>link h p sig c.
    find_link g r (fst s) = Some link \<and> x # xs = h @ CHR ''.'' # p @ CHR ''.'' # sig \<and>
    cr_b64_decode (ap_crates app) sig = Some (cr_hmac (ap_crates app) (rl_token link) (h @ CHR ''.'' # p)) \<and>
    jwt_claims_of (ap_crates app) p = Some c \<and> cl_iss c = ''rolelogic'' \<and> cl_guild c = g \<and> cl_role c = r \<and>
    aud_matches (cl_aud c) (base_url (ap_config app)) \<and> now_secs app \<le> i64_add (cl_exp c) allowed_skew_secs \<and>
    ro = cl_read_only c \<and> (g', r') = (g, r) \<and> s' = s \<and>
    token = mint_iframe_session (ap_crates app) (now_secs app) (cl_sub c) g r ro (session_key app)"
proof -
  from assms have e: "verify_iframe_entry app g r (x # xs) (fst s) = Inr (token, ro)"
    and same: "(g', r') = (g, r)" "s' = s"
    by (auto simp: role_config_page_def dest: entry_error split: sum.splits)
  from entry_ok [OF e] obtain link v where l: "find_link g r (fst s) = Some link"
    and v: "verify (ap_crates app) (now_secs app) (x # xs) (rl_token link) (base_url (ap_config app)) = Inr v"
    "v_guild v = g" "v_role v = r" "v_read_only v = ro"
    and t: "token = mint_iframe_session (ap_crates app) (now_secs app) (v_discord_id v) g r ro (session_key app)"
    by blast
  from verify_claims [OF v(1)] obtain h p sig c where
    "x # xs = h @ CHR ''.'' # p @ CHR ''.'' # sig"
    "cr_b64_decode (ap_crates app) sig = Some (cr_hmac (ap_crates app) (rl_token link) (h @ CHR ''.'' # p))"
    "jwt_claims_of (ap_crates app) p = Some c" "cl_iss c = ''rolelogic''"
    "aud_matches (cl_aud c) (base_url (ap_config app))" "now_secs app \<le> i64_add (cl_exp c) allowed_skew_secs"
    "v = \<lparr>v_discord_id = cl_sub c, v_guild = cl_guild c, v_role = cl_role c,
          v_read_only = cl_read_only c, v_actor = cl_act c\<rparr>"
    by metis
  with l v(2-4) t same show ?thesis by auto
qed

definition jwt_crates :: crates where
  "jwt_crates = plain_crates\<lparr>cr_json := (\<lambda>s. Inr (if s = ''h'' then JObj [(''alg'', JStr ''HS256'')]
     else JObj [(''iss'', JStr ''rolelogic''), (''aud'', JStr ''https://b.example/p''), (''sub'', JStr ''7''),
       (''guild_id'', JStr ''g''), (''role_id'', JStr ''r''), (''exp'', JNum (PosInt 2000)),
       (''read_only'', JBool True)]))\<rparr>"

lemma jwt_entry:
  "verify_iframe_entry (sample_app down jwt_crates :: unit app) ''g'' ''r'' ''h.p.tokh.p'' sample_db =
     Inr (mint_iframe_session jwt_crates 1000 ''7'' ''g'' ''r'' True ''secret'', True)"
proof -
  have parts: "splitn 3 (CHR ''.'') ''h.p.tokh.p'' = [''h'', ''p'', ''tokh.p'']" by code_simp
  have link: "find_link ''g'' ''r'' sample_db = Some sample_link"
    by (simp add: find_link_def find_row_def link_key_def sample_link_def)
  have tok: "rl_token sample_link = ''tok''" by (simp add: sample_link_def)
  have exp: "i64_add 2000 allowed_skew_secs = 2060" by code_simp
  have i64: "num_as_i64 (PosInt 2000) = Some 2000" by code_simp
  have header: "decode_header (JObj [(''alg'', JStr ''HS256'')]) = Some \<lparr>h_alg = ''HS256'', h_typ = None\<rparr>"
    by (simp add: decode_header_def req_def opt_field_def dflt_def)
  have claims: "decode_claims (JObj [(''iss'', JStr ''rolelogic''), (''aud'', JStr ''https://b.example/p''),
       (''sub'', JStr ''7''), (''guild_id'', JStr ''g''), (''role_id'', JStr ''r''), (''exp'', JNum (PosInt 2000)),
       (''read_only'', JBool True)]) = Some \<lparr>cl_iss = ''rolelogic'', cl_aud = ''https://b.example/p'',
       cl_sub = ''7'', cl_guild = ''g'', cl_role = ''r'', cl_exp = 2000, cl_read_only = True, cl_act = None\<rparr>"
    by (simp add: decode_claims_def req_def opt_field_def dflt_def i64 del: num_as_i64.simps)
  have "verify jwt_crates 1000 ''h.p.tokh.p'' ''tok'' ''https://b.example/p'' = Inr \<lparr>v_discord_id = ''7'',
      v_guild = ''g'', v_role = ''r'', v_read_only = True, v_actor = None\<rparr>"
    by (simp add: verify_def parts from_slice_def parse_as_def header claims exp and_then_def ok_or_def
        aud_matches_def jwt_crates_def plain_crates_def guard_def)
  then show ?thesis
    by (simp add: verify_iframe_entry_def link tok now_secs_def sample_config_def session_key_def)
qed

lemma dashboard_entry_is_signed_witness:
  "\<exists>link h p sig c.
    find_link ''g'' ''r'' sample_db = Some link \<and> ''h.p.tokh.p'' = h @ CHR ''.'' # p @ CHR ''.'' # sig \<and>
    cr_b64_decode jwt_crates sig = Some (cr_hmac jwt_crates (rl_token link) (h @ CHR ''.'' # p)) \<and>
    jwt_claims_of jwt_crates p = Some c \<and> cl_guild c = ''g'' \<and> cl_role c = ''r'' \<and> cl_read_only c"
proof -
  have "role_config_page (sample_app down jwt_crates :: unit app) (bare_request []) ''g'' ''r''
      (Some ''h.p.tokh.p'') (sample_db, ()) =
    (RoleConfigPage ''g'' ''r'' (mint_iframe_session jwt_crates 1000 ''7'' ''g'' ''r'' True ''secret'') True,
     (sample_db, ()))"
    using jwt_entry by (simp add: role_config_page_def)
  from dashboard_entry_is_signed [OF this]
  show ?thesis unfolding fst_conv sample_app_select by blast
qed

text \<open>
  C20: a developer impersonating a user cannot save: with a read-only session every attempt at the
  role's configuration is refused, whatever the body, and neither the database nor the outside world
  notices.
\<close>

theorem impersonation_cannot_save:
  assumes "bearer_for app inc se" and "if_read_only se"
  shows "\<exists>m. role_config_save app inc g r body s = (Inl (Forbidden m), s)"
proof -
  from assms(1) obtain b where b: "extract_bearer inc = Some b" "bearer_session app b = Inr se"
    by (auto simp: bearer_for_def bearer_session_def ok_or_Inr_iff)
  have csrf: "csrf_unless_bearer app inc = Inr ()" using b by (simp add: csrf_unless_bearer_def)
  show ?thesis
    using b assms(2) by (cases s) (simp add: role_config_save_def csrf require_role_config_access_def on_world_def io_then_def)
qed

lemma impersonation_cannot_save_witness:
  "\<exists>m. role_config_save (sample_app down plain_crates :: unit app) (sample_bearer True) ''g'' ''r''
     \<lparr>sv_version = 1, sv_tree = \<lparr>b_account = None, b_grant = True, b_groups = []\<rparr>\<rparr> (sample_db, ()) = (Inl (Forbidden m), (sample_db, ()))"
  by (rule impersonation_cannot_save [OF sample_bearer_for]) (simp add: sample_session_def)

text \<open>
  C39: the server-wide settings are not covered by that contract. The gate of the account and permission
  routes forgets the read-only flag, so the same session changes who may read the list of members.
\<close>

theorem impersonation_changes_settings:
  assumes "bearer_for app inc se" and "if_read_only se" and "vp \<in> set view_permissions"
  shows "snd (set_view_permission app inc (if_guild se) vp s) = (store_permission (if_guild se) vp (fst s), snd s)"
proof -
  from assms(1) have "extract_bearer inc \<noteq> None" by (rule bearer_for_Some)
  then have "admin_gate app inc (if_guild se) s = (Inr (if_discord_id se), s)"
    using guild_admin_read_only [OF assms(1) refl]
    by (cases s; cases "extract_bearer inc") (simp_all add: admin_gate_def csrf_unless_bearer_def on_world_def)
  with assms(3) show ?thesis by (simp add: set_view_permission_def)
qed

lemma impersonation_changes_settings_witness:
  "view_permission_of ''g'' (fst (snd (set_view_permission (sample_app down plain_crates :: unit app)
     (sample_bearer True) ''g'' ''members'' (sample_db, ())))) = ''members''"
  using impersonation_changes_settings [OF sample_bearer_for [of down True], of "''members''" "(sample_db, ())"]
  by (simp add: sample_session_def view_permissions_def permission_lookup)

text \<open>
  An editor session is worth exactly one hour: what was minted is accepted, with the user, server,
  role and flag it was minted for, until 3600 seconds later and never after, whatever the MAC.
\<close>

theorem session_token_lifetime:
  assumes "colon \<notin> set did" and "colon \<notin> set g" and "colon \<notin> set r" and "in_i64 (now + iframe_ttl_secs)"
  shows "verify_iframe_session cr later (mint_iframe_session cr now did g r ro secret) secret =
    (if later \<le> now + 3600
     then Some \<lparr>if_discord_id = did, if_guild = g, if_role = r, if_read_only = ro\<rparr> else None)"
  using mint_iframe_accepted [OF assms(1-4), of later cr ro secret]
    iframe_expired [OF assms(1-4), of later cr ro secret]
  by (simp add: iframe_ttl_secs_def)

lemma session_token_lifetime_witness:
  "verify_iframe_session plain_crates 4600 (mint_iframe_session plain_crates 1000 ''7'' ''g'' ''r'' True ''k'') ''k''
     = Some \<lparr>if_discord_id = ''7'', if_guild = ''g'', if_role = ''r'', if_read_only = True\<rparr> \<and>
   verify_iframe_session plain_crates 4601 (mint_iframe_session plain_crates 1000 ''7'' ''g'' ''r'' True ''k'') ''k''
     = None"
  using session_token_lifetime [of "''7''" "''g''" "''r''" 1000 plain_crates _ True "''k''"]
  by (simp add: in_i64_def i64_min_def i64_max_def iframe_ttl_secs_def)

text \<open>
  C16: editor sessions cannot be made up. If the only tags a caller can present are those of payloads
  the plugin issued, an accepted session carries the claims of an issued payload: neither a stretched
  expiry nor another role, nor the gateway's cookie under the same key.
\<close>

theorem session_tokens_are_issued:
  assumes "verify_iframe_session cr now t secret = Some c"
    and "\<And>p. iframe_split t = Some (p, cr_hmac_hex cr secret p) \<Longrightarrow> p \<in> issued"
  shows "\<exists>p \<in> issued. iframe_claims p = Some c \<and> cookie_claims cr p = None"
proof -
  from iframe.accepted_was_issued [OF assms] obtain p where p: "p \<in> issued" "iframe_claims p = Some c" by blast
  moreover from p have "cookie_claims cr p = None" using domains.domains_disjoint [of p cr] by simp
  ultimately show ?thesis by blast
qed

lemma session_tokens_are_issued_witness:
  "\<exists>p \<in> {p. iframe_split (sample_token True) = Some (p, cr_hmac_hex plain_crates ''secret'' p)}.
     iframe_claims p = Some (sample_session True) \<and> cookie_claims plain_crates p = None"
proof (rule session_tokens_are_issued)
  show "verify_iframe_session plain_crates 1000 (sample_token True) ''secret'' = Some (sample_session True)"
    unfolding sample_token_def sample_session_def
    by (rule mint_iframe_accepted) (simp_all add: in_i64_def i64_min_def i64_max_def iframe_ttl_secs_def)
qed simp

subsection \<open>Pages\<close>

text \<open>
  The public page of a server's members puts the path segment into its script as it came. The page
  needs no login, so a link whose last segment closes the string runs the sender's code in the
  plugin's origin. The line is the template's.
\<close>

definition users_script :: string where
  "users_script = ''const BASE_URL='' @ CHR 0x22 # ''{{BASE_URL}}'' @ CHR 0x22 # '', GUILD_ID='' @ CHR 0x22
     # ''{{GUILD_ID}}'' @ CHR 0x22 # '';''"

theorem path_segment_reaches_the_script:
  "users_html users_script (sample_app down plain_crates :: unit app) (CHR 0x22 # '';alert(1)//'') =
     ''const BASE_URL='' @ CHR 0x22 # ''https://b.example/p'' @ CHR 0x22 # '', GUILD_ID='' @ CHR 0x22
     # CHR 0x22 # '';alert(1)//'' @ CHR 0x22 # '';''"
proof -
  let ?pre = "''const BASE_URL='' @ [CHR 0x22]"
  let ?mid = "CHR 0x22 # '', GUILD_ID='' @ [CHR 0x22]"
  let ?post = "CHR 0x22 # '';''"
  let ?b = "''{{BASE_URL}}''" and ?g = "''{{GUILD_ID}}''"
  have script: "users_script = ?pre @ ?b @ ?mid @ ?g @ ?post" by (simp add: users_script_def)
  have skip: "replace_all (CHR ''{'' # pat) rep (s @ t) = s @ replace_all (CHR ''{'' # pat) rep t"
    if "CHR ''{'' \<notin> set s" for pat rep s t using replace_all_skip [OF that] .
  have base: "replace_all ?b rep (?pre @ ?b @ ?mid @ ?g @ ?post) = ?pre @ rep @ ?mid @ ?g @ ?post" for rep
  proof -
    have "replace_all ?b rep (?g @ ?post) = ?g @ ?post"
      by (subst replace_all.simps, simp, subst replace_all.simps, simp) (simp add: replace_all_absent)
    then have "replace_all ?b rep (?mid @ ?g @ ?post) = ?mid @ ?g @ ?post" by (subst skip) simp_all
    then have "replace_all ?b rep (?b @ ?mid @ ?g @ ?post) = rep @ ?mid @ ?g @ ?post"
      by (subst replace_all_step) simp_all
    then show ?thesis by (subst skip) simp_all
  qed
  have guild: "replace_all ?g rep ((?pre @ b @ ?mid) @ ?g @ ?post) = (?pre @ b @ ?mid) @ rep @ ?post"
    if "CHR ''{'' \<notin> set b" for rep b
  proof -
    have "replace_all ?g rep (?g @ ?post) = rep @ ?post"
      by (subst replace_all_step) (simp_all add: replace_all_absent)
    then show ?thesis using that by (subst skip) simp_all
  qed
  have "users_html users_script (sample_app down plain_crates :: unit app) g =
      replace_all ?g g (replace_all ?b ''https://b.example/p'' users_script)" for g
    by (simp add: users_html_def fill_def sample_config_def)
  moreover have "replace_all ?g g (replace_all ?b ''https://b.example/p'' users_script) =
      (?pre @ ''https://b.example/p'' @ ?mid) @ g @ ?post" for g
    unfolding script base using guild [of "''https://b.example/p''" g] by simp
  ultimately show ?thesis by simp
qed

end
