(* ===== verification/Account_Properties.thy ===== *)
theory Account_Properties
  imports Access_Properties
begin

section \<open>Properties of accounts and of what is told about them\<close>

text \<open>
  The tokens kept at rest, connecting and disconnecting accounts, linking members, and what a client
  may read. \<open>open_world\<close> is an outside world that answers every call with one JSON object that all
  the decoders accept.
\<close>

definition world_json :: json where
  "world_json = JObj [(''accessJwt'', JStr ''aj''), (''refreshJwt'', JStr ''rj''), (''did'', JStr ''did:n''),
     (''handle'', JStr ''n.example''), (''guild_ids'', JArr [JStr ''g'']), (''discord_ids'', JArr [JStr ''1'']),
     (''guild_name'', JNull), (''is_member'', JBool True), (''is_manager'', JBool True)]"

definition world_crates :: crates where
  "world_crates = plain_crates\<lparr>cr_json := (\<lambda>s. Inr world_json)\<rparr>"

definition open_world :: "unit app" where
  "open_world = sample_app (answers 200 []) world_crates"

definition world_session :: session_resp where
  "world_session = \<lparr>ss_access_jwt = ''aj'', ss_refresh_jwt = ''rj'', ss_did = ''did:n'', ss_handle = ''n.example''\<rparr>"

definition world_profile :: profile where
  "world_profile = \<lparr>pr_did = ''did:n'', pr_handle = ''n.example'', pr_display_name = None,
     pr_description = None, pr_avatar = None, pr_banner = None, pr_followers_count = 0,
     pr_follows_count = 0, pr_posts_count = 0, pr_created_at = None\<rparr>"

lemma world_send: "ap_send open_world rq w = (Inr \<lparr>rs_status = 200, rs_body = []\<rparr>, w)"
  by (simp add: open_world_def answers_def)

lemma world_body: "json_body open_world dec err r = (case dec world_json of
    None \<Rightarrow> Inl (err (cr_shape_error world_crates world_json)) | Some x \<Rightarrow> Inr x)"
  by (simp add: json_body_def parse_as_def open_world_def world_crates_def and_then_def ok_or_def split: option.split)

lemma world_xrpc: "dec world_json = Some x \<Longrightarrow> xrpc open_world what dec rq w = (Inr x, w)"
  by (simp add: xrpc_def io_then_def send_req_def world_send world_body is_success_def)

lemma world_decodes:
  "decode_session world_json = Some world_session" "decode_profile world_json = Some world_profile"
  by (simp_all add: decode_session_def decode_profile_def world_json_def req_def opt_field_def dflt_def
      world_session_def world_profile_def)

lemma world_calls:
  "create_session open_world i p w = (Inr world_session, w)"
  "refresh_session open_world t w = (Inr world_session, w)"
  "get_profile_public open_world a w = (Inr world_profile, w)"
  "get_profile_authed open_world t a w = (Inr world_profile, w)"
  by (simp_all add: create_session_def refresh_session_def get_profile_public_def get_profile_authed_def
      world_xrpc world_decodes)

lemma world_guilds: "fetch_user_guild_ids open_world u w = (Inr [''g''], w)"
proof -
  have "decode_user_guilds world_json = Some [''g'']"
    by (simp add: decode_user_guilds_def world_json_def req_def)
  then show ?thesis
    by (simp add: fetch_user_guild_ids_def internal_call_def io_then_def send_req_def world_send world_body
        is_success_def)
qed

lemma world_crypto:
  "aead_ok (ap_crates open_world)" "cr_utf8 (ap_crates open_world) (bytes t) = Inr t"
  "length (ap_nonce open_world n) = nonce_bytes"
proof -
  have tag: "(drop (length c - 16) c = replicate 16 7 \<and> take (length c - 16) c = m) = (c = m @ replicate 16 (7 :: u8))"
    for c m :: "u8 list"
  proof
    assume a: "drop (length c - 16) c = replicate 16 7 \<and> take (length c - 16) c = m"
    then show "c = m @ replicate 16 7" by (metis append_take_drop_id)
  qed simp
  show "aead_ok (ap_crates open_world)"
    by (simp add: aead_ok_def open_world_def world_crates_def plain_crates_def) (metis tag)
  have "char_of (unat (byte_of c)) = c" for c
  proof -
    have "(of_char c :: nat) < 256" by simp
    then have "unat (byte_of c) = of_char c" by (simp add: byte_of_def unat_of_nat)
    then show ?thesis by simp
  qed
  then show "cr_utf8 (ap_crates open_world) (bytes t) = Inr t"
    by (simp add: open_world_def world_crates_def plain_crates_def bytes_def comp_def)
  show "length (ap_nonce open_world n) = nonce_bytes" by (simp add: open_world_def nonce_bytes_def)
qed

text \<open>
  What is kept at rest is sealed: a blob opens to a message exactly when it is an encryption of that
  message under the same secret, so a blob made without the key does not open. The AEAD is assumed to open what it sealed and nothing else.
\<close>

theorem sealed_secrets_are_authentic:
  assumes "aead_ok cr"
  shows "decrypt cr secret blob = Inr m \<longleftrightarrow>
    (\<exists>nonce. length nonce = nonce_bytes \<and> blob = encrypt cr nonce secret m)"
  using decrypt_authentic [OF assms] decrypt_encrypt [OF assms] by blast

lemma sealed_secrets_are_authentic_witness:
  "decrypt world_crates ''k'' (encrypt world_crates (replicate 12 0) ''k'' [1, 2, 3]) = Inr [1, 2, 3]"
proof -
  have "\<exists>nonce. length nonce = nonce_bytes \<and>
      encrypt world_crates (replicate 12 0) ''k'' [1, 2, 3] = encrypt world_crates nonce ''k'' [1, 2, 3]"
    by (intro exI [of _ "replicate 12 0"]) (simp add: nonce_bytes_def)
  moreover have "aead_ok world_crates" using world_crypto(1) by (simp add: open_world_def)
  ultimately show ?thesis using sealed_secrets_are_authentic by blast
qed

text \<open>
  A refreshed session is stored: after a refresh the next caller gets the same token from the
  database, without asking Bluesky again.
\<close>

theorem refreshed_token_is_stored:
  assumes "aead_ok (ap_crates app)" and "\<And>t. cr_utf8 (ap_crates app) (bytes t) = Inr t"
    and "\<And>n. length (ap_nonce app n) = nonce_bytes"
    and "find_row ba_did did (accounts (fst s)) = Some a" and "needs_refresh app a"
    and "valid_access_jwt app did s = (Inr jwt, s')"
  shows "valid_access_jwt app did s' = (Inr jwt, s')"
  using assms by (rule refreshed_token_stored)

definition stale_account :: bsky_account where
  "stale_account = sample_account\<lparr>ba_refresh_enc := encrypt world_crates (replicate 12 0) ''secret'' (bytes ''rj'')\<rparr>"

definition stale_db :: db where "stale_db = sample_db\<lparr>accounts := [stale_account]\<rparr>"

lemma stale_token: "\<exists>s'. valid_access_jwt open_world ''did:a'' (stale_db, ()) = (Inr ''aj'', s')"
proof -
  have row: "find_row ba_did ''did:a'' (accounts stale_db) = Some stale_account"
    by (simp add: stale_db_def find_row_def stale_account_def sample_account_def)
  have need: "needs_refresh open_world stale_account"
    by (simp add: needs_refresh_def open_world_def refresh_lead_secs_def stale_account_def sample_account_def)
  have secret: "session_secret (ap_config open_world) = ''secret''"
    by (simp add: open_world_def sample_config_def)
  have "decrypt (ap_crates open_world) ''secret'' (ba_refresh_enc stale_account) = Inr (bytes ''rj'')"
    using decrypt_encrypt [OF world_crypto(1), of "replicate 12 0" "''secret''" "bytes ''rj''"]
    by (simp add: stale_account_def nonce_bytes_def open_world_def)
  then have "open_text open_world ''refresh_jwt'' (ba_refresh_enc stale_account) = Inr ''rj''"
    by (simp add: open_text_def secret world_crypto(2))
  then show ?thesis
    using row need by (simp add: valid_access_jwt_def on_world_def world_calls world_session_def)
qed

lemma refreshed_token_is_stored_witness:
  "\<exists>s'. valid_access_jwt open_world ''did:a'' (stale_db, ()) = (Inr ''aj'', s') \<and>
     valid_access_jwt open_world ''did:a'' s' = (Inr ''aj'', s')"
proof -
  obtain s' where run: "valid_access_jwt open_world ''did:a'' (stale_db, ()) = (Inr ''aj'', s')"
    using stale_token by blast
  have "valid_access_jwt open_world ''did:a'' s' = (Inr ''aj'', s')"
    by (rule refreshed_token_is_stored [OF world_crypto(1,2,3) _ _ run, of stale_account])
      (simp_all add: stale_db_def find_row_def stale_account_def sample_account_def needs_refresh_def
        open_world_def refresh_lead_secs_def)
  with run show ?thesis by blast
qed

subsection \<open>Connecting and disconnecting\<close>

text \<open>
  Connecting an account heals it. After a successful connect the account is listed for the server
  and not marked as failed, the session just proved is handed out without a call, and an
  \<open>account_sync\<close> job waits. Whoever connected was an admin of the server.
\<close>

theorem connecting_heals_an_account:
  assumes "aead_ok (ap_crates app)" and "\<And>t. cr_utf8 (ap_crates app) (bytes t) = Inr t"
    and "\<And>n. length (ap_nonce app n) = nonce_bytes"
    and "broadcaster_connect app inc g body s = (Inr x, s')"
  shows "\<exists>se :: session_resp. admin_of app inc g (snd s) \<and> account_connected g (ss_did se) (fst s') \<and>
    (\<exists>a. find_row ba_did (ss_did se) (accounts (fst s')) = Some a \<and> ba_refresh_failed_at a = None) \<and>
    valid_access_jwt app (ss_did se) s' = (Inr (ss_access_jwt se), s') \<and>
    (\<exists>j \<in> set (jobs (fst s')). j_status j = Pending \<and> j_payload j = account_payload (ss_did se))"
proof -
  from assms(4) obtain admin se p where adm: "admin_of app inc g (snd s)"
    and d: "fst s' = enqueue_account_sync (ap_now app) (ss_did se)
      (store_account (ap_now app) g admin (connected_account app se p) (fst s))"
    by (rule connect_stored)
  from stored_account [OF assms(1-3) d]
  have "account_connected g (ss_did se) (fst s')"
    "\<exists>a. find_row ba_did (ss_did se) (accounts (fst s')) = Some a \<and> ba_refresh_failed_at a = None"
    "valid_access_jwt app (ss_did se) s' = (Inr (ss_access_jwt se), s')"
    by (metis prod.collapse)+
  moreover have "\<exists>j \<in> set (jobs (fst s')). j_status j = Pending \<and> j_payload j = account_payload (ss_did se)"
    by (simp add: d enqueue_account_sync_def enqueue_def new_job_def)
  ultimately show ?thesis using adm by (intro exI [of _ se] conjI)
qed

lemma world_bearer: "bearer_for open_world (sample_bearer ro) (sample_session ro)"
  unfolding open_world_def by (rule bearer_for_any) (simp add: world_crates_def cr_hmac_hex_def)

lemma world_admin_gate: "admin_gate open_world (sample_bearer ro) ''g'' s = (Inr ''7'', s)"
proof -
  have "extract_bearer (sample_bearer ro) \<noteq> None" using world_bearer [of ro] by (rule bearer_for_Some)
  then show ?thesis
    using guild_admin_read_only [OF world_bearer [of ro], of "''g''"]
    by (cases s; cases "extract_bearer (sample_bearer ro)")
      (simp_all add: admin_gate_def csrf_unless_bearer_def on_world_def sample_session_def)
qed

lemma world_credentials:
  "check_credentials m (''@n.example'', ''abcd'') = Inr (''n.example'', ''abcd'')"
proof -
  have "trim ''@n.example'' = ''@n.example''" "trim ''abcd'' = ''abcd''" by (simp_all add: trim_graph is_graph_def)
  moreover have "trim_start_matches (CHR ''@'') ''@n.example'' = ''n.example''" by code_simp
  ultimately show ?thesis by (simp add: check_credentials_def normalize_identifier_def)
qed

lemma world_connect:
  "\<exists>x s'. broadcaster_connect open_world (sample_bearer False) ''g'' (''@n.example'', ''abcd'') (sample_db, ()) =
     (Inr x, s')"
proof -
  have "handle_free ''did:n'' ''n.example'' sample_db"
  proof -
    have "to_ascii_lowercase ''a.example'' \<noteq> to_ascii_lowercase ''n.example''" by code_simp
    then show ?thesis by (simp add: handle_free_def sample_account_def)
  qed
  then show ?thesis
    by (simp add: broadcaster_connect_def io_then_def world_admin_gate world_credentials on_world_def world_calls
        world_session_def)
qed

lemma connecting_heals_an_account_witness:
  "\<exists>x s' (se :: session_resp). broadcaster_connect open_world (sample_bearer False) ''g'' (''@n.example'', ''abcd'') (sample_db, ())
       = (Inr x, s') \<and> account_connected ''g'' (ss_did se) (fst s') \<and>
     valid_access_jwt open_world (ss_did se) s' = (Inr (ss_access_jwt se), s')"
proof -
  obtain x s' where run: "broadcaster_connect open_world (sample_bearer False) ''g'' (''@n.example'', ''abcd'')
      (sample_db, ()) = (Inr x, s')"
    using world_connect by blast
  from connecting_heals_an_account [OF world_crypto(1,2,3) run] run show ?thesis by blast
qed

text \<open>
  C40: disconnecting an account takes it from the server and unbinds the server's role links from it,
  and only those. It queues nothing: the members who hold a role through such a link keep it until
  something else syncs the link.
\<close>

theorem disconnect_unbinds_and_queues_nothing:
  assumes "broadcaster_disconnect app inc g did s = (Inr x, s')"
  shows "\<not> account_connected g did (fst s') \<and>
    (\<forall>l \<in> set (role_links (fst s')). rl_guild l = g \<longrightarrow> rl_account l \<noteq> Some did) \<and>
    filter (\<lambda>l. rl_guild l \<noteq> g) (role_links (fst s')) = filter (\<lambda>l. rl_guild l \<noteq> g) (role_links (fst s)) \<and>
    jobs (fst s') = jobs (fst s) \<and> (\<forall>g' r. local_users g' r (fst s') = local_users g' r (fst s))"
  using disconnect_effect [OF assms] by (simp add: local_users_def)

lemma disconnect_unbinds_and_queues_nothing_witness:
  "\<exists>s'. snd (broadcaster_disconnect open_world (sample_bearer False) ''g'' ''did:a'' (sample_db, ())) = s' \<and>
     jobs (fst s') = jobs sample_db \<and> (\<forall>l \<in> set (role_links (fst s')). rl_guild l = ''g'' \<longrightarrow> rl_account l \<noteq> Some ''did:a'')"
proof -
  obtain x s' where run: "broadcaster_disconnect open_world (sample_bearer False) ''g'' ''did:a'' (sample_db, ()) = (Inr x, s')"
    by (simp add: broadcaster_disconnect_def io_then_def world_admin_gate)
  from disconnect_unbinds_and_queues_nothing [OF run] run show ?thesis by simp
qed

subsection \<open>Members and viewers\<close>

text \<open>
  C23: a Bluesky account belongs to one Discord user. A successful link was proved with an app password
  that Bluesky accepted, is recorded for the signed-in user, and no other row carries that DID; the
  member's roles are queued for a sync.
\<close>

theorem identities_are_linked_once:
  assumes "full_ok (fst s)" and "verify_bsky app inc body s = (Inr se, s')"
  shows "\<exists>discord_id name ident password w u.
    read_session app inc = Inr (discord_id, name) \<and>
    create_session app ident password (snd s) = (Inr se, w) \<and>
    find_row bu_discord_id discord_id (users (fst s')) = Some u \<and> bu_did u = ss_did se \<and>
    (\<forall>v \<in> set (users (fst s')). bu_did v = ss_did se \<longrightarrow> v = u) \<and>
    (\<exists>j \<in> set (jobs (fst s')). j_status j = Pending \<and> j_payload j = player_payload discord_id)"
proof -
  from assms(2) obtain discord_id name ident password w p where
    r: "read_session app inc = Inr (discord_id, name)" and c: "create_session app ident password (snd s) = (Inr se, w)"
    and us: "users (fst s') = upsert bu_discord_id relink (linked_user app discord_id name se p) (users (fst s))"
    and js: "jobs (fst s') = jobs (fst s) @
         [new_job (next_job_id (fst s)) PlayerSync (player_payload discord_id) (ap_now app)]"
    by (rule verify_bsky_cases) auto
  obtain u where u: "find_row bu_discord_id discord_id (users (fst s')) = Some u" "bu_did u = ss_did se"
    unfolding us user_links.find_upsert
    by (cases "find_row bu_discord_id discord_id (users (fst s))") (simp_all add: linked_user_def)
  have "unique_key bu_did (users (fst s'))"
    using keeps_fullD [OF link_full [of app inc body] assms(1)] assms(2)
    by (simp add: full_ok_def db_ok_def keys_ok_def)
  then have "\<forall>v \<in> set (users (fst s')). bu_did v = ss_did se \<longrightarrow> v = u"
    using u find_row_Some_in [OF u(1)] by (metis find_row_unique option.inject)
  moreover have "\<exists>j \<in> set (jobs (fst s')). j_status j = Pending \<and> j_payload j = player_payload discord_id"
    by (simp add: js new_job_def)
  ultimately show ?thesis using r c u by blast
qed

definition member_cookie :: incoming where
  "member_cookie = \<lparr>in_header = map_of [(''origin'', ''https://b.example'')],
     in_cookie = Some (mint_session world_crates ''2'' ''n'' 2000 ''secret'')\<rparr>"

lemma member_session: "read_session open_world member_cookie = Inr (''2'', ''n'')"
proof -
  have "verify_session world_crates 1000 (mint_session world_crates ''2'' ''n'' 2000 ''secret'') ''secret'' =
      Some (''2'', ''n'')"
    by (rule mint_session_accepted)
      (simp_all add: world_crates_def plain_crates_def in_i64_def i64_min_def i64_max_def)
  then show ?thesis
    by (simp add: read_session_def member_cookie_def open_world_def now_secs_def session_key_def
        sample_config_def ok_or_def)
qed

lemma member_origin: "verify_origin member_cookie (allowed_origins (ap_config open_world)) = Inr ()"
  using sample_origins by (simp add: verify_origin_def member_cookie_def open_world_def)

lemma world_link:
  "\<exists>s'. verify_bsky open_world member_cookie (''@n.example'', ''abcd'') (sample_db, ()) = (Inr world_session, s')"
proof -
  have "did_free ''2'' ''did:n'' sample_db" by (simp add: did_free_def sample_user_def)
  then show ?thesis
    by (simp add: verify_bsky_def io_then_def member_origin member_session world_credentials on_world_def
        world_calls fetch_profile_def upsert_user_def seed_relations_def world_guilds)
      (simp add: world_session_def)
qed

lemma identities_are_linked_once_witness:
  "\<exists>s' u. verify_bsky open_world member_cookie (''@n.example'', ''abcd'') (sample_db, ()) = (Inr world_session, s') \<and>
     find_row bu_discord_id ''2'' (users (fst s')) = Some u \<and> bu_did u = ''did:n''"
proof -
  obtain s' where run: "verify_bsky open_world member_cookie (''@n.example'', ''abcd'') (sample_db, ())
      = (Inr world_session, s')"
    using world_link by blast
  have "full_ok (fst (sample_db, ()))" by simp
  from identities_are_linked_once [OF this run] run show ?thesis
    by (auto simp: member_session) (simp add: world_session_def)
qed

text \<open>
  C29: the list of members shows nobody to whom it is not open, and only members. An answer means that
  the server has not disabled the list, that the gateway calls the caller a member, and a manager where
  the server asks for one; every row is a linked user among the members the gateway reported.
\<close>

theorem member_list_is_gated:
  assumes "users_data app inc g s = (Inr j, s')"
  shows "\<exists>perm w ids name. fst s' = fst s \<and> view_permission_of g (fst s) \<noteq> ''disabled'' \<and>
    guild_permission_of app inc g (snd s) = (Inr perm, w) \<and> gp_is_member perm \<and>
    (view_permission_of g (fst s) = ''managers'' \<longrightarrow> gp_is_manager perm) \<and>
    guild_members app inc g w = (Inr (ids, name), snd s') \<and>
    j = users_json app g name (viewer_rows g ids (fst s)) \<and>
    (\<forall>v \<in> set (viewer_rows g ids (fst s)). vw_user v \<in> set (users (fst s)) \<and> bu_discord_id (vw_user v) \<in> set ids)"
  using users_data_ok [OF assms] viewer_rows_members by fastforce

lemma world_member:
  "guild_permission_of open_world member_cookie ''g'' w = (Inr \<lparr>gp_discord_id = ''2'', gp_is_member = True, gp_is_manager = True\<rparr>, w)"
  "guild_members open_world member_cookie ''g'' w = (Inr ([''1''], None), w)"
proof -
  have "decode_permission world_json = Some (True, True)" "decode_members_resp world_json = Some ([''1''], None)"
    by (simp_all add: decode_permission_def decode_members_resp_def world_json_def dflt_def opt_field_def optional_def)
  then show "guild_permission_of open_world member_cookie ''g'' w = (Inr \<lparr>gp_discord_id = ''2'', gp_is_member = True, gp_is_manager = True\<rparr>, w)"
    "guild_members open_world member_cookie ''g'' w = (Inr ([''1''], None), w)"
    by (simp_all add: guild_permission_of_def guild_members_def permission_call_def gateway_call_def io_then_def
        member_session send_req_def world_send world_body is_success_def)
qed

lemma member_list_is_gated_witness:
  "\<exists>j. users_data open_world member_cookie ''g'' (sample_db, ()) = (Inr j, (sample_db, ())) \<and>
     view_permission_of ''g'' sample_db \<noteq> ''disabled''"
proof -
  have vp: "view_permission_of ''g'' sample_db = ''managers''" by (simp add: view_permission_of_def find_row_def)
  have "users_data open_world member_cookie ''g'' (sample_db, ()) =
      (Inr (users_json open_world ''g'' None (viewer_rows ''g'' [''1''] sample_db)), (sample_db, ()))"
    by (simp add: users_data_def io_then_def vp on_world_def world_member)
  with member_list_is_gated [OF this] show ?thesis by auto
qed

text \<open>
  What went wrong inside stays inside: the status and body of an error answer do not depend on the
  text that the database, RoleLogic, Bluesky or the gateway reported.
\<close>

theorem error_answers_are_opaque:
  "error_response (opaque_error e) = error_response e \<and>
   fst (error_response e) \<in> {400, 401, 403, 404, 409, 422, 500, 502}"
  using error_response_opaque error_response_status by blast

text \<open>
  Registering a role link is an update of a finite map: afterwards the link is found under its key
  with the new token, keeping the rule and version it may have had, and every other link is as before.
\<close>

theorem registration_updates_one_link:
  "(\<lambda>k. find_link (fst k) (snd k) (register_rows now g r token d)) =
   (\<lambda>k. find_link (fst k) (snd k) d)((g, r) \<mapsto>
      (case find_link g r d of None \<Rightarrow> registered_link now g r token
       | Some old \<Rightarrow> old\<lparr>rl_token := token, rl_updated_at := now\<rparr>))"
  by (rule ext) (simp add: register_lookup)

end
