(* ===== verification/Player_Race.thy ===== *)
theory Player_Race
  imports Sync_Player
begin

section \<open>Two per-player syncs of one member (\<open>sync_for_player\<close> in \<open>services/sync.rs\<close>)\<close>

text \<open>
  A per-player sync first reads and plans, then calls RoleLogic and writes the rows; several workers may
  run jobs of the same member. \<open>sync_interrupted\<close> has what others do between plan and actions as its
  argument \<open>meanwhile\<close>. \<open>sync_uninterrupted\<close>: left alone it is \<open>sync_for_player\<close>. \<open>interrupted_outcome\<close>:
  the actions follow the plan, all else is as the others left it.
\<close>

definition sync_interrupted :: "'w app \<Rightarrow> string \<Rightarrow> (db \<times> 'w \<Rightarrow> db \<times> 'w) \<Rightarrow> ('w, unit) task" where
  "sync_interrupted app discord_id meanwhile =
     io_then (on_world (fetch_user_guild_ids app discord_id)) (\<lambda>guild_ids.
     if guild_ids = [] then io_return ()
     else
       io_then (on_db (ensure_baseline_relations (ap_now app) discord_id guild_ids)) (\<lambda>_.
       io_then (query (\<lambda>d. List.map_filter (plan_action app d discord_id)
                            (filter (\<lambda>l. rl_guild l \<in> set guild_ids) (role_links d)))) (\<lambda>actions.
       (\<lambda>st. (Inr (), foldl (\<lambda>st a. perform_action app discord_id a st) (meanwhile st) actions)))))"

lemma sync_uninterrupted: "sync_interrupted app user (\<lambda>s. s) = sync_for_player app user"
  by (simp add: sync_interrupted_def sync_for_player_def)

text \<open>What a sync never touches, and what one that RoleLogic accepts leaves in place.\<close>

lemma perform_other_tables:
  "users (fst (perform_action app u a st)) = users (fst st)"
  "jobs (fst (perform_action app u a st)) = jobs (fst st)"
  "relations (fst (perform_action app u a st)) = relations (fst st)"
  "list_members (fst (perform_action app u a st)) = list_members (fst st)"
  "pack_members (fst (perform_action app u a st)) = pack_members (fst st)"
  by (cases a; auto simp: insert_assignment_def delete_assignment_def delete_orphan_role_link_def delete_links_def
      split: prod.split sum.split app_error.split option.split)+

lemma performs_other_tables:
  "users (fst (foldl (\<lambda>st a. perform_action app u a st) st as)) = users (fst st)"
  "jobs (fst (foldl (\<lambda>st a. perform_action app u a st) st as)) = jobs (fst st)"
  "relations (fst (foldl (\<lambda>st a. perform_action app u a st) st as)) = relations (fst st)"
  "list_members (fst (foldl (\<lambda>st a. perform_action app u a st) st as)) = list_members (fst st)"
  "pack_members (fst (foldl (\<lambda>st a. perform_action app u a st) st as)) = pack_members (fst st)"
  by (induction as arbitrary: st) (simp_all add: perform_other_tables del: perform_action.simps)

lemma performs_links:
  assumes "calls_accepted app"
  shows "role_links (fst (foldl (\<lambda>st a. perform_action app u a st) st as)) = role_links (fst st)"
proof (induction as arbitrary: st)
  case (Cons a as)
  have "role_links (fst (perform_action app u a st)) = role_links (fst st)"
    using perform_accepted [OF assms]
    by (cases a) (simp_all add: insert_assignment_def delete_assignment_def split: option.split)
  with Cons show ?case by simp
qed simp

lemma baseline_jobs: "jobs (ensure_baseline_relations now discord gs d) = jobs d"
proof -
  have "jobs (foldl (\<lambda>d a. insert_relation now a v d) d as) = jobs d" for v as
    by (induction as arbitrary: d) (auto simp: insert_relation_def)
  then show ?thesis by (auto simp: ensure_baseline_relations_def split: option.splits)
qed

text \<open>The sync of somebody who is not linked records nothing about a Bluesky account.\<close>

lemma unlinked_sync_tables:
  assumes "sync_for_player app u s = (x, s')" "find_row bu_discord_id u (users (fst s)) = None"
  shows "users (fst s') = users (fst s)" "relations (fst s') = relations (fst s)"
    "list_members (fst s') = list_members (fst s)" "pack_members (fst s') = pack_members (fst s)"
  using assms
  by (auto simp: sync_for_player_def io_then_def on_world_def performs_other_tables ensure_baseline_relations_def
      split: prod.splits sum.splits if_splits)

lemma player_sync_other_tables:
  assumes "sync_for_player app u s = (x, s')"
  shows "users (fst s') = users (fst s)" "jobs (fst s') = jobs (fst s)"
    "calls_accepted app \<Longrightarrow> role_links (fst s') = role_links (fst s)"
  using assms
  by (auto simp: sync_for_player_def io_then_def on_world_def performs_other_tables performs_links
      baseline_other_tables baseline_jobs split: prod.splits sum.splits if_splits)

lemma interrupted_outcome:
  assumes db: "db_ok (fst s)" and ok: "calls_accepted app"
    and guilds: "fetch_user_guild_ids app user (snd s) = (Inr gs, w)" "gs \<noteq> []"
    and d: "d = ensure_baseline_relations (ap_now app) user gs (fst s)"
    and links: "role_links (fst (meanwhile (d, w))) = role_links (fst s)"
    and run: "sync_interrupted app user meanwhile s = (x, s')"
  shows "x = Inr ()" and "users (fst s') = users (fst (meanwhile (d, w)))"
    and "jobs (fst s') = jobs (fst (meanwhile (d, w)))"
    and "l \<in> set (role_links (fst s)) \<Longrightarrow> rl_guild l \<in> set gs \<Longrightarrow>
      user_key user l \<in> held_keys (fst s') \<longleftrightarrow>
        (if plan_action app d user l = None then user_key user l \<in> held_keys (fst (meanwhile (d, w)))
         else qualifies app d user l)"
proof -
  let ?ls = "filter (\<lambda>l. rl_guild l \<in> set gs) (role_links d)"
  have run': "x = Inr ()"
    "s' = foldl (\<lambda>st a. perform_action app user a st) (meanwhile (d, w)) (List.map_filter (plan_action app d user) ?ls)"
    using run guilds d by (auto simp: sync_interrupted_def io_then_def on_world_def)
  show "x = Inr ()" "users (fst s') = users (fst (meanwhile (d, w)))" "jobs (fst s') = jobs (fst (meanwhile (d, w)))"
    unfolding run' by (rule refl, rule performs_other_tables, rule performs_other_tables)
  assume l: "l \<in> set (role_links (fst s))" "rl_guild l \<in> set gs"
  have "distinct (map link_key ?ls)"
    using db d by (simp add: baseline_other_tables db_ok_def keys_ok_def unique_key_def distinct_map_filter)
  then have "distinct (map (user_key user) ?ls)"
    by (auto simp: distinct_map inj_on_def user_key_inj)
  from actions_effect [OF ok this, of "meanwhile (d, w)" d] links l d run'(2)
  show "user_key user l \<in> held_keys (fst s') \<longleftrightarrow>
        (if plan_action app d user l = None then user_key user l \<in> held_keys (fst (meanwhile (d, w)))
         else qualifies app d user l)"
    by (simp add: Let_def baseline_other_tables del: split_paired_All)
qed

text \<open>
  Two workers on one member: when both decide alike, it does not matter that the second sync runs whole
  between the plan and the actions of the first.
\<close>

lemma concurrent_syncs_converge:
  assumes db: "db_ok (fst s)" and ok: "calls_accepted app" "calls_accepted app'"
    and guilds: "fetch_user_guild_ids app user (snd s) = (Inr gs, w)" "gs \<noteq> []"
    and d: "d = ensure_baseline_relations (ap_now app) user gs (fst s)"
    and other: "fetch_user_guild_ids app' user w = (Inr gs', w')" "gs' \<noteq> []" "rl_guild l \<in> set gs'"
      "sync_for_player app' user (d, w) = (y, s1)"
    and same: "qualifies app' (ensure_baseline_relations (ap_now app') user gs' d) user l = qualifies app d user l"
    and run: "sync_interrupted app user (\<lambda>st. snd (sync_for_player app' user st)) s = (x, s')"
    and l: "l \<in> set (role_links (fst s))" "rl_guild l \<in> set gs"
  shows "user_key user l \<in> held_keys (fst s') \<longleftrightarrow> qualifies app d user l"
proof -
  have okd: "db_ok (fst (d, w))" using db d by (simp add: baseline_ok)
  have ls: "l \<in> set (role_links (fst (d, w)))" using l d by (simp add: baseline_other_tables)
  from player_sync_converges [OF okd ok(2) _ other(2,4) ls other(3), of w'] other(1) same
  have held: "user_key user l \<in> held_keys (fst s1) \<longleftrightarrow> qualifies app d user l" by (simp add: user_key_def)
  have "role_links (fst s1) = role_links (fst s)"
    using player_sync_other_tables(3) [OF other(4) ok(2)] d by (simp add: baseline_other_tables)
  with interrupted_outcome(4) [OF db ok(1) guilds d _ run l] other(4) held show ?thesis by simp
qed

end
