(* ===== verification/Sync_Properties.thy ===== *)
theory Sync_Properties
  imports Account_Properties Player_Race
begin

section \<open>Properties of the sync engine, the queue and the whole program\<close>

text \<open>
  What a bulk sync and a per-player sync leave behind, what is uploaded, what a save and a preview
  mean for the next sync, and the life of a job.
\<close>

subsection \<open>The whole program\<close>

text \<open>
  C9: whatever requests, workers, reconciliations and outside events happen, in whatever order, the
  database keeps every primary key, every unique constraint (the index on the lower-cased handles of
  the accounts included, under whatever collation the database was made with) and every foreign key,
  and the queue its invariant: a job is locked exactly while it is in progress, an ended job has its
  time, ids are never reused.
\<close>

theorem reachable_states_are_consistent:
  assumes "reach (\<lambda>s. fresh_db (fst s)) system_step s"
  shows "db_ok (fst s) \<and> queue_ok (fst s)"
  using reachable_full [OF assms] by (simp add: full_ok_def)

lemma reachable_states_are_consistent_witness:
  "db_ok (fst (snd (serve open_world no_probes register_call (empty_db, ())))) \<and>
   queue_ok (fst (snd (serve open_world no_probes register_call (empty_db, ()))))"
proof (rule reachable_states_are_consistent)
  have "reach (\<lambda>s. fresh_db (fst s)) system_step (empty_db, ())"
    by (rule reach_init) (simp add: fresh_db_def empty_db_def)
  then show "reach (\<lambda>s. fresh_db (fst s)) system_step (snd (serve open_world no_probes register_call (empty_db, ())))"
    by (rule reach_step) (rule request [where reply = "fst (serve open_world no_probes register_call (empty_db, ()))"], simp)
qed

subsection \<open>Saving and previewing a rule\<close>

text \<open>
  C5: a save is refused and changes nothing, or it is the validated rule written over the version it
  was based on: the sender may edit this role, the account is connected to the server, the rule is
  well formed, the version moves on by one, no other link changes, and a sync of the role is queued.
  So of two saves based on one version the second is refused.
\<close>

definition saved :: "'w app \<Rightarrow> string \<Rightarrow> string \<Rightarrow> save_body \<Rightarrow> db \<Rightarrow> db \<Rightarrow> bool" where
  "saved app g r body d d' \<longleftrightarrow>
     (\<exists>p link. parse_rule_tree (cr_regex (ap_crates app)) (cr_json_show (ap_crates app)) (sv_tree body) = Inr p \<and>
        wf_tree (cr_regex (ap_crates app)) (p_tree p) \<and>
        (case b_account (sv_tree body) of None \<Rightarrow> p_account p = None
         | Some did \<Rightarrow> account_connected g did d \<and> p_account p \<in> {None, Some (trim did)}) \<and>
        find_link g r d = Some link \<and> rl_version link = sv_version body \<and>
        (\<lambda>k. find_link (fst k) (snd k) d') =
          (\<lambda>k. find_link (fst k) (snd k) d)((g, r) \<mapsto> saved_link (ap_now app) p link) \<and>
        (\<exists>j \<in> set (jobs d'). j_status j = Pending \<and> j_payload j = config_payload g r))"

theorem save_writes_the_validated_rule:
  "case role_config_save app inc g r body s of
     (Inl e, s') \<Rightarrow> fst s' = fst s
   | (Inr j, s') \<Rightarrow> editor_of app inc g r (snd s) \<and> saved app g r body (fst s) (fst s')"
proof -
  obtain x s' where run: "role_config_save app inc g r body s = (x, s')" by (rule prod.exhaust)
  from run show ?thesis
  proof (cases rule: save_cases)
    case (refused e)
    with run show ?thesis by simp
  next
    case (saved p link)
    note wf = parse_wf [OF saved(2)]
    have acc: "p_account p = parse_account (b_account (sv_tree body))"
      using saved(2) by (auto simp: parse_rule_tree_def result_simps split: if_splits)
    have "case b_account (sv_tree body) of None \<Rightarrow> p_account p = None
        | Some did \<Rightarrow> account_connected g did (fst s) \<and> p_account p \<in> {None, Some (trim did)}"
      using saved(3) by (auto simp: acc parse_account_def split: option.split)
    moreover have "(\<lambda>k. find_link (fst k) (snd k) (fst s')) =
        (\<lambda>k. find_link (fst k) (snd k) (fst s))((g, r) \<mapsto> saved_link (ap_now app) p link)"
      using save_lookup [OF saved(5,6)]
      by (intro ext) (auto simp: saved(9) enqueue_config_sync_def prod_eq_iff)
    moreover have "\<exists>j \<in> set (jobs (fst s')). j_status j = Pending \<and> j_payload j = config_payload g r"
      by (simp add: saved(9) enqueue_config_sync_def enqueue_def new_job_def)
    ultimately have "Sync_Properties.saved app g r body (fst s) (fst s')"
      using saved(2,5,6) wf unfolding saved_def by blast
    with saved(1,8) run show ?thesis by simp
  qed
qed

text \<open>
  The preview counts what the next sync uploads: with the members the gateway reports, the number
  shown is the number of members the bulk query selects before the link's limit cuts it, for a draft
  as for a stored rule, and also when the rule grants nobody.
\<close>

theorem preview_counts_the_next_sync:
  assumes "fetch_guild_member_ids app g (snd s) = (Inr ids, w)" and "\<not> limit_is_negative limit"
  shows "\<exists>us l. fst (preview_count_for app g account tree s) = Inr (preview_json (length us) l) \<and>
    select_qualifying app (fst s) account tree ids limit = Inr (take limit us)"
  using assms by (rule preview_counts_sync)

lemma world_members: "fetch_guild_member_ids open_world g w = (Inr [''1''], w)"
proof -
  have "decode_guild_members world_json = Some ([''1''], None)"
    by (simp add: decode_guild_members_def world_json_def req_def opt_field_def optional_def dflt_def)
  then show ?thesis
    by (simp add: fetch_guild_member_ids_def fetch_guild_member_ids_full_def internal_call_def io_then_def
        send_req_def world_send world_body is_success_def)
qed

lemma preview_counts_the_next_sync_witness:
  "\<exists>us l. fst (preview_count_for open_world ''g'' (Some ''did:a'') follower_tree (sample_db, ()))
       = Inr (preview_json (length us) l) \<and>
     select_qualifying open_world sample_db (Some ''did:a'') follower_tree [''1''] 100 = Inr (take 100 us)"
  using preview_counts_the_next_sync [where s = "(sample_db, ())" and limit = 100 and app = open_world
      and g = "''g''" and account = "Some ''did:a''" and tree = follower_tree, OF _]
  by (simp add: world_members limit_is_negative_def)

subsection \<open>The bulk sync\<close>

text \<open>
  All a bulk sync does to the database is one of five things: nothing, the members of this role
  cleared, the members replaced by a list without repetitions, the role link deleted because RoleLogic
  no longer knows it, or a re-check queued. When it fails it has done nothing, and the members of no
  other role link are touched.
\<close>

theorem bulk_sync_writes_one_link:
  assumes "db_ok (fst s)" and "sync_for_role_link app g r s = (x, s')"
  shows "role_link_write app g r (fst s) (fst s') \<and> (\<forall>e. x = Inl e \<longrightarrow> fst s' = fst s) \<and>
    (\<forall>g' r'. (g', r') \<noteq> (g, r) \<longrightarrow> local_users g' r' (fst s') = local_users g' r' (fst s))"
  using role_link_step [OF assms] other_links_untouched by blast

lemma bulk_sync_writes_one_link_witness:
  "role_link_write open_world ''g'' ''r'' sample_db (fst (snd (sync_for_role_link open_world ''g'' ''r'' (sample_db, ()))))"
  using bulk_sync_writes_one_link [of "(sample_db, ())" open_world "''g''" "''r''"
      "fst (sync_for_role_link open_world ''g'' ''r'' (sample_db, ()))"
      "snd (sync_for_role_link open_world ''g'' ''r'' (sample_db, ()))"]
  by simp

text \<open>
  C6: after a bulk sync that RoleLogic accepted, the recorded members of the role are exactly the ones
  the rule selects among the server's members, in order and up to the link's limit.
\<close>

theorem bulk_sync_converges:
  assumes "db_ok (fst s)" and "find_link g r (fst s) = Some link" and "\<not> grants_nobody link"
    and "fetch_guild_member_ids app g (snd s) = (Inr ids, w1)" and "ids \<noteq> []"
    and "get_user_info app g r (rl_token link) w1 = (Inr (n, limit), w2)"
    and "select_qualifying app (fst s) (rl_account link) (tree_of_json (rl_tree link)) ids limit = Inr us"
    and "upload_users app g r us (rl_token link) w2 = (Inr k, w3)"
    and "sync_for_role_link app g r s = (x, s')"
  shows "x = Inr () \<and> local_users g r (fst s') = us"
proof -
  have "write_members app g r link ids limit (fst s, w2) = (x, s')"
    using assms(2-6,9) by (simp add: sync_for_role_link_def io_then_def on_world_def)
  with write_members_mirror [of "(fst s, w2)" app link ids limit us g r k w3 x s'] assms(1,7,8)
  show ?thesis by simp
qed

lemma world_rolelogic:
  "get_user_info open_world g r t w = (Inr (0, 100), w)"
  "replace_users open_world g r us t w = (Inr 0, w)"
  "add_user open_world g r u t w = (Inr False, w)" "remove_user open_world g r u t w = (Inr False, w)"
proof -
  have "json_at (json_at world_json ''data'') k = JNull" for k by (simp add: json_at_def world_json_def)
  then have d: "data_u64 world_json k n = n" "data_bool world_json k = False" for k n
    by (simp_all add: data_u64_def data_bool_def)
  show "get_user_info open_world g r t w = (Inr (0, 100), w)" "replace_users open_world g r us t w = (Inr 0, w)"
    "add_user open_world g r u t w = (Inr False, w)" "remove_user open_world g r u t w = (Inr False, w)"
    by (simp_all add: get_user_info_def replace_users_def add_user_def remove_user_def io_then_def send_req_def
        world_send is_success_def rl_json_def world_body d)
qed

lemma bulk_sync_converges_witness:
  "local_users ''g'' ''r'' (fst (snd (sync_for_role_link open_world ''g'' ''r'' (sample_db, ())))) =
     take 100 (rule_users open_world sample_db ''did:a'' follower_tree [''1''])"
proof -
  let ?us = "take 100 (rule_users open_world sample_db ''did:a'' follower_tree [''1''])"
  have sel: "select_qualifying open_world sample_db (Some ''did:a'') follower_tree [''1''] 100 = Inr ?us"
    by (simp add: select_qualifying_def limit_is_negative_def follower_tree_def)
  have "length ?us \<le> 100" by simp
  then have up: "upload_users open_world ''g'' ''r'' ?us (rl_token sample_link) () = (Inr 0, ())"
    by (simp add: upload_users_def world_rolelogic put_max_users_def)
  have link: "find_link ''g'' ''r'' (fst (sample_db, ())) = Some sample_link"
    by (simp add: find_link_def find_row_def link_key_def sample_link_def)
  have acc: "rl_account sample_link = Some ''did:a''" by (simp add: sample_link_def)
  have nob: "\<not> grants_nobody sample_link"
    by (simp add: grants_nobody_def acc) (simp add: follower_tree_def)
  obtain x s' where run: "sync_for_role_link open_world ''g'' ''r'' (sample_db, ()) = (x, s')"
    by (rule prod.exhaust)
  have ids: "fetch_guild_member_ids open_world ''g'' (snd (sample_db, ())) = (Inr [''1''], ())"
    using world_members by simp
  have sel': "select_qualifying open_world (fst (sample_db, ())) (rl_account sample_link)
      (tree_of_json (rl_tree sample_link)) [''1''] 100 = Inr ?us" using sel acc by simp
  from bulk_sync_converges [OF _ link nob ids _ world_rolelogic(1) sel' up run] run show ?thesis by simp
qed

text \<open>
  C17: an upload is whole or cancelled. A list that needs more than one request is sent as a start, all
  chunks in order and a commit; if anything fails before the commit, what was sent ends with the
  cancellation, or with the start that was refused. RoleLogic is never asked to commit part of a list.
\<close>

theorem uploads_are_whole_or_cancelled:
  assumes "ap_send app = logged t" and "put_max_users < length us"
    and "upload_users app g r us token w = (x, w')"
  shows "\<exists>rqs. fst w' = fst w @ rl_request POST (users_url app g r @ ''/upload'') token None # rqs \<and>
    (rqs = [] \<and> \<not> is_ok x \<or>
     (\<exists>u n. rqs = map (chunk_request app g r u token) (take n (chunks chunk_size us))
        @ [cancel_request app g r u token] \<and> \<not> is_ok x) \<or>
     (\<exists>u. rqs = map (chunk_request app g r u token) (chunks chunk_size us) @ [commit_request app g r u token]))"
proof -
  obtain y w1 where st: "start_upload app g r token w = (y, w1)" by (rule prod.exhaust)
  have w1: "fst w1 = fst w @ [rl_request POST (users_url app g r @ ''/upload'') token None]"
    using start_sends [OF assms(1), of g r token w] st by simp
  show ?thesis
  proof (cases y)
    case (Inl e)
    with assms(2,3) st have "x = Inl e" "w' = w1" by (auto simp: upload_users_def)
    with w1 show ?thesis by (intro exI [of _ "[]"]) (simp add: is_ok_def)
  next
    case (Inr u)
    obtain z w2 where c: "upload_chunks app g r u token (chunks chunk_size us) w1 = (z, w2)" by (rule prod.exhaust)
    show ?thesis
    proof (cases z)
      case (Inl e)
      with assms(2,3) st Inr c have "x = Inl e" "w' = w2" by (auto simp: upload_users_def)
      with chunks_failed [OF assms(1), of g r u token "chunks chunk_size us" w1 e w2] c Inl w1
      show ?thesis by (auto simp: is_ok_def)
    next
      case (Inr v)
      with assms(2,3) st \<open>y = Inr u\<close> c have "commit_upload app g r u token w2 = (x, w')"
        by (auto simp: upload_users_def)
      with commit_sends [OF assms(1), of g r u token w2] chunks_sent [OF assms(1), of g r u token _ w1 v w2] c Inr w1
      show ?thesis by auto
    qed
  qed
qed

lemma uploads_are_whole_or_cancelled_witness:
  "\<exists>rqs. fst (snd (upload_users (sample_app (logged (answers 500 [])) plain_crates :: (request list \<times> unit) app)
      ''g'' ''r'' (replicate (Suc put_max_users) ''1'') ''tok'' ([], ()))) = rqs \<and> rqs \<noteq> []"
proof -
  let ?app = "sample_app (logged (answers 500 [])) plain_crates :: (request list \<times> unit) app"
  obtain x w' where run: "upload_users ?app ''g'' ''r'' (replicate (Suc put_max_users) ''1'') ''tok'' ([], ()) = (x, w')"
    by (rule prod.exhaust)
  have "ap_send ?app = logged (answers 500 [])" by simp
  from uploads_are_whole_or_cancelled [OF this _ run] obtain rqs where
    "fst w' = rl_request POST (users_url ?app ''g'' ''r'' @ ''/upload'') ''tok'' None # rqs" by fastforce
  with run show ?thesis by (intro exI [of _ "fst w'"]) simp
qed

subsection \<open>The per-player sync\<close>

text \<open>
  C3: a per-player sync that RoleLogic accepts refines its specification: of the roles of the member's
  servers, the member holds exactly those whose rule they satisfy.
\<close>

theorem player_sync_meets_its_rules:
  assumes "db_ok (fst s)" and "calls_accepted app"
    and "fetch_user_guild_ids app user (snd s) = (Inr gs, w)" and "gs \<noteq> []"
    and "sync_for_player app user s = (x, s')"
  shows "x = Inr () \<and>
    {l \<in> set (role_links (fst s)). rl_guild l \<in> set gs \<and> (rl_guild l, rl_role l, user) \<in> held_keys (fst s')} =
    {l \<in> set (role_links (fst s)). rl_guild l \<in> set gs \<and>
       qualifies app (ensure_baseline_relations (ap_now app) user gs (fst s)) user l}"
proof -
  have "x = Inr ()" using assms(3-5) by (auto simp: sync_for_player_def io_then_def on_world_def)
  with player_sync_converges [OF assms] show ?thesis by blast
qed

lemma world_accepts: "calls_accepted open_world"
  unfolding calls_accepted_def using world_rolelogic(3,4) by blast

lemma player_sync_meets_its_rules_witness:
  "{l \<in> set (role_links sample_db). rl_guild l \<in> set [''g''] \<and>
      (rl_guild l, rl_role l, ''1'') \<in> held_keys (fst (snd (sync_for_player open_world ''1'' (sample_db, ()))))} =
   {l \<in> set (role_links sample_db). rl_guild l \<in> set [''g''] \<and>
      qualifies open_world (ensure_baseline_relations (ap_now open_world) ''1'' [''g''] sample_db) ''1'' l}"
proof -
  obtain x s' where run: "sync_for_player open_world ''1'' (sample_db, ()) = (x, s')" by (rule prod.exhaust)
  have g: "fetch_user_guild_ids open_world ''1'' (snd (sample_db, ())) = (Inr [''g''], ())" using world_guilds by simp
  from player_sync_meets_its_rules [OF _ world_accepts g _ run] run show ?thesis by simp
qed

text \<open>
  C18: a member who unlinks loses the roles: once the sync that the unlinking queued has run with every
  call accepted by RoleLogic, the member holds no role of any server the gateway reports for them. Right
  after the unlinking and after that sync alike, neither the member's row nor a relation, list membership
  or starter-pack membership of the account is left.
\<close>

definition no_trace :: "string \<Rightarrow> string \<Rightarrow> db \<Rightarrow> bool" where
  "no_trace user did d \<longleftrightarrow> find_row bu_discord_id user (users d) = None \<and>
     did \<notin> ar_viewer ` set (relations d) \<and> did \<notin> mb_did ` set (list_members d) \<and>
     did \<notin> mb_did ` set (pack_members d)"

theorem unlinked_members_lose_their_roles:
  assumes "full_ok (fst s)" and "verify_unlink app inc s = (Inr j, s1)"
    and "read_session app inc = Inr (user, name)" and "find_row bu_discord_id user (users (fst s)) = Some u"
    and "calls_accepted app'" and "fetch_user_guild_ids app' user (snd s1) = (Inr gs, w)" and "gs \<noteq> []"
    and "sync_for_player app' user s1 = (x, s')"
  shows "{l \<in> set (role_links (fst s)). rl_guild l \<in> set gs \<and> (rl_guild l, rl_role l, user) \<in> held_keys (fst s')} = {} \<and>
    no_trace user (bu_did u) (fst s1) \<and> no_trace user (bu_did u) (fst s') \<and>
    (\<exists>j \<in> set (jobs (fst s1)). j_status j = Pending \<and> j_payload j = player_payload user)"
proof -
  from assms(2) obtain user' name' u' where "read_session app inc = Inr (user', name')"
    "find_row bu_discord_id user' (users (fst s)) = Some u'"
    "fst s1 = enqueue_player_sync (ap_now app) user' (forget_viewer (bu_did u') (remove_viewer user' (fst s)))"
    by (rule unlink_effect)
  with assms(3,4)
  have d1: "fst s1 = enqueue_player_sync (ap_now app) user (forget_viewer (bu_did u) (remove_viewer user (fst s)))"
    by simp
  note gone = forgotten [OF d1]
  have ok1: "db_ok (fst s1)"
    using keeps_fullD [OF unlink_full [of app inc] assms(1)] assms(2) by (simp add: full_ok_def)
  have links: "role_links (fst s1) = role_links (fst s)"
    by (simp add: d1 enqueue_player_sync_def enqueue_def forget_viewer_def remove_viewer_def)
  have "\<not> qualifies app' (ensure_baseline_relations now user gs (fst s1)) user l" for now l
    using gone by (simp add: qualifies_def facts_select_def baseline_other_tables Let_def split: option.split)
  with player_sync_converges [OF ok1 assms(5-8)] links gone
  have "{l \<in> set (role_links (fst s)). rl_guild l \<in> set gs \<and> (rl_guild l, rl_role l, user) \<in> held_keys (fst s')} = {}"
    by auto
  moreover have "\<exists>j \<in> set (jobs (fst s1)). j_status j = Pending \<and> j_payload j = player_payload user"
    by (simp add: d1 enqueue_player_sync_def enqueue_def new_job_def)
  moreover have "no_trace user (bu_did u) (fst s1)" using gone by (auto simp: no_trace_def)
  moreover from this have "no_trace user (bu_did u) (fst s')"
    using gone by (simp add: no_trace_def unlinked_sync_tables [OF assms(8)])
  ultimately show ?thesis by blast
qed

definition linked_db :: db where
  "linked_db = store_user (sample_user\<lparr>bu_discord_id := ''2'', bu_did := ''did:v''\<rparr>) sample_db"

lemma linked_db_user:
  "find_row bu_discord_id ''2'' (users linked_db) = Some (sample_user\<lparr>bu_discord_id := ''2'', bu_did := ''did:v''\<rparr>)"
  "full_ok linked_db"
proof -
  show "find_row bu_discord_id ''2'' (users linked_db) = Some (sample_user\<lparr>bu_discord_id := ''2'', bu_did := ''did:v''\<rparr>)"
    unfolding linked_db_def store_user_def
    by (simp add: user_links.find_upsert) (simp add: find_row_def sample_user_def)
  show "full_ok linked_db"
    unfolding linked_db_def by (rule store_user_full) (simp_all add: did_free_def sample_user_def)
qed

lemma unlinked_members_lose_their_roles_witness:
  "\<exists>s1. snd (verify_unlink open_world member_cookie (linked_db, ())) = s1 \<and>
     {l \<in> set (role_links linked_db). rl_guild l \<in> set [''g''] \<and>
        (rl_guild l, rl_role l, ''2'') \<in> held_keys (fst (snd (sync_for_player open_world ''2'' s1)))} = {} \<and>
     no_trace ''2'' ''did:v'' (fst (snd (sync_for_player open_world ''2'' s1)))"
proof -
  obtain s1 where u: "verify_unlink open_world member_cookie (linked_db, ()) = (Inr success_json, s1)"
    by (simp add: verify_unlink_def io_then_def member_origin member_session linked_db_user)
  obtain x s' where run: "sync_for_player open_world ''2'' s1 = (x, s')" by (rule prod.exhaust)
  have g: "fetch_user_guild_ids open_world ''2'' (snd s1) = (Inr [''g''], snd s1)" by (rule world_guilds)
  have "full_ok (fst (linked_db, ()))" "find_row bu_discord_id ''2'' (users (fst (linked_db, ()))) =
      Some (sample_user\<lparr>bu_discord_id := ''2'', bu_did := ''did:v''\<rparr>)" using linked_db_user by simp_all
  from unlinked_members_lose_their_roles [OF this(1) u member_session this(2) world_accepts g _ run] u run
  show ?thesis by simp
qed

subsection \<open>An outage of Bluesky\<close>

text \<open>
  C36: a refresh during which Bluesky cannot be reached still succeeds, and clears every follower flag of
  the account: the failed calls are taken for empty lists. The jobs it queues then remove the roles of
  all followers.
\<close>

theorem outage_clears_the_followers:
  assumes "\<And>rq w. \<exists>e w'. ap_send app rq w = (Inl e, w')"
  shows "\<exists>s'. refresh_graph app token did s = Some (Inr (), s') \<and>
    (\<forall>r \<in> set (relations (fst s')). ar_account r = did \<longrightarrow> \<not> ar_is_follower r \<and> \<not> ar_is_followed_back r)"
proof -
  have down: "\<exists>e w'. xrpc app what dec rq w = (Inl e, w')" for what dec rq w
  proof -
    obtain e w' where "ap_send app rq w = (Inl e, w')" using assms by blast
    then show ?thesis by (simp add: xrpc_def io_then_def send_req_def)
  qed
  have paged: "\<exists>e w'. drain fetch n c out w = Some (Inl e, w')"
    if f: "\<And>c w. \<exists>e w'. fetch c w = (Inl e, w')" for fetch :: "('a, actor_ref) fetch" and n c out w
  proof -
    obtain e w' where "fetch c w = (Inl e, w')" using f by blast
    then show ?thesis by (subst drain.simps) simp
  qed
  have fr: "\<exists>e w'. list_followers app token did n w = Some (Inl e, w')" for n w
    unfolding list_followers_def by (rule paged) (simp add: followers_fetch_def down)
  have fs: "\<exists>e w'. list_follows app token did n w = Some (Inl e, w')" for n w
    unfolding list_follows_def by (rule paged) (simp add: follows_fetch_def down)
  obtain e w1 where 1: "list_followers app token did max_followers_per_account (snd s) = Some (Inl e, w1)"
    using fr by blast
  obtain e' w2 where 2: "list_follows app token did max_followers_per_account w1 = Some (Inl e', w2)"
    using fs by blast
  from 1 2 obtain s' where run: "refresh_graph app token did s = Some (Inr (), s')"
    by (simp add: refresh_graph_def ot_then_def attempt_def ot_world_def total_def)
  from refresh_graph_outage [OF run] 1 2 run show ?thesis by (auto simp: follow_calls_def is_ok_def)
qed

lemma outage_clears_the_followers_witness:
  "\<exists>s'. refresh_graph (sample_app down plain_crates :: unit app) ''t'' ''did:a'' (sample_db, ()) = Some (Inr (), s') \<and>
    (\<forall>r \<in> set (relations (fst s')). ar_account r = ''did:a'' \<longrightarrow> \<not> ar_is_follower r \<and> \<not> ar_is_followed_back r)"
  by (rule outage_clears_the_followers) (simp add: down_def)

subsection \<open>Paging\<close>

text \<open>
  C32: listing the followers of an account ends, with at most the number of entries asked for, whenever
  Bluesky sends no cursor with an empty page. (The loop has no other bound: a server that keeps sending
  cursors with empty pages keeps it running.)
\<close>

theorem listing_followers_returns:
  assumes "\<And>cursor w items c w'. followers_fetch app jwt actor cursor w = (Inr (items, Some c), w') \<Longrightarrow> items \<noteq> []"
    and "0 < max_items"
  shows "\<exists>x w'. list_followers app jwt actor max_items w = Some (x, w') \<and>
    (case x of Inr xs \<Rightarrow> length xs \<le> max_items | Inl e \<Rightarrow> True)"
proof -
  have "drain (followers_fetch app jwt actor) max_items None [] w \<noteq> None"
    by (rule drain_returns) (use assms in auto)
  then obtain x w' where run: "list_followers app jwt actor max_items w = Some (x, w')"
    by (auto simp: list_followers_def)
  moreover have "case x of Inr xs \<Rightarrow> length xs \<le> max_items | Inl e \<Rightarrow> True"
    using drain_bound [of "followers_fetch app jwt actor" max_items None "[]" w _ w'] run assms(2)
    by (auto simp: list_followers_def split: sum.split)
  ultimately show ?thesis by blast
qed

lemma listing_followers_returns_witness:
  "\<exists>x w'. list_followers open_world ''aj'' ''did:a'' 100 () = Some (x, w') \<and>
    (case x of Inr xs \<Rightarrow> length xs \<le> 100 | Inl e \<Rightarrow> True)"
proof (rule listing_followers_returns)
  have "decode_actors_page True world_json = Some ([], None)"
    by (simp add: decode_actors_page_def world_json_def opt_field_def dflt_def)
  then show "followers_fetch open_world ''aj'' ''did:a'' cursor w = (Inr (items, Some c), w') \<Longrightarrow> items \<noteq> []"
    for cursor w items c w'
    by (simp add: followers_fetch_def world_xrpc)
qed simp

subsection \<open>The queue\<close>

text \<open>
  C28: what becomes of a job that a worker runs. It is completed if its task succeeded and given up for
  good if the task failed terminally or its attempts are used up; otherwise it is due again after an
  exponential back-off of two seconds to a little over four minutes. In no case does it stay locked.
\<close>

theorem failed_jobs_back_off:
  assumes "run_job app False jitter j s = Some s'" and "0 \<le> jitter" "jitter < 1000"
    and "row \<in> set (jobs (fst s'))" and "j_id row = j_id j"
  shows "\<exists>r s1. dispatch app j s = Some (r, s1) \<and> j_locked_by row = None \<and>
    (case r of
       Inr _ \<Rightarrow> j_status row = Completed
     | Inl (Terminal e) \<Rightarrow> j_status row = Dead \<and> j_last_error row = Some e
     | Inl (Retry e) \<Rightarrow> j_last_error row = Some e \<and>
         (if j_max_attempts j \<le> j_attempts j then j_status row = Dead
          else j_status row = Pending \<and> ap_now app + secs 2 \<le> j_next_run_at row \<and>
            j_next_run_at row < ap_now app + secs 257))"
proof -
  obtain r s1 where d: "dispatch app j s = Some (r, s1)" and d': "fst s' = finish_job app jitter j r (fst s1)"
    using assms(1) by (auto simp: run_job_def)
  have row: "row \<in> set (jobs (finish_job app jitter j r (fst s1)))" using assms(4) d' by simp
  have complete: "x \<in> set (jobs (complete now i db)) \<Longrightarrow> j_id x = i \<Longrightarrow> j_status x = Completed \<and> j_locked_by x = None"
    for x now i db by (simp add: complete_def) (erule update_whereE; simp)
  have dead: "x \<in> set (jobs (fail_dead now i e db)) \<Longrightarrow> j_id x = i \<Longrightarrow>
      j_status x = Dead \<and> j_last_error x = Some e \<and> j_locked_by x = None"
    for x now i e db by (simp add: fail_dead_def) (erule update_whereE; simp)
  have retry: "x \<in> set (jobs (fail_retry now jitter j e db)) \<Longrightarrow> j_id x = j_id j \<Longrightarrow>
      j_status x = Pending \<and> j_last_error x = Some e \<and> j_locked_by x = None \<and>
      now + secs 2 \<le> j_next_run_at x \<and> j_next_run_at x < now + secs 257"
    for x now e db
    using backoff_bounds [OF assms(2,3), of "j_attempts j"]
    by (simp add: fail_retry_def) (erule update_whereE; simp add: secs_def)
  from d row assms(5) show ?thesis
    by (auto simp: finish_job_def split: sum.split job_error.split if_splits dest: complete dead retry)
qed

lemma failed_jobs_back_off_witness:
  "\<exists>s'. run_job (sample_app down plain_crates :: unit app) False 250 (sample_job\<lparr>j_attempts := 1\<rparr>) (sample_db, ()) = Some s' \<and>
     (\<forall>row \<in> set (jobs (fst s')). j_id row = 1 \<longrightarrow> j_locked_by row = None)"
proof -
  let ?app = "sample_app down plain_crates :: unit app" and ?j = "sample_job\<lparr>j_attempts := 1\<rparr>"
  have k: "payload_text ?j ''guild_id'' = Some ''g''" "payload_text ?j ''role_id'' = Some ''r''"
    by (simp_all add: payload_text_def sample_job_def new_job_def config_payload_def)
  have "kind_from_db (j_kind ?j) = Some ConfigSync" by (simp add: sample_job_def new_job_def kind_from_db_def)
  from config_job_returns [OF this k] obtain s' where run: "run_job ?app False 250 ?j (sample_db, ()) = Some s'"
    by blast
  have "j_locked_by row = None" if "row \<in> set (jobs (fst s'))" "j_id row = 1" for row
    using failed_jobs_back_off [OF run _ _ that(1)] that(2) by (auto simp: sample_job_def new_job_def)
  with run show ?thesis by blast
qed

text \<open>
  C27: a turn of the worker, once it is over, leaves no job locked that it locked itself: whatever is
  locked afterwards was so before, and the constraints of the database hold again.
\<close>

theorem passes_release_their_jobs:
  assumes "full_ok (fst s)" and "worker_pass app w reap_due skip turn s = Some s'"
  shows "full_ok (fst s') \<and>
    (\<forall>row \<in> set (jobs (fst s')). j_status row = InProgress \<longrightarrow> row \<in> set (jobs (fst s)))"
  using worker_pass_full [OF assms] pass_releases [OF assms] by blast

lemma passes_release_their_jobs_witness:
  "\<exists>s'. worker_pass (sample_app down plain_crates :: unit app) ''w'' True (\<lambda>i. False) (\<lambda>i. (False, 0)) (sample_db, ())
       = Some s' \<and> (\<forall>row \<in> set (jobs (fst s')). j_status row \<noteq> InProgress)"
proof -
  obtain s' where run: "worker_pass (sample_app down plain_crates :: unit app) ''w'' True (\<lambda>i. False)
      (\<lambda>i. (False, 0)) (sample_db, ()) = Some s'"
    using sample_pass_returns [of "sample_app down plain_crates :: unit app" "()"] by auto
  have "j_status row = Pending" if "row \<in> set (jobs sample_db)" for row
    using that by (simp add: sample_job_def new_job_def)
  with passes_release_their_jobs [OF _ run] run show ?thesis by (intro exI [of _ s']) auto
qed

end
