(* ===== verification/Mirror_Properties.thy ===== *)
theory Mirror_Properties
  imports Mirror_Worker Sync_Properties
begin

section \<open>Claims on the mirror of RoleLogic\<close>

text \<open>
  The witnesses run against \<open>rl_server\<close>, a RoleLogic that keeps its members: it reads the path of a
  request, changes what it holds and answers. With \<open>loses\<close> the answer to every write is lost.
\<close>

subsection \<open>A server that keeps its members\<close>

type_synonym rl_state = "(string \<times> string \<Rightarrow> string set) \<times> (string \<times> string \<times> string \<Rightarrow> string set)"

definition body_users :: "json option \<Rightarrow> string set" where
  "body_users b = (case b of Some (JArr vs) \<Rightarrow> set (List.map_filter as_str vs) | _ \<Rightarrow> {})"

definition server_path :: "string \<Rightarrow> string list" where
  "server_path url =
     (case strip_prefix ''https://api.example/api/role-link/'' url of
        None \<Rightarrow> [] | Some rest \<Rightarrow> split_all (CHR ''/'') rest)"

definition apply_call :: "http_method \<Rightarrow> string list \<Rightarrow> json option \<Rightarrow> rl_state \<Rightarrow> rl_state" where
  "apply_call m path body hs =
     (let (h, s) = hs in
      case m of
        GET \<Rightarrow> hs
      | PUT \<Rightarrow> (case path of [g, r, _] \<Rightarrow> (h((g, r) := body_users body), s) | _ \<Rightarrow> hs)
      | DELETE \<Rightarrow> (case path of [g, r, _, u] \<Rightarrow> (h((g, r) := h (g, r) - {u}), s) | _ \<Rightarrow> hs)
      | POST \<Rightarrow> (case path of
            [g, r, _, u] \<Rightarrow> if u = ''upload'' then (h, s((g, r, ''u'') := {}))
                           else (h((g, r) := insert u (h (g, r))), s)
          | [g, r, _, _, u, what] \<Rightarrow>
              if what = ''chunk'' then (h, s((g, r, u) := s (g, r, u) \<union> body_users body))
              else (h((g, r) := s (g, r, u)), s)
          | _ \<Rightarrow> hs))"

definition rl_server :: "bool \<Rightarrow> rl_state transport" where
  "rl_server loses rq hs =
     (if loses \<and> rq_method rq \<noteq> GET then Inl ''timeout'' else Inr \<lparr>rs_status = 200, rs_body = []\<rparr>,
      apply_call (rq_method rq) (server_path (rq_url rq)) (rq_json rq) hs)"

definition server_json :: json where
  "server_json = JObj [(''data'', JObj [(''upload_id'', JStr ''u'')]), (''guild_ids'', JArr [JStr ''g'']),
     (''discord_ids'', JArr [JStr ''1''])]"

definition server_app :: "bool \<Rightarrow> rl_state app" where
  "server_app loses = sample_app (rl_server loses) (plain_crates\<lparr>cr_json := (\<lambda>s. Inr server_json)\<rparr>)"

definition server_reading :: "rl_state rolelogic" where
  "server_reading = \<lparr>rm_held = fst, rm_staged = snd\<rparr>"

lemma server_select [simp]:
  "ap_config (server_app b) = sample_config" "ap_now (server_app b) = 1000000000"
  "ap_send (server_app b) = rl_server b" "cr_json (ap_crates (server_app b)) body = Inr server_json"
  "ap_pg (server_app b) = (to_ascii_lowercase, \<lambda>s p. True)"
  by (simp_all add: server_app_def)

lemma server_base: "rl_base (server_app b) = ''https://api.example''"
  by (simp add: rl_base_def sample_config_def trim_end_matches_def)

lemma server_users_path:
  assumes "path_segment g" "path_segment r"
  shows "server_path (users_url (server_app b) g r) = [g, r, ''users'']"
    and "server_path (users_url (server_app b) g r @ CHR ''/'' # rest) =
      g # r # ''users'' # split_all (CHR ''/'') rest"
proof -
  have "''https://api.example'' @ ''/api/role-link/'' @ s = ''https://api.example/api/role-link/'' @ s" for s
    by simp
  then have url: "users_url (server_app b) g r @ s =
      ''https://api.example/api/role-link/'' @ (g @ CHR ''/'' # r @ CHR ''/'' # ''users'' @ s)" for s
    unfolding users_url_def server_base by simp
  have strip: "server_path (users_url (server_app b) g r @ s) =
      split_all (CHR ''/'') (g @ CHR ''/'' # r @ CHR ''/'' # ''users'' @ s)" for s
    unfolding server_path_def url by (simp only: strip_prefix_append option.case)
  have "split_all (CHR ''/'') ''users'' = [''users'']" by (rule split_all_single) simp
  then show "server_path (users_url (server_app b) g r) = [g, r, ''users'']"
    using strip [of "[]"] assms by (simp only: append_Nil2 path_segment_def split_all_append not_False_eq_True)
  have "split_all (CHR ''/'') (''users'' @ CHR ''/'' # rest) = ''users'' # split_all (CHR ''/'') rest"
    by (rule split_all_append) simp
  then show "server_path (users_url (server_app b) g r @ CHR ''/'' # rest) =
      g # r # ''users'' # split_all (CHR ''/'') rest"
    using strip [of "CHR ''/'' # rest"] assms by (simp only: path_segment_def split_all_append not_False_eq_True)
qed

lemma server_effectI:
  assumes "\<And>w. read (apply_call (rq_method rq) (server_path (rq_url rq)) (rq_json rq) w) = f w"
  shows "effect (server_app b) read rq f"
  using assms by (auto simp: effect_def rl_server_def is_success_def)

lemma server_upload_id: "upload_id_of (server_app b) resp = Some ''u''"
  by (simp add: upload_id_of_def rl_json_def json_body_def parse_as_def server_json_def json_at_def)

lemma split_segment: "path_segment u \<Longrightarrow> split_all (CHR ''/'') u = [u]"
  by (simp add: path_segment_def split_all_single)

lemma server_upload_paths:
  assumes "path_segment g" "path_segment r"
  shows "server_path (users_url (server_app b) g r @ ''/upload'') = [g, r, ''users'', ''upload'']"
    and "path_segment u \<Longrightarrow> server_path (upload_url (server_app b) g r u) = [g, r, ''users'', ''upload'', u]"
    and "path_segment u \<Longrightarrow>
      server_path (upload_url (server_app b) g r u @ ''/chunk'') = [g, r, ''users'', ''upload'', u, ''chunk'']"
    and "path_segment u \<Longrightarrow>
      server_path (upload_url (server_app b) g r u @ ''/commit'') = [g, r, ''users'', ''upload'', u, ''commit'']"
proof -
  note path = server_users_path(2) [OF assms]
  have deep: "split_all (CHR ''/'') (''upload'' @ CHR ''/'' # u @ CHR ''/'' # what) = [''upload'', u, what]"
    if "path_segment u" "path_segment what" for u what
    using that by (simp add: path_segment_def split_all_append split_all_single del: append_Cons)
  have two: "split_all (CHR ''/'') (''upload'' @ CHR ''/'' # u) = [''upload'', u]" if "path_segment u" for u
    using that by (simp add: path_segment_def split_all_append split_all_single del: append_Cons)
  have "split_all (CHR ''/'') ''upload'' = [''upload'']" by (rule split_all_single) simp
  then show "server_path (users_url (server_app b) g r @ ''/upload'') = [g, r, ''users'', ''upload'']"
    using path [of b "''upload''"] by simp
  have upath: "server_path (upload_url (server_app b) g r u @ CHR ''/'' # what) = [g, r, ''users'', ''upload'', u, what]"
    if "path_segment u" "path_segment what" for u what
    using path [of b "''upload'' @ CHR ''/'' # u @ CHR ''/'' # what"] deep [OF that] by (simp add: upload_url_def)
  have segs: "path_segment ''chunk''" "path_segment ''commit''" by (simp_all add: path_segment_def)
  assume u: "path_segment u"
  show "server_path (upload_url (server_app b) g r u) = [g, r, ''users'', ''upload'', u]"
    using path [of b "''upload'' @ CHR ''/'' # u"] two [OF u] by (simp add: upload_url_def)
  show "server_path (upload_url (server_app b) g r u @ ''/chunk'') = [g, r, ''users'', ''upload'', u, ''chunk'']"
    "server_path (upload_url (server_app b) g r u @ ''/commit'') = [g, r, ''users'', ''upload'', u, ''commit'']"
    using upath [OF u segs(1)] upath [OF u segs(2)] by simp_all
qed

lemma server_link_effects:
  assumes "path_segment g" "path_segment r"
  shows "link_effects (server_app b) server_reading g r tok"
proof -
  note path = server_users_path [OF assms]
  note spath = server_upload_paths(1) [OF assms]
  note cpath = server_upload_paths(2) [OF assms]
  note chunk = server_upload_paths(3,4) [OF assms]
  note single = split_segment
  have strs: "body_users (Some (JArr (map JStr us))) = set us" for us
    by (induction us) (simp_all add: body_users_def List.map_filter_def)
  note calls = rl_request_def apply_call_def server_reading_def strs
  have start: "is_success resp \<Longrightarrow> upload_id_of (server_app b) resp = Some u \<Longrightarrow>
      path_segment u \<and> rm_staged server_reading w' (g, r, u) = {}"
    if "ap_send (server_app b) (start_request (server_app b) g r tok) w = (Inr resp, w')" for w resp w' u
    using that server_upload_id [of b resp]
    by (auto simp: rl_server_def start_request_def calls spath path_segment_def
        split: if_splits prod.splits)
  show ?thesis
    unfolding link_effects_def
  proof (intro conjI allI impI)
    show "effect (server_app b) (rm_held server_reading) (put_request (server_app b) g r us tok)
        (\<lambda>w. (rm_held server_reading w)((g, r) := set us))" for us
      by (rule server_effectI) (simp add: put_request_def calls path(1) split: prod.split)
    show "effect (server_app b) (rm_held server_reading) (member_request (server_app b) POST g r u tok)
        (\<lambda>w. (rm_held server_reading w)((g, r) := insert u (rm_held server_reading w (g, r))))"
      "effect (server_app b) (rm_held server_reading) (member_request (server_app b) DELETE g r u tok)
        (\<lambda>w. (rm_held server_reading w)((g, r) := rm_held server_reading w (g, r) - {u}))"
      if "member_segment u" for u
      using that
      by (auto intro!: server_effectI simp: member_request_def calls path(2) single member_segment_def
          split: prod.split)
    show "effect (server_app b) (rm_held server_reading) (start_request (server_app b) g r tok) (rm_held server_reading)"
      by (rule server_effectI) (simp add: start_request_def calls spath split: prod.split)
    show "effect (server_app b) (rm_held server_reading) (chunk_request (server_app b) g r u tok us) (rm_held server_reading)"
      "effect (server_app b) (rm_staged server_reading) (chunk_request (server_app b) g r u tok us)
        (\<lambda>w. (rm_staged server_reading w)((g, r, u) := rm_staged server_reading w (g, r, u) \<union> set us))"
      "effect (server_app b) (rm_held server_reading) (commit_request (server_app b) g r u tok)
        (\<lambda>w. (rm_held server_reading w)((g, r) := rm_staged server_reading w (g, r, u)))"
      "effect (server_app b) (rm_held server_reading) (cancel_request (server_app b) g r u tok) (rm_held server_reading)"
      if "path_segment u" for u us
      using that
      by (auto intro!: server_effectI simp: chunk_request_def commit_request_def cancel_request_def calls
          chunk cpath split: prod.split)
  qed (use start in blast)+
qed

lemma server_ok: "rolelogic_ok (server_app b) server_reading"
  unfolding rolelogic_ok_def
proof (intro conjI allI impI)
  fix rq :: request and w
  assume "rq_method rq = GET \<or> \<not> prefix (rl_base (server_app b)) (rq_url rq)"
  then consider "rq_method rq = GET" | "server_path (rq_url rq) = []"
    by (auto simp: server_base server_path_def strip_prefix_Some_iff prefix_def split: option.split)
  then show "rm_held server_reading (snd (ap_send (server_app b) rq w)) = rm_held server_reading w"
    by cases (cases "rq_method rq"; simp add: rl_server_def apply_call_def server_reading_def
        split: prod.split)+
qed (rule server_link_effects)

lemma server_answers: "answers_all (server_app False)"
  by (simp add: answers_all_def rl_server_def)

lemma server_pds: "pds_apart (server_app b)"
  by (simp add: pds_apart_def server_base pds_def sample_config_def trim_end_matches_def)

definition empty_server :: rl_state where
  "empty_server = (\<lambda>_. {}, \<lambda>_. {})"

lemma sample_mirror: "mirror_ok server_reading (sample_db, empty_server)"
  by (simp add: mirror_ok_def links_addressable_def in_step_def server_reading_def empty_server_def
      local_users_def sample_link_def path_segment_def)

subsection \<open>In step\<close>

text \<open>
  C4: after every pass of the worker RoleLogic holds, for each role link, exactly the members the
  plugin has recorded, if it did before and answers all calls: whatever jobs ran, and whatever it refused.
\<close>

theorem worker_keeps_rolelogic_in_step:
  assumes "rolelogic_ok app rm" and "answers_all app" and "pds_apart app"
    and "\<forall>j \<in> set (jobs (fst s)). job_addressable j" and "mirror_ok rm s"
    and "worker_pass app w reap_due skip turn s = Some s'"
  shows "mirror_ok rm s'"
  using assms by (rule worker_pass_mirror)

lemma worker_keeps_rolelogic_in_step_witness:
  "\<exists>s'. worker_pass (server_app False) ''w'' True (\<lambda>i. False) (\<lambda>i. (False, 0)) (sample_db, empty_server) = Some s' \<and>
     mirror_ok server_reading s'"
proof -
  obtain s' where run: "worker_pass (server_app False) ''w'' True (\<lambda>i. False) (\<lambda>i. (False, 0))
      (sample_db, empty_server) = Some s'"
    using sample_pass_returns [of "server_app False" empty_server] by auto
  have "\<forall>j \<in> set (jobs (fst (sample_db, empty_server))). job_addressable j"
    by (simp add: job_addressable_def decode_player_payload_def sample_job_def new_job_def config_payload_def req_def)
  from worker_keeps_rolelogic_in_step [OF server_ok server_answers server_pds this sample_mirror run] run
  show ?thesis by blast
qed

text \<open>
  C7: once RoleLogic has accepted the upload of a bulk sync, it holds for that role exactly the members
  the rule selects, also when nothing had to be sent.
\<close>

theorem bulk_sync_reaches_rolelogic:
  assumes "rolelogic_ok app rm" and "answers_all app" and "mirror_ok rm s"
    and "find_link g r (fst s) = Some link" and "\<not> grants_nobody link"
    and "fetch_guild_member_ids app g (snd s) = (Inr ids, w1)" and "ids \<noteq> []"
    and "get_user_info app g r (rl_token link) w1 = (Inr (n, limit), w2)"
    and "select_qualifying app (fst s) (rl_account link) (tree_of_json (rl_tree link)) ids limit = Inr us"
    and "upload_users app g r us (rl_token link) w2 = (Inr k, w3)"
    and "sync_for_role_link app g r s = (x, s')"
  shows "rm_held rm (snd s') (g, r) = set us"
proof -
  have ok: "db_ok (fst s)" using assms(3) by (simp add: mirror_ok_def full_ok_def)
  have run: "write_members app g r link ids limit (fst s, w2) = (x, s')"
    using assms(4-8,11) by (simp add: sync_for_role_link_def io_then_def on_world_def)
  have local: "local_users g r (fst s') = us"
    using write_members_mirror [of "(fst s, w2)", OF _ _ _ run] ok assms(9,10) by simp
  have links: "role_links (fst s') = role_links (fst s)"
    using run assms(9,10)
    by (auto simp: write_members_def io_then_def after_upload_def on_world_def replace_assignments_def
        clear_assignments_def Let_def split: if_splits)
  have "mirror_ok rm s'" using role_link_mirror [OF assms(1-3), of g r] assms(11) by simp
  moreover have "link \<in> set (role_links (fst s'))" "link_key link = (g, r)"
    using assms(4) links by (auto simp: find_link_def dest: find_row_Some_in)
  ultimately show ?thesis using local by (auto simp: mirror_ok_def in_step_def link_key_def)
qed

lemma server_calls:
  "fetch_guild_member_ids (server_app False) g w = (Inr [''1''], w)"
  "get_user_info (server_app False) g r tok w = (Inr (0, 100), w)"
proof -
  have get: "rl_server False rq w = (Inr \<lparr>rs_status = 200, rs_body = []\<rparr>, w)" if "rq_method rq = GET" for rq
    using that by (simp add: rl_server_def apply_call_def)
  have "decode_guild_members server_json = Some ([''1''], None)"
    by (simp add: decode_guild_members_def server_json_def req_def opt_field_def dflt_def)
  then show "fetch_guild_member_ids (server_app False) g w = (Inr [''1''], w)"
    by (simp add: fetch_guild_member_ids_def fetch_guild_member_ids_full_def internal_call_def io_then_def
        send_req_def get is_success_def json_body_def parse_as_def)
  show "get_user_info (server_app False) g r tok w = (Inr (0, 100), w)"
    by (simp add: get_user_info_def io_then_def send_req_def get rl_request_def is_success_def rl_json_def
        json_body_def parse_as_def data_u64_def json_at_def server_json_def)
qed

lemma server_accepts: "\<exists>k w'. upload_users (server_app False) g r [''1''] tok w = (Inr k, w')"
proof -
  obtain w' where "rl_server False (rl_request PUT (users_url (server_app False) g r) tok (Some (JArr [JStr ''1'']))) w =
      (Inr \<lparr>rs_status = 200, rs_body = []\<rparr>, w')"
    by (simp add: rl_server_def)
  then show ?thesis
    by (simp add: upload_users_def put_max_users_def replace_users_def io_then_def send_req_def is_success_def
        rl_json_def json_body_def parse_as_def)
qed

lemma bulk_sync_reaches_rolelogic_witness:
  "rm_held server_reading (snd (snd (sync_for_role_link (server_app False) ''g'' ''r'' (sample_db, empty_server))))
     (''g'', ''r'') = {''1''}"
proof -
  have "rule_users (server_app False) sample_db ''did:a'' follower_tree [''1''] = [''1'']" by code_simp
  then have sel: "select_qualifying (server_app False) sample_db (Some ''did:a'') follower_tree [''1''] 100 = Inr [''1'']"
    by (simp add: select_qualifying_def limit_is_negative_def follower_tree_def)
  have acc: "rl_account sample_link = Some ''did:a''" by (simp add: sample_link_def)
  obtain k w3 where up: "upload_users (server_app False) ''g'' ''r'' [''1''] (rl_token sample_link) empty_server = (Inr k, w3)"
    using server_accepts by blast
  have link: "find_link ''g'' ''r'' (fst (sample_db, empty_server)) = Some sample_link"
    by (simp add: find_link_def find_row_def link_key_def sample_link_def)
  have nob: "\<not> grants_nobody sample_link"
    by (simp add: grants_nobody_def acc) (simp add: follower_tree_def)
  have sel': "select_qualifying (server_app False) (fst (sample_db, empty_server)) (rl_account sample_link)
      (tree_of_json (rl_tree sample_link)) [''1''] 100 = Inr [''1'']" using sel acc by simp
  obtain x s' where run: "sync_for_role_link (server_app False) ''g'' ''r'' (sample_db, empty_server) = (x, s')"
    by (rule prod.exhaust)
  from bulk_sync_reaches_rolelogic [OF server_ok server_answers sample_mirror link nob server_calls(1) _
      server_calls(2) sel' _ run] up run
  show ?thesis by simp
qed

subsection \<open>Out of step\<close>

text \<open>
  C37: when RoleLogic gives a role and its answer is lost, the plugin records nothing. If the member then
  stops satisfying the rule, the next per-player sync sees nobody to remove and the member keeps the role.
\<close>

theorem lost_answer_leaves_the_role:
  assumes "ap_send app (member_request app POST g r user tok) w = (Inl e, w1)"
    and "user \<in> rm_held rm w1 (g, r)"
    and "rolelogic_ok app' rm" and "full_ok d'" and "links_addressable d'" and "member_segment user"
    and "l \<in> set (role_links d')" and "link_key l = (g, r)" and "(g, r, user) \<notin> held_keys d'"
    and "\<forall>gs. \<not> qualifies app' (ensure_baseline_relations (ap_now app') user gs d') user l"
    and "sync_for_player app' user (d', w1) = (x, s')"
  shows "perform_action app user (ActAdd g r tok) (d, w) = (d, w1) \<and> user \<in> rm_held rm (snd s') (g, r)"
proof
  show "perform_action app user (ActAdd g r tok) (d, w) = (d, w1)"
    using assms(1) by (simp add: add_user_def member_request_def io_then_def send_req_def)
  have "plan_action app' (ensure_baseline_relations (ap_now app') user gs d') user l = None" for gs
    using assms(8-10) by (simp add: plan_action_def Let_def baseline_other_tables link_key_def)
  then have "rm_held rm (snd s') (link_key l) = rm_held rm w1 (link_key l)"
    using unplanned_untouched [OF assms(3) _ _ assms(6) _ _ assms(11)] assms(4,5,7) by (simp add: full_ok_def)
  with assms(2,8) show "user \<in> rm_held rm (snd s') (g, r)" by simp
qed

text \<open>The member stopped following, the answer to the first call was lost.\<close>

definition unfollowed_db :: db where
  "unfollowed_db = sample_db\<lparr>relations := []\<rparr>"

lemma lost_answer_leaves_the_role_witness:
  "\<exists>w1. perform_action (server_app True) ''1'' (ActAdd ''g'' ''r'' ''tok'') (sample_db, empty_server) = (sample_db, w1) \<and>
     ''1'' \<in> rm_held server_reading
       (snd (snd (sync_for_player (server_app False) ''1'' (unfollowed_db, w1)))) (''g'', ''r'')"
proof -
  have seg: "path_segment ''g''" "path_segment ''r''" "path_segment ''1''" by (simp_all add: path_segment_def)
  let ?rq = "member_request (server_app True) POST ''g'' ''r'' ''1'' ''tok''"
  obtain w1 where lost: "ap_send (server_app True) ?rq empty_server = (Inl ''timeout'', w1)"
    by (simp add: rl_server_def member_request_def rl_request_def)
  have "server_path (rq_url ?rq) = [''g'', ''r'', ''users'', ''1'']"
    using server_users_path(2) [OF seg(1,2), of True "''1''"]
    by (simp add: member_request_def rl_request_def)
  then have given: "''1'' \<in> rm_held server_reading w1 (''g'', ''r'')"
    using lost by (auto simp: rl_server_def apply_call_def server_reading_def empty_server_def
        member_request_def rl_request_def)
  have ok: "full_ok unfollowed_db" 
    using sample_full_ok by (simp add: unfollowed_db_def full_ok_def db_ok_def keys_ok_def refs_ok_def queue_ok_def
        unique_key_def)
  have base: "ensure_baseline_relations now ''1'' gs unfollowed_db = unfollowed_db" for now gs
    by (simp add: ensure_baseline_relations_def unfollowed_db_def split: option.split)
  have not: "\<not> qualifies (server_app False) unfollowed_db ''1'' sample_link" by code_simp
  have none: "\<forall>gs. \<not> qualifies (server_app False)
      (ensure_baseline_relations (ap_now (server_app False)) ''1'' gs unfollowed_db) ''1'' sample_link"
    by (simp add: base not)
  obtain x s' where run: "sync_for_player (server_app False) ''1'' (unfollowed_db, w1) = (x, s')"
    by (rule prod.exhaust)
  have "perform_action (server_app True) ''1'' (ActAdd ''g'' ''r'' ''tok'') (sample_db, empty_server) = (sample_db, w1) \<and>
      ''1'' \<in> rm_held server_reading (snd s') (''g'', ''r'')"
    by (rule lost_answer_leaves_the_role [OF lost given server_ok ok _ _ _ _ _ none run])
      (use seg in \<open>simp_all add: unfollowed_db_def links_addressable_def member_segment_def sample_link_def
        link_key_def\<close>)
  with run show ?thesis by auto
qed

end
