(* ===== verification/Queue_Liveness.thy ===== *)
theory Queue_Liveness
  imports Worker
begin

section \<open>Jobs are not starved\<close>

text \<open>
  A worker claims the eight due jobs of smallest id that no other transaction has locked. \<open>waiting\<close> counts
  the pending jobs with a smaller id than a given one, due or not. Every claim that could have taken the
  job and passed it over takes eight of them (\<open>claim_progress\<close>); new jobs have larger ids, and the count
  grows only by jobs that are put back, by a retry or by the reaper: \<open>put_back\<close> (\<open>event_waiting\<close>).
\<close>

definition older :: "int \<Rightarrow> job \<Rightarrow> bool" where
  "older i j \<longleftrightarrow> j_status j = Pending \<and> j_id j < i"

definition waiting :: "int \<Rightarrow> db \<Rightarrow> nat" where
  "waiting i d = length (filter (older i) (jobs d))"

datatype queue_event =
    EvEnqueue instant job_kind json int
  | EvRecheck instant string string int
  | EvClaim instant "int \<Rightarrow> bool" string
      \<comment> \<open>the ids other transactions have locked, and the claimer\<close>
  | EvComplete instant int
  | EvRetry instant int job string
  | EvDead instant int string
  | EvReap instant int

fun event_step :: "queue_event \<Rightarrow> db \<Rightarrow> job list \<times> db" where
  "event_step (EvEnqueue now k p s) d = ([], enqueue now k p s d)"
| "event_step (EvRecheck now g r s) d = ([], enqueue_config_sync_unless_queued now g r s d)"
| "event_step (EvClaim now skip w) d = claim_batch now skip w batch_size d"
| "event_step (EvComplete now i) d = ([], complete now i d)"
| "event_step (EvRetry now jitter j err) d = ([], fail_retry now jitter j err d)"
| "event_step (EvDead now i err) d = ([], fail_dead now i err d)"
| "event_step (EvReap now limit) d = ([], snd (reap_stuck now limit d))"

fun claims_of :: "queue_event list \<Rightarrow> db \<Rightarrow> job list" where
  "claims_of [] d = []"
| "claims_of (e # es) d = (let (js, d') = event_step e d in js @ claims_of es d')"

text \<open>The claims that could take the job, and the older jobs an event makes pending again.\<close>

fun offers :: "job \<Rightarrow> queue_event \<Rightarrow> bool" where
  "offers j (EvClaim now skip _) = claimable now skip j"
| "offers j _ = False"

fun put_back :: "int \<Rightarrow> queue_event \<Rightarrow> db \<Rightarrow> nat" where
  "put_back i (EvRetry _ _ j _) d =
     length (filter (\<lambda>r. j_id r = j_id j \<and> j_status r \<noteq> Pending \<and> j_id r < i) (jobs d))"
| "put_back i (EvReap now limit) d = length (filter (\<lambda>r. stuck now limit r \<and> j_id r < i) (jobs d))"
| "put_back i _ d = 0"

fun put_back_by :: "int \<Rightarrow> queue_event list \<Rightarrow> db \<Rightarrow> nat" where
  "put_back_by i [] d = 0"
| "put_back_by i (e # es) d = put_back i e d + put_back_by i es (snd (event_step e d))"

text \<open>Statements by id that name another job than \<open>i\<close>.\<close>

fun spares :: "int \<Rightarrow> queue_event \<Rightarrow> bool" where
  "spares i (EvComplete _ k) = (k \<noteq> i)"
| "spares i (EvRetry _ _ j _) = (j_id j \<noteq> i)"
| "spares i (EvDead _ k _) = (k \<noteq> i)"
| "spares i _ = True"

lemma filter_update_fewer:
  "(\<And>x. Q x \<Longrightarrow> P (f x) \<Longrightarrow> P x) \<Longrightarrow> length (filter P (update_where Q f xs)) \<le> length (filter P xs)"
  by (induction xs) (auto simp: update_where_def intro: le_SucI)

lemma filter_update_gain:
  "(\<And>x. Q x \<Longrightarrow> P (f x) \<Longrightarrow> P x \<or> N x) \<Longrightarrow>
   length (filter P (update_where Q f xs)) \<le> length (filter P xs) + length (filter N xs)"
  by (induction xs) (auto simp: update_where_def intro: le_SucI)

lemma event_ok: "queue_ok d \<Longrightarrow> queue_ok (snd (event_step e d))"
  by (cases e) (simp_all add: queue_ok_ops)

lemma event_waiting:
  assumes "i < next_job_id d"
  shows "waiting i (snd (event_step e d)) \<le> waiting i d + put_back i e d"
proof (cases e)
  case (EvRetry now jitter j err)
  then show ?thesis
    unfolding waiting_def by (auto simp: fail_retry_def older_def intro!: filter_update_gain)
next
  case (EvReap now limit)
  then show ?thesis
    unfolding waiting_def by (auto simp: reap_stuck_def older_def intro!: filter_update_gain)
qed (use assms in \<open>auto simp: waiting_def older_def enqueue_def enqueue_config_sync_unless_queued_def new_job_def
    claim_batch_def Let_def claim_row_def complete_def fail_dead_def intro!: filter_update_fewer\<close>)

lemma event_next: "next_job_id d \<le> next_job_id (snd (event_step e d))"
  by (cases e) (simp_all add: enqueue_def enqueue_config_sync_unless_queued_def claim_batch_def Let_def
      complete_def fail_retry_def fail_dead_def reap_stuck_def)

lemma unclaimed_row:
  assumes "queue_ok d" "j \<in> set (jobs d)" "j_id j \<notin> j_id ` set (fst (claim_batch now skip w n d))"
  shows "j_id j \<notin> set (claim_ids now skip n d)"
proof
  assume "j_id j \<in> set (claim_ids now skip n d)"
  with assms(2) have "claim_row now w j \<in> set (fst (claim_batch now skip w n d))"
    by (auto simp: claim_batch_def Let_def set_update_where claim_row_def image_iff)
  moreover have "j_id (claim_row now w j) = j_id j" by (simp add: claim_row_def)
  ultimately show False using assms(3) by (metis imageI)
qed

lemma missed_row: "r \<in> set rows \<Longrightarrow> \<not> P r \<Longrightarrow> r \<in> set (update_where P f rows)"
  by (auto simp: set_update_where image_iff)

lemma event_keeps_job:
  assumes "queue_ok d" "j \<in> set (jobs d)" "j_status j = Pending" "spares (j_id j) e"
    and "j_id j \<notin> j_id ` set (fst (event_step e d))"
  shows "j \<in> set (jobs (snd (event_step e d)))"
proof (cases e)
  case (EvClaim now skip w)
  with assms(5) have "j_id j \<notin> set (claim_ids now skip batch_size d)"
    using unclaimed_row [OF assms(1,2), of now skip w batch_size] by simp
  with EvClaim assms(2) show ?thesis by (simp add: claim_batch_def Let_def missed_row)
next
  case (EvReap now limit)
  have "\<not> stuck now limit j" using assms(3) by (simp add: stuck_def)
  with assms(2) EvReap show ?thesis by (simp add: reap_stuck_def missed_row)
qed (use assms(2,4) in \<open>simp_all add: enqueue_def enqueue_config_sync_unless_queued_def complete_def fail_retry_def
    fail_dead_def missed_row\<close>)

text \<open>A claim that passes a claimable job over takes a full batch from before it.\<close>

lemma claim_progress:
  assumes ok: "queue_ok d" and j: "j \<in> set (jobs d)" "claimable now skip j"
    and passed: "j_id j \<notin> set (claim_ids now skip n d)"
  shows "waiting (j_id j) (snd (claim_batch now skip w n d)) + n \<le> waiting (j_id j) d"
proof -
  let ?ids = "claim_ids now skip n d" and ?P = "older (j_id j)"
  let ?all = "map j_id (filter (claimable now skip) (jobs d))"
  have distinct: "distinct ?all"
    using ok by (simp add: queue_ok_def unique_key_def distinct_map_filter)
  have len: "length ?ids = n"
  proof (rule ccontr)
    assume "length ?ids \<noteq> n"
    then have "?ids = sort ?all" by (simp add: claim_ids_def)
    with j passed show False by simp
  qed
  have taken: "set ?ids \<subseteq> j_id ` set (filter (\<lambda>x. ?P x \<and> j_id x \<in> set ?ids) (jobs d))"
  proof
    fix i assume i: "i \<in> set ?ids"
    from claim_ids_in [OF i] obtain x where x: "x \<in> set (jobs d)" "j_id x = i" "claimable now skip x"
      by blast
    have "i \<le> j_id j" using claim_oldest_first [OF i j passed] .
    moreover have "i \<noteq> j_id j" using i passed by auto
    ultimately have "?P x" using x by (auto simp: older_def claimable_def)
    with x i show "i \<in> j_id ` set (filter (\<lambda>x. ?P x \<and> j_id x \<in> set ?ids) (jobs d))" by auto
  qed
  have "n = card (set ?ids)"
    using len distinct by (simp add: claim_ids_def distinct_card)
  also have "\<dots> \<le> card (j_id ` set (filter (\<lambda>x. ?P x \<and> j_id x \<in> set ?ids) (jobs d)))"
    using taken by (intro card_mono) auto
  also have "\<dots> \<le> length (filter (\<lambda>x. ?P x \<and> j_id x \<in> set ?ids) (jobs d))"
    by (meson card_image_le card_length finite_set order_trans)
  finally have n: "n \<le> length (filter (\<lambda>x. ?P x \<and> j_id x \<in> set ?ids) (jobs d))" .
  have "filter ?P (update_where (\<lambda>x. j_id x \<in> set ?ids) (claim_row now w) xs) =
      filter (\<lambda>x. ?P x \<and> j_id x \<notin> set ?ids) xs" for xs
    by (induction xs) (auto simp: update_where_def older_def claim_row_def)
  then have after: "waiting (j_id j) (snd (claim_batch now skip w n d)) =
      length (filter (\<lambda>x. ?P x \<and> j_id x \<notin> set ?ids) (jobs d))"
    by (simp add: waiting_def claim_batch_def Let_def)
  have "length (filter (\<lambda>x. ?P x \<and> j_id x \<in> set ?ids) xs) +
      length (filter (\<lambda>x. ?P x \<and> j_id x \<notin> set ?ids) xs) = length (filter ?P xs)" for xs
    by (induction xs) auto
  from this [of "jobs d"] have "waiting (j_id j) d = length (filter (\<lambda>x. ?P x \<and> j_id x \<in> set ?ids) (jobs d)) +
      length (filter (\<lambda>x. ?P x \<and> j_id x \<notin> set ?ids) (jobs d))" by (simp only: waiting_def)
  with after n show ?thesis by linarith
qed

lemma claimed_in_time:
  assumes "queue_ok d" "j \<in> set (jobs d)" "j_status j = Pending" "list_all (spares (j_id j)) es"
    and "waiting (j_id j) d + put_back_by (j_id j) es d < batch_size * length (filter (offers j) es)"
  shows "j_id j \<in> j_id ` set (claims_of es d)"
  using assms(1,2,4,5)
proof (induction es arbitrary: d)
  case Nil
  then show ?case by simp
next
  case (Cons e es)
  obtain js d' where e: "event_step e d = (js, d')" by (rule prod.exhaust)
  have spared: "spares (j_id j) e" using Cons.prems(3) by simp
  show ?case
  proof (cases "j_id j \<in> j_id ` set js")
    case True
    with e show ?thesis by auto
  next
    case False
    have ok': "queue_ok d'" using event_ok [OF Cons.prems(1), of e] e by simp
    have j': "j \<in> set (jobs d')" using event_keeps_job [OF Cons.prems(1,2) assms(3) spared] False e by simp
    have below: "j_id j < next_job_id d"
      using Cons.prems(1,2) by (auto simp: queue_ok_def list_all_iff)
    have "waiting (j_id j) d' + put_back_by (j_id j) es d' < batch_size * length (filter (offers j) es)"
    proof (cases "offers j e")
      case True
      then obtain now skip w where cl: "e = EvClaim now skip w" by (cases e) auto
      have "j_id j \<notin> set (claim_ids now skip batch_size d)"
        using unclaimed_row [OF Cons.prems(1,2), of now skip w batch_size] False e cl by simp
      from claim_progress [OF Cons.prems(1,2) _ this, of w] True cl e Cons.prems(4) show ?thesis by simp
    next
      case other: False
      with event_waiting [OF below, of e] e Cons.prems(4) show ?thesis by simp
    qed
    from Cons.IH [OF ok' j' _ this] Cons.prems(3) e show ?thesis by auto
  qed
qed

end
