(* ===== verification/Queue_Properties.thy ===== *)
theory Queue_Properties
  imports Mirror_Properties Queue_Liveness
begin

section \<open>Claims on the life of a job\<close>

text \<open>That due jobs are not starved, and that a per-player sync whose calls fail is not repeated.\<close>

subsection \<open>Waiting\<close>

text \<open>
  C26: a waiting job is overtaken only by older ones. Whatever happens to the queue, jobs being queued,
  claimed, finished, given up, retried and reaped, in whatever order and at whatever times: if it does not
  name the job itself, the job is handed out at the latest when the claims that could take it (made when it
  is due, by a transaction that does not find its row locked) have room, eight jobs each, for more jobs than
  were pending before it and were put back before it meanwhile. What other transactions have locked is
  passed over by the claims, here by any rule.
\<close>

theorem due_jobs_are_claimed:
  assumes "queue_ok d" and "j \<in> set (jobs d)" and "j_status j = Pending" and "list_all (spares (j_id j)) es"
    and "waiting (j_id j) d + put_back_by (j_id j) es d < batch_size * length (filter (offers j) es)"
  shows "j_id j \<in> j_id ` set (claims_of es d)"
  using assms by (rule claimed_in_time)

definition ten_jobs :: db where
  "ten_jobs = empty_db\<lparr>jobs := map (\<lambda>i. new_job i ConfigSync (config_payload ''g'' ''r'') 0) [1..10], next_job_id := 11\<rparr>"

text \<open>
  Ten jobs; the first claim takes eight of the nine older ones, one of them fails and comes back, a worker
  that claimed another is reaped an hour later, and the second claim finds the row of job 3 locked.
\<close>

definition busy_queue :: "queue_event list" where
  "busy_queue = [EvClaim 5 (\<lambda>_. False) ''a'', EvEnqueue 6 PlayerSync (player_payload ''1'') 0, EvComplete 7 1,
     EvRetry 8 0 (new_job 2 ConfigSync (config_payload ''g'' ''r'') 0) ''e'', EvComplete 9 3, EvComplete 9 4,
     EvComplete 9 5, EvComplete 9 6, EvComplete 9 7, EvReap (secs 3600) stuck_lock_secs,
     EvClaim (secs 3601) (\<lambda>i. i = 2) ''b'']"

lemma due_jobs_are_claimed_witness:
  "10 \<in> j_id ` set (claims_of busy_queue ten_jobs)"
proof -
  let ?j = "new_job 10 ConfigSync (config_payload ''g'' ''r'') 0"
  have up: "[1..10] = [1, 2, 3, 4, 5, 6, 7, 8, 9, 10 :: int]" by code_simp
  have "queue_ok ten_jobs"
    by (simp add: queue_ok_def ten_jobs_def up unique_key_def row_ok_def new_job_def kind_from_db_def)
  moreover have "waiting 10 ten_jobs = 9" by (simp add: waiting_def older_def ten_jobs_def up new_job_def)
  moreover have "put_back_by 10 busy_queue ten_jobs = 2"
    by code_simp
  ultimately show ?thesis
    using due_jobs_are_claimed [of ten_jobs ?j busy_queue]
    by (simp add: ten_jobs_def up busy_queue_def new_job_def secs_def batch_size_def claimable_def)
qed

subsection \<open>Failing calls\<close>

definition calls_refused :: "'w app \<Rightarrow> bool" where
  "calls_refused app \<longleftrightarrow>
     (\<forall>g r u tok w. (\<exists>e w'. add_user app g r u tok w = (Inl e, w') \<and> e \<noteq> RoleLinkNotFound) \<and>
                    (\<exists>e w'. remove_user app g r u tok w = (Inl e, w') \<and> e \<noteq> RoleLinkNotFound))"

lemma refused_action: "calls_refused app \<Longrightarrow> fst (perform_action app u a st) = fst st"
proof -
  assume no: "calls_refused app"
  show ?thesis
  proof (cases a)
    case (ActAdd g r tok)
    obtain e w where "add_user app g r u tok (snd st) = (Inl e, w)" "e \<noteq> RoleLinkNotFound"
      using no unfolding calls_refused_def by blast
    with ActAdd show ?thesis by (cases e) auto
  next
    case (ActRemove g r tok)
    obtain e w where "remove_user app g r u tok (snd st) = (Inl e, w)" "e \<noteq> RoleLinkNotFound"
      using no unfolding calls_refused_def by blast
    with ActRemove show ?thesis by (cases e) auto
  qed
qed

lemma refused_actions:
  "calls_refused app \<Longrightarrow> fst (foldl (\<lambda>st a. perform_action app u a st) st as) = fst st"
  by (induction as arbitrary: st) (simp_all add: refused_action)

text \<open>
  C38: when RoleLogic refuses every call of a per-player sync, or cannot be reached, the job is completed
  all the same: no assignment is recorded or dropped, the row of the job is marked completed and the
  queue is otherwise what it was, so neither this job nor a new one tries the calls again, whatever the
  rules ask for.
\<close>

theorem refused_calls_are_not_retried:
  assumes "calls_refused app"
    and "kind_from_db (j_kind j) = Some PlayerSync" and "decode_player_payload (j_payload j) = Some user"
    and "fetch_user_guild_ids app user (snd s) = (Inr gs, w)"
    and "run_job app False jitter j s = Some s'"
  shows "assignments (fst s') = assignments (fst s) \<and> role_links (fst s') = role_links (fst s) \<and>
    jobs (fst s') = jobs (complete (ap_now app) (j_id j) (fst s)) \<and> next_job_id (fst s') = next_job_id (fst s) \<and>
    (\<forall>row \<in> set (jobs (fst s')). j_id row = j_id j \<longrightarrow> j_status row = Completed)"
proof -
  obtain x s1 where run: "sync_for_player app user s = (x, s1)" by (rule prod.exhaust)
  have x: "x = Inr ()" "assignments (fst s1) = assignments (fst s)" "role_links (fst s1) = role_links (fst s)"
    using run assms(4)
    by (auto simp: sync_for_player_def io_then_def on_world_def refused_actions [OF assms(1)]
        baseline_other_tables split: if_splits)
  have "s' = (complete (ap_now app) (j_id j) (fst s1), snd s1)"
    using assms(2,3,5) run x(1) by (simp add: run_job_def dispatch_def map_err_def total_def finish_job_def)
  moreover have "jobs (fst s1) = jobs (fst s)" "next_job_id (fst s1) = next_job_id (fst s)"
    using run player_sync_jobs [of app user s] player_sync_next [of app user s] by simp_all
  ultimately show ?thesis using x complete_ends by (auto simp: complete_def)
qed

definition refusing :: "request \<Rightarrow> unit \<Rightarrow> (string + response) \<times> unit" where
  "refusing rq w = (Inr \<lparr>rs_status = (if rq_method rq = GET then 200 else 500), rs_body = []\<rparr>, w)"

definition refusing_app :: "unit app" where
  "refusing_app = sample_app refusing (plain_crates\<lparr>cr_json := (\<lambda>s. Inr server_json)\<rparr>)"

lemma refused_calls_are_not_retried_witness:
  "\<exists>s'. run_job refusing_app False 0 (new_job 1 PlayerSync (player_payload ''1'') 0) (sample_db, ()) = Some s' \<and>
     assignments (fst s') = [] \<and> jobs (fst s') = jobs (complete 1000000000 1 sample_db) \<and>
     (\<forall>row \<in> set (jobs (fst s')). j_id row = 1 \<longrightarrow> j_status row = Completed)"
proof -
  let ?j = "new_job 1 PlayerSync (player_payload ''1'') 0"
  have refused: "calls_refused refusing_app"
    by (auto simp: calls_refused_def add_user_def remove_user_def io_then_def send_req_def refusing_app_def
        refusing_def rl_request_def is_success_def link_gone_def link_inactive_def rl_failed_def)
  have kind: "kind_from_db (j_kind ?j) = Some PlayerSync" by (simp add: new_job_def kind_from_db_def)
  have payload: "decode_player_payload (j_payload ?j) = Some ''1''"
    by (simp add: new_job_def decode_player_payload_def player_payload_def req_def)
  have "decode_user_guilds server_json = Some [''g'']"
    by (simp add: decode_user_guilds_def server_json_def req_def)
  then have guilds: "fetch_user_guild_ids refusing_app ''1'' (snd (sample_db, ())) = (Inr [''g''], ())"
    by (simp add: fetch_user_guild_ids_def internal_call_def io_then_def send_req_def refusing_app_def
        refusing_def is_success_def json_body_def parse_as_def)
  obtain s' where run: "run_job refusing_app False 0 ?j (sample_db, ()) = Some s'"
    using kind payload by (auto simp: run_job_def dispatch_def map_err_def total_def split: prod.splits sum.splits)
  from refused_calls_are_not_retried [OF refused kind payload guilds run] have
    "assignments (fst s') = []" "jobs (fst s') = jobs (complete 1000000000 1 sample_db)"
    "\<forall>row \<in> set (jobs (fst s')). j_id row = 1 \<longrightarrow> j_status row = Completed"
    by (simp_all add: new_job_def refusing_app_def)
  with run show ?thesis by blast
qed

end
