(* ===== verification/Page_Texts.thy ===== *)
theory Page_Texts
  imports Pages
begin

section \<open>The documents \<open>routes/admin.rs\<close> writes itself\<close>

text \<open>
  The three small documents of the role editor: the error in the frame of the dashboard, the page for
  a frame that came without a token, the sign-in page. Their lines are those of the format strings; in
  a literal a tilde stands for a double quote (\<open>quoted\<close>). \<open>page_text\<close> is the body of each \<open>page\<close>, whose
  message was escaped where the page was made; \<open>page_response\<close> is what the browser receives.

  \<open>message_adds_no_tag\<close>: the angle brackets of a document do not depend on the message in it.
\<close>

definition quoted :: "string \<Rightarrow> string" where
  "quoted s = map (\<lambda>c. if c = CHR ''~'' then CHR 0x22 else c) s"

fun joined_lines :: "string list \<Rightarrow> string" where
  "joined_lines [] = []"
| "joined_lines [l] = l"
| "joined_lines (l # ls) = l @ CHR 0x0A # joined_lines ls"

definition inline_error_text :: "string \<Rightarrow> string \<Rightarrow> string" where
  "inline_error_text base msg = joined_lines
     [quoted ''<!DOCTYPE html><html><head><meta charset=~utf-8~>'',
      quoted ''<meta name=~viewport~ content=~width=device-width, initial-scale=1~>'',
      quoted ''<title>Cannot load configuration</title>'',
      quoted ''<link rel=~icon~ href=~'' @ base @ quoted ''/favicon.ico~>'',
      quoted ''<style>body{font-family:system-ui,sans-serif;background:#0f1115;color:#e8eaed;padding:32px 24px;line-height:1.5}'',
      quoted ''h1{color:#fca5a5;font-size:18px;margin-bottom:10px}p{color:#9aa3b2}</style>'',
      quoted ''</head><body><h1>Cannot load configuration</h1><p>'' @ msg @ quoted ''</p>'',
      quoted ''<p style=~margin-top:14px;color:#7a8497~>If you opened this from the RoleLogic dashboard, close and reopen the role's plugin tab.</p>'',
      quoted ''</body></html>'']"

definition iframe_no_token_text :: "string \<Rightarrow> string" where
  "iframe_no_token_text base = joined_lines
     [quoted ''<!DOCTYPE html><html><head><meta charset=~utf-8~>'',
      quoted ''<meta name=~viewport~ content=~width=device-width, initial-scale=1~>'',
      quoted ''<title>Configuration unavailable</title>'',
      quoted ''<link rel=~icon~ href=~'' @ base @ quoted ''/favicon.ico~>'',
      quoted ''<style>body{font-family:system-ui,sans-serif;background:#0f1115;color:#e8eaed;padding:32px 24px;line-height:1.55;max-width:560px}'',
      quoted ''h1{color:#fbbf24;font-size:18px;margin:0 0 10px}p{color:#9aa3b2;margin:8px 0}'',
      quoted ''code{background:#0b0d12;padding:2px 6px;border-radius:4px;font-size:12px}</style>'',
      quoted ''</head><body>'',
      quoted ''<h1>RoleLogic didn't pass an authentication token</h1>'',
      quoted ''<p>This plugin page must be opened from inside the RoleLogic dashboard, which'',
      quoted ''attaches a one-time token. None arrived with this request.</p>'',
      quoted ''<p><strong>If you're the server admin:</strong> close this tab and reopen the'',
      quoted ''role's plugin tab from RoleLogic. If it keeps happening, the plugin is'',
      quoted (''mis-registered '' @ [CHR 0xE2, CHR 0x80, CHR 0x94] @ '' its <code>BASE_URL</code> must exactly match the URL''),
      quoted ''configured for this plugin in RoleLogic: HTTPS, no trailing slash, and'',
      quoted ''including the <code>/bluesky-account-role</code> path prefix.</p>'',
      quoted ''<p style=~color:#7a8497;font-size:12px;margin-top:16px~>Configured BASE_URL:'',
      quoted ''<code>'' @ base @ quoted ''</code></p>'',
      quoted ''</body></html>'']"

definition signin_text :: "string \<Rightarrow> string \<Rightarrow> string" where
  "signin_text base reason = joined_lines
     [quoted ''<!DOCTYPE html><html><head><meta charset=~utf-8~>'',
      quoted ''<meta name=~viewport~ content=~width=device-width, initial-scale=1~>'',
      quoted (''<title>Sign in '' @ [CHR 0xE2, CHR 0x80, CHR 0x94] @ '' Bluesky Account Role</title>''),
      quoted ''<link rel=~icon~ href=~'' @ base @ quoted ''/favicon.ico~>'',
      quoted ''<style>body{font-family:system-ui,sans-serif;background:#0f1115;color:#e8eaed;padding:48px 24px;max-width:520px;margin:0 auto;line-height:1.55}'',
      quoted ''h1{font-size:22px;margin:0 0 12px}p{color:#9aa3b2}'',
      quoted ''a.btn{display:inline-block;margin-top:18px;background:#5865f2;color:#fff;padding:12px 22px;border-radius:8px;text-decoration:none;font-weight:600}'',
      quoted ''.actions{display:flex;gap:10px;align-items:center;flex-wrap:wrap;margin-top:18px}'',
      quoted ''.actions a.btn{margin-top:0}'',
      quoted ''form.logout-form{margin:0}'',
      quoted ''button.logout{background:none;color:#8a93a4;border:1px solid #2a2f3a;'',
      quoted ''  padding:10px 16px;border-radius:8px;font-size:13px;font-weight:600;'',
      quoted ''  cursor:pointer;font-family:inherit}'',
      quoted ''button.logout:hover{color:#fca5a5;border-color:#5c2630}</style>'',
      quoted ''</head><body>'',
      quoted ''<h1>Sign in to continue</h1>'',
      quoted ''<p>You need <strong>Manage Server</strong> on this guild to edit its'',
      quoted ''Bluesky-Account-Role configuration.</p>'',
      quoted ''<p style=~color:#7a8497;font-size:12px~>'' @ reason @ quoted ''</p>'',
      quoted ''<div class=~actions~>'',
      quoted ''  <a class=~btn~ id=~login~>Sign in with Discord</a>'',
      quoted ''  <form class=~logout-form~ method=~POST~ action=~/auth/logout~>'',
      quoted ''    <button type=~submit~ class=~logout~>Sign out &amp; try another account</button>'',
      quoted ''  </form>'',
      quoted ''</div>'',
      quoted ''<script>'',
      quoted ''const ORIGIN=new URL(~'' @ base @ quoted ''~).origin;'',
      quoted ''const RET=encodeURIComponent(location.pathname);'',
      quoted ''document.getElementById('login').href=ORIGIN+'/auth/login?return_to='+RET;'',
      quoted ''document.querySelectorAll('form.logout-form').forEach(f=>{'',
      quoted ''  f.action=ORIGIN+'/auth/logout?return_to='+RET;'',
      quoted ''});'',
      quoted ''</script>'',
      quoted ''</body></html>'']"

fun page_text :: "string \<Rightarrow> 'w app \<Rightarrow> page \<Rightarrow> string" where
  "page_text template app (InlineError m) = inline_error_text (base_url (ap_config app)) m"
| "page_text template app IframeNoToken = iframe_no_token_text (base_url (ap_config app))"
| "page_text template app (Signin m) = signin_text (base_url (ap_config app)) m"
| "page_text template app (RoleConfigPage g r token read_only) = role_config_html template app g r token read_only"

definition page_response :: "string \<Rightarrow> 'w app \<Rightarrow> page \<Rightarrow> nat \<times> (string \<times> string) list \<times> string" where
  "page_response template app p = (page_status p, page_headers app p, page_text template app p)"

subsection \<open>What a message can do\<close>

definition brackets :: "string \<Rightarrow> string" where
  "brackets s = filter (\<lambda>c. c = CHR ''<'' \<or> c = CHR ''>'') s"

lemma brackets_append [simp]: "brackets (s @ t) = brackets s @ brackets t"
  by (simp add: brackets_def)

lemma brackets_escaped [simp]: "brackets (html_escape m) = []"
  using html_escape_safe [of m] by (auto simp: brackets_def filter_empty_conv)

lemma brackets_plain [simp]: "brackets [] = []" "brackets (CHR 0x0A # s) = brackets s"
  by (simp_all add: brackets_def)

lemma brackets_joined: "brackets (joined_lines ls) = concat (map brackets ls)"
  by (induction ls rule: joined_lines.induct) simp_all

lemma message_adds_no_tag:
  "brackets (inline_error_text base (html_escape m)) = brackets (inline_error_text base [])"
  "brackets (signin_text base (html_escape m)) = brackets (signin_text base [])"
  by (simp_all add: inline_error_text_def signin_text_def brackets_joined del: joined_lines.simps)

end
