(* ===== verification/Middleware.thy ===== *)
theory Middleware
  imports Server Page_Texts
begin

section \<open>What leaves the program: heads of answers and the layers of \<open>main.rs\<close>\<close>

text \<open>
  \<open>answer_head\<close> is the status and the headers of what a handler answers. An arriving request is turned
  away by the rate limiter, answered by the CORS layer when it is a preflight, or served; \<open>respond\<close> puts
  the layers of \<open>main.rs\<close> around that. \<open>tower_governor\<close> and \<open>tower_http\<close> are not part of the repository:
  the head of a rejection, of a preflight and the headers the inner layers add are arguments
  (\<open>arrival\<close>), their settings are the constants below.

  \<open>respond_head\<close>: only the role editor's documents say who may embed them, and every other answer says
  that nobody may, whichever layer gave it.
\<close>

subsection \<open>Settings of the layers\<close>

record cors_settings =
  co_origins :: "string list"
  co_methods :: "string list"
  co_headers :: "string list"
  co_credentials :: bool
  co_max_age_secs :: nat

definition cors_layer :: "app_config \<Rightarrow> cors_settings" where
  "cors_layer cfg =
     \<lparr>co_origins = allowed_origins cfg, co_methods = [''GET'', ''POST'', ''PUT'', ''DELETE'', ''OPTIONS''],
      co_headers = [''content-type'', ''authorization'', ''x-rl-preview''], co_credentials = True,
      co_max_age_secs = 600\<rparr>"

record rate_settings =
  ra_period_ms :: nat
  ra_burst :: nat

definition rate_limit :: rate_settings where
  "rate_limit = \<lparr>ra_period_ms = 200, ra_burst = 20\<rparr>"

definition body_limit :: nat where "body_limit = 256 * 1024"

definition redacted_headers :: "string list" where
  "redacted_headers = [''authorization'', ''cookie'', ''x-internal-key'']"

subsection \<open>Heads of answers\<close>

type_synonym head = "nat \<times> (string \<times> string) list"

definition favicon_head :: head where
  "favicon_head =
     (200, [(''content-type'', ''image/x-icon''), (''cache-control'', ''public, max-age=2592000, immutable'')])"

fun reply_head :: "'w app \<Rightarrow> reply \<Rightarrow> head" where
  "reply_head app (Json st j) = (st, [(''content-type'', ''application/json'')])"
| "reply_head app (Html p) = (page_status p, page_headers app p)"
| "reply_head app (Static f) = (if f = ''favicon.ico'' then favicon_head else (200, [html_type]))"
| "reply_head app (Redirect url) = (303, [(''location'', url)])"
| "reply_head app (Refused st) = (st, [])"

text \<open>The set-up probe writes its headers itself.\<close>

definition answer_head :: "'w app \<Rightarrow> http_call \<Rightarrow> db \<Rightarrow> reply \<Rightarrow> head" where
  "answer_head app c d reply =
     (if route (ca_method c) (ca_path c) = To DweebStatus
      then (let p = status (ca_query c ''guild'') (\<lambda>g. Inr (role_count g d)) in (pb_status p, probe_headers p))
      else reply_head app reply)"

subsection \<open>The layers\<close>

text \<open>\<open>HeaderMap::insert\<close>, and the error handler of the rate limiter.\<close>

definition set_header :: "string \<times> string \<Rightarrow> (string \<times> string) list \<Rightarrow> (string \<times> string) list" where
  "set_header kv hs = filter (\<lambda>h. fst h \<noteq> fst kv) hs @ [kv]"

definition rate_rejection :: "head \<Rightarrow> head" where
  "rate_rejection h = (fst h, set_header (''connection'', ''close'') (snd h))"

datatype arrival =
    Limited head
  | Preflight head
  | Call http_call "(string \<times> string) list"

fun respond :: "'w app \<Rightarrow> probes \<Rightarrow> arrival \<Rightarrow> db \<times> 'w \<Rightarrow> head \<times> (db \<times> 'w)" where
  "respond app pr (Limited h) s = ((fst h, baseline (snd (rate_rejection h))), s)"
| "respond app pr (Preflight h) s = ((fst h, baseline (snd h)), s)"
| "respond app pr (Call c added) s =
     (case serve app pr c s of (reply, s') \<Rightarrow>
      case answer_head app c (fst s) reply of (st, hs) \<Rightarrow> ((st, baseline (hs @ added)), s'))"

subsection \<open>Who may embed an answer\<close>

definition csp_of :: "(string \<times> string) list \<Rightarrow> string option" where
  "csp_of hs = map_of hs ''content-security-policy''"

definition nobody_embeds :: string where
  "nobody_embeds = ''frame-ancestors '' @ CHR 0x27 # ''none'' @ [CHR 0x27]"

lemma map_of_header_other:
  "k \<noteq> fst kv \<Longrightarrow> map_of (header_or_insert kv hs) k = map_of hs k"
  by (simp add: header_or_insert_def map_add_def split: option.split)

lemma foldl_header_other:
  "k \<notin> fst ` set kvs \<Longrightarrow> map_of (foldl (\<lambda>hs kv. header_or_insert kv hs) hs kvs) k = map_of hs k"
  by (induction kvs arbitrary: hs) (simp_all add: map_of_header_other)

lemma header_or_insert_absent:
  "map_of hs k = None \<Longrightarrow> map_of (header_or_insert (k, v) hs) k = Some v"
  by (simp add: header_or_insert_def map_of_eq_None_iff map_add_def map_of_eq_None_iff [THEN iffD2])

lemma dashboard_configured: "from_env env = Some cfg \<Longrightarrow> \<exists>dash. rl_dashboard_origin cfg = Some dash"
  by (auto simp: from_env_def bind_eq_Some_conv)

lemma baseline_csp: "csp_of (baseline hs) = Some (case csp_of hs of None \<Rightarrow> nobody_embeds | Some v \<Rightarrow> v)"
proof (cases "csp_of hs")
  case None
  then show ?thesis
    by (simp add: csp_of_def baseline_def baseline_headers_def map_of_header_other header_or_insert_absent
        nobody_embeds_def)
next
  case (Some v)
  then show ?thesis by (simp add: csp_of_def baseline_keeps)
qed

lemma csp_of_append [simp]: "csp_of (hs @ hs') = (case csp_of hs of None \<Rightarrow> csp_of hs' | Some v \<Rightarrow> Some v)"
  by (simp add: csp_of_def map_add_def split: option.split)

lemma csp_of_set_header [simp]:
  "k \<noteq> ''content-security-policy'' \<Longrightarrow> csp_of (set_header (k, v) hs) = csp_of hs"
proof -
  assume k: "k \<noteq> ''content-security-policy''"
  have "map_of (filter (\<lambda>h. fst h \<noteq> k) hs) ''content-security-policy'' = map_of hs ''content-security-policy''"
    by (induction hs) (use k in auto)
  with k show ?thesis by (simp add: csp_of_def set_header_def map_add_def split: option.split)
qed

lemma page_csp: "csp_of (page_headers app p) = Some (admin_iframe_csp (rl_dashboard_origin (ap_config app)))"
  by (simp add: csp_of_def page_headers_def html_type_def)

lemma probe_csp: "csp_of (probe_headers p) = None"
  by (simp add: csp_of_def probe_headers_def)

lemma reply_csp:
  "csp_of (snd (reply_head app r)) =
     (case r of Html _ \<Rightarrow> Some (admin_iframe_csp (rl_dashboard_origin (ap_config app))) | _ \<Rightarrow> None)"
  by (cases r) (auto simp: page_csp favicon_head_def, auto simp: html_type_def csp_of_def)

text \<open>A document of the editor is answered on the editor's path only.\<close>

definition editor_call :: "http_call \<Rightarrow> bool" where
  "editor_call c \<longleftrightarrow> (case route (ca_method c) (ca_path c) of To (RoleConfigEditor g r) \<Rightarrow> True | _ \<Rightarrow> False)"

lemma answer_not_html: "answer x \<noteq> (Html p, s)" "bad_body t \<noteq> (Html p, s)"
  by (auto simp: answer_def bad_body_def split: prod.splits sum.splits)

lemma editor_html: "\<exists>p s'. handler app pr c (RoleConfigEditor g r) s = (Html p, s')"
  by (simp split: prod.split)

lemma handler_html:
  "handler app pr c e s = (Html p, s') \<Longrightarrow> \<exists>g r. e = RoleConfigEditor g r"
  by (cases e)
    (auto simp: answer_not_html Let_def split: payload.splits prod.splits sum.splits)

lemma serve_html:
  "serve app pr c s = (reply, s') \<Longrightarrow> (\<exists>p. reply = Html p) \<longleftrightarrow> editor_call c"
proof (cases "route (ca_method c) (ca_path c)")
  case (To e)
  assume "serve app pr c s = (reply, s')"
  with To have run: "handler app pr c e s = (reply, s')" by (simp add: serve_def)
  show ?thesis
  proof (cases "editor_call c")
    case True
    with To obtain g r where "e = RoleConfigEditor g r"
      by (auto simp: editor_call_def split: endpoint.splits)
    with run editor_html [of app pr c g r s] True show ?thesis by auto
  next
    case False
    with To handler_html [of app pr c e s _ s'] run show ?thesis by (auto simp: editor_call_def)
  qed
qed (auto simp: serve_def editor_call_def)

lemma call_csp:
  assumes "serve app pr c s = (reply, s')"
  shows "csp_of (snd (answer_head app c (fst s) reply)) =
    (if editor_call c then Some (admin_iframe_csp (rl_dashboard_origin (ap_config app))) else None)"
proof (cases "route (ca_method c) (ca_path c) = To DweebStatus")
  case True
  then show ?thesis by (simp add: answer_head_def Let_def probe_csp editor_call_def)
next
  case False
  have "csp_of (snd (reply_head app reply)) =
      (if \<exists>p. reply = Html p then Some (admin_iframe_csp (rl_dashboard_origin (ap_config app))) else None)"
    by (simp add: reply_csp split: reply.split)
  with False serve_html [OF assms] show ?thesis by (simp add: answer_head_def)
qed

fun editor_arrival :: "arrival \<Rightarrow> bool" where
  "editor_arrival (Call c _) = editor_call c"
| "editor_arrival _ = False"

fun silent_on_embedding :: "arrival \<Rightarrow> bool" where
  "silent_on_embedding (Limited h) \<longleftrightarrow> csp_of (snd h) = None"
| "silent_on_embedding (Preflight h) \<longleftrightarrow> csp_of (snd h) = None"
| "silent_on_embedding (Call c added) \<longleftrightarrow> csp_of added = None"

lemma respond_head:
  assumes "silent_on_embedding a" "respond app pr a s = ((st, hs), s')"
  shows "csp_of hs = Some (if editor_arrival a then admin_iframe_csp (rl_dashboard_origin (ap_config app))
                           else nobody_embeds)"
proof (cases a)
  case (Call c added)
  obtain reply s1 where run: "serve app pr c s = (reply, s1)" by (rule prod.exhaust)
  from call_csp [OF run] show ?thesis using assms Call run
    by (auto simp: baseline_csp split: prod.splits)
qed (use assms in \<open>auto simp: baseline_csp rate_rejection_def\<close>)

lemma respond_baseline: "kv \<in> set baseline_headers \<Longrightarrow> fst kv \<in> fst ` set (snd (fst (respond app pr a s)))"
  by (cases a) (simp_all add: baseline_present split: prod.split)

lemma limited_closes: "map_of (baseline (snd (rate_rejection h))) ''connection'' = Some ''close''"
proof (rule baseline_keeps)
  have "map_of (filter (\<lambda>h. fst h \<noteq> ''connection'') (snd h)) ''connection'' = None" by (simp add: map_of_eq_None_iff image_iff)
  then show "map_of (snd (rate_rejection h)) ''connection'' = Some ''close''"
    by (simp add: rate_rejection_def set_header_def map_add_def)
qed

lemma respond_state: "snd (respond app pr a s) = (case a of Call c _ \<Rightarrow> snd (serve app pr c s) | _ \<Rightarrow> s)"
  by (cases a) (simp_all split: prod.split)

end
