(* ===== verification/Lifecycle.thy ===== *)
theory Lifecycle
  imports Worker
begin

section \<open>The loops of the tasks and their shutdown (\<open>tasks/*.rs\<close>)\<close>

text \<open>
  The worker, the reconciliation and the listener run for ever and watch a receiver of the shutdown
  channel (\<open>tasks/shutdown.rs\<close>). The channel is \<open>tokio::sync::broadcast\<close>, a parameter: a receiver is a
  value of \<open>'c\<close> with what \<open>try_recv\<close> answers and what a \<open>send\<close> does to it. \<open>recv().await\<close> completes as
  soon as \<open>try_recv\<close> would not be \<open>Empty\<close>; a \<open>select!\<close> that picks another branch leaves the value.
  \<open>delivers_once\<close> is what tokio documents: a value sent is received once by each receiver.

  What else happens in a turn of a loop is its environment: signals that arrive while a job runs or
  while the task waits, and which ready branch a \<open>select!\<close> picks.

  \<open>worker_turn_pass\<close>: a turn of the worker is a pass of the theory \<open>Worker\<close>. \<open>signal_lost\<close>: a signal
  taken by \<open>is_triggered\<close> between two jobs is gone afterwards. \<open>silent_turns\<close>: without a signal the
  worker goes on. \<open>listener_keeps_signal\<close>: the listener loses none.
\<close>

subsection \<open>The channel\<close>

datatype recv_outcome = Received | Lagged | Empty | Closed

record 'c channel =
  ch_try_recv :: "'c \<Rightarrow> recv_outcome \<times> 'c"
  ch_send :: "'c \<Rightarrow> 'c"

definition quiet :: "'c channel \<Rightarrow> 'c \<Rightarrow> bool" where
  "quiet ch c \<longleftrightarrow> ch_try_recv ch c = (Empty, c)"

definition delivers_once :: "'c channel \<Rightarrow> bool" where
  "delivers_once ch \<longleftrightarrow>
     (\<forall>c. quiet ch c \<longrightarrow> (\<exists>c'. ch_try_recv ch (ch_send ch c) = (Received, c') \<and> quiet ch c'))"

definition is_triggered :: "'c channel \<Rightarrow> 'c \<Rightarrow> bool \<times> 'c" where
  "is_triggered ch c = (case ch_try_recv ch c of (r, c') \<Rightarrow> (r = Received \<or> r = Closed, c'))"

definition wait_ready :: "'c channel \<Rightarrow> 'c \<Rightarrow> bool" where
  "wait_ready ch c \<longleftrightarrow> fst (ch_try_recv ch c) \<noteq> Empty"

definition wait_done :: "'c channel \<Rightarrow> 'c \<Rightarrow> 'c" where
  "wait_done ch c = snd (ch_try_recv ch c)"

lemma quiet_not_triggered [simp]: "quiet ch c \<Longrightarrow> is_triggered ch c = (False, c)"
  by (simp add: is_triggered_def quiet_def)

lemma quiet_not_ready [simp]: "quiet ch c \<Longrightarrow> \<not> wait_ready ch c"
  by (simp add: wait_ready_def quiet_def)

lemma sent_triggers:
  assumes "delivers_once ch" "quiet ch c"
  obtains c' where "is_triggered ch (ch_send ch c) = (True, c')" "quiet ch c'"
  using assms by (fastforce simp: delivers_once_def is_triggered_def)

lemma sent_ready: "delivers_once ch \<Longrightarrow> quiet ch c \<Longrightarrow> wait_ready ch (ch_send ch c)"
  by (fastforce simp: delivers_once_def wait_ready_def)

subsection \<open>The worker\<close>

record 'c turn_env =
  te_reap :: bool
  te_skip :: "int \<Rightarrow> bool"
  te_jitter :: "int \<Rightarrow> int"
  te_during :: "int \<Rightarrow> 'c \<Rightarrow> 'c"
  te_idle :: "'c \<Rightarrow> 'c"
  te_woken :: bool

fun run_batch ::
  "'w app \<Rightarrow> 'c channel \<Rightarrow> 'c turn_env \<Rightarrow> job list \<Rightarrow> 'c \<Rightarrow> db \<times> 'w \<Rightarrow> ('c \<times> (db \<times> 'w)) option"
where
  "run_batch app ch e [] c s = Some (c, s)"
| "run_batch app ch e (j # js) c s =
     (case is_triggered ch c of
        (stop, c1) \<Rightarrow>
          Option.bind (run_job app stop (te_jitter e (j_id j)) j s)
            (run_batch app ch e js (te_during e (j_id j) c1)))"

datatype 'x turn = Stopped 'x | Goes_on 'x

text \<open>
  One turn of the loop of \<open>run\<close>. With nothing claimed the worker waits for a notification, the poll
  interval or the signal; \<open>te_woken\<close> says that one of the first two is picked.
\<close>

definition worker_turn ::
  "'w app \<Rightarrow> 'c channel \<Rightarrow> string \<Rightarrow> 'c turn_env \<Rightarrow> 'c \<times> (db \<times> 'w) \<Rightarrow> ('c \<times> (db \<times> 'w)) turn option"
where
  "worker_turn app ch worker_id e x =
     (case x of (c, s) \<Rightarrow>
      case is_triggered ch c of (stop, c1) \<Rightarrow>
        if stop then Some (Stopped (c1, s))
        else
          (let d = (if te_reap e then snd (reap_stuck (ap_now app) stuck_lock_secs (fst s)) else fst s);
               (claimed, d') = claim_batch (ap_now app) (te_skip e) worker_id batch_size d
           in if claimed = [] then
                (if wait_ready ch (te_idle e c1) \<and> \<not> te_woken e
                 then Some (Stopped (wait_done ch (te_idle e c1), (d', snd s)))
                 else Some (Goes_on (te_idle e c1, (d', snd s))))
              else map_option Goes_on (run_batch app ch e claimed c1 (d', snd s))))"

fun worker_turns ::
  "'w app \<Rightarrow> 'c channel \<Rightarrow> string \<Rightarrow> 'c turn_env list \<Rightarrow> 'c \<times> (db \<times> 'w) \<Rightarrow> ('c \<times> (db \<times> 'w)) turn option"
where
  "worker_turns app ch worker_id [] x = Some (Goes_on x)"
| "worker_turns app ch worker_id (e # es) x =
     (case worker_turn app ch worker_id e x of
        None \<Rightarrow> None
      | Some (Stopped y) \<Rightarrow> Some (Stopped y)
      | Some (Goes_on y) \<Rightarrow> worker_turns app ch worker_id es y)"

definition silent :: "'c turn_env \<Rightarrow> bool" where
  "silent e \<longleftrightarrow> (\<forall>i c. te_during e i c = c) \<and> (\<forall>c. te_idle e c = c)"

lemma run_batch_pass:
  assumes "run_batch app ch e js c s = Some (c', s')" "distinct (map j_id js)"
  shows "\<exists>turn. run_jobs app turn js s = Some s'"
  using assms
proof (induction js arbitrary: c s)
  case (Cons j js)
  obtain stop c1 where t: "is_triggered ch c = (stop, c1)" by (rule prod.exhaust)
  with Cons.prems(1) obtain s1 where s1: "run_job app stop (te_jitter e (j_id j)) j s = Some s1"
    "run_batch app ch e js (te_during e (j_id j) c1) s1 = Some (c', s')"
    by (auto simp: bind_eq_Some_conv simp del: split_paired_Ex)
  from Cons.IH [OF s1(2)] Cons.prems(2) obtain turn where turn: "run_jobs app turn js s1 = Some s'" by auto
  let ?turn = "turn(j_id j := (stop, te_jitter e (j_id j)))"
  have "run_jobs app ?turn ks x = run_jobs app turn ks x" if "j_id j \<notin> j_id ` set ks" for ks x
    using that by (induction ks arbitrary: x) (auto intro!: Option.bind_cong)
  with turn s1(1) Cons.prems(2) have "run_jobs app ?turn (j # js) s = Some s'" by simp
  then show ?case by blast
qed simp

lemma claim_distinct:
  "queue_ok d \<Longrightarrow> claim_batch now skip w n d = (js, d') \<Longrightarrow> distinct (map j_id js)"
proof -
  assume ok: "queue_ok d" and c: "claim_batch now skip w n d = (js, d')"
  have "queue_ok d'" using claim_queue_ok [OF ok, of now skip w n] c by simp
  with c show "distinct (map j_id js)"
    by (auto simp: claim_batch_def Let_def queue_ok_def unique_key_def distinct_map_filter)
qed

lemma worker_turn_pass:
  assumes "queue_ok (fst s)" "worker_turn app ch w e (c, s) = Some (Goes_on (c', s'))"
  shows "\<exists>turn. worker_pass app w (te_reap e) (te_skip e) turn s = Some s'"
proof -
  let ?d = "if te_reap e then snd (reap_stuck (ap_now app) stuck_lock_secs (fst s)) else fst s"
  obtain stop c1 where t: "is_triggered ch c = (stop, c1)" by (rule prod.exhaust)
  obtain js d' where cl: "claim_batch (ap_now app) (te_skip e) w batch_size ?d = (js, d')" by (rule prod.exhaust)
  have "queue_ok ?d" using assms(1) by (simp add: reap_queue_ok)
  from claim_distinct [OF this cl] have dist: "distinct (map j_id js)" .
  have "\<exists>turn. run_jobs app turn js (d', snd s) = Some s'"
  proof (cases "js = []")
    case True
    with assms(2) t cl show ?thesis by (auto simp: worker_turn_def Let_def split: if_splits)
  next
    case False
    with assms(2) t cl have "run_batch app ch e js c1 (d', snd s) = Some (c', s')"
      by (auto simp: worker_turn_def Let_def split: if_splits)
    from run_batch_pass [OF this dist] show ?thesis .
  qed
  with cl show ?thesis by (auto simp: worker_pass_def Let_def split: if_splits)
qed

lemma silent_batch:
  assumes "quiet ch c" "\<And>j x. j \<in> set js \<Longrightarrow> te_during e (j_id j) x = x"
    "run_batch app ch e js c s = Some (c', s')"
  shows "c' = c"
  using assms(2,3)
proof (induction js arbitrary: s)
  case (Cons j js)
  from Cons.prems(2) obtain s1 where "run_batch app ch e js c s1 = Some (c', s')"
    by (auto simp: assms(1) Cons.prems(1) bind_eq_Some_conv simp del: split_paired_Ex)
  with Cons.IH Cons.prems(1) show ?case by simp
qed simp

lemma silent_turn:
  assumes "quiet ch c" "silent e" "worker_turn app ch w e (c, s) = Some t"
  shows "\<exists>s'. t = Goes_on (c, s')"
proof -
  let ?d = "if te_reap e then snd (reap_stuck (ap_now app) stuck_lock_secs (fst s)) else fst s"
  obtain js d' where cl: "claim_batch (ap_now app) (te_skip e) w batch_size ?d = (js, d')" by (rule prod.exhaust)
  show ?thesis
  proof (cases "js = []")
    case True
    with assms cl show ?thesis by (auto simp: worker_turn_def Let_def silent_def split: if_splits)
  next
    case False
    with assms cl obtain c' s' where t: "t = Goes_on (c', s')" and
      "run_batch app ch e js c (d', snd s) = Some (c', s')"
      by (auto simp: worker_turn_def Let_def split: if_splits)
    with silent_batch [OF assms(1) _ this(2)] assms(2) show ?thesis by (simp add: silent_def)
  qed
qed

lemma silent_turns:
  assumes "quiet ch c" "list_all silent es" shows "worker_turns app ch w es (c, s) \<noteq> Some (Stopped y)"
  using assms(2)
proof (induction es arbitrary: s)
  case (Cons e es)
  show ?case
  proof (cases "worker_turn app ch w e (c, s)")
    case (Some t)
    with silent_turn [OF assms(1) _ Some] Cons.prems obtain s' where "t = Goes_on (c, s')" by auto
    with Some Cons show ?thesis by simp
  qed simp
qed simp

lemma run_batch_append:
  "run_batch app ch e (js @ ks) c s =
     Option.bind (run_batch app ch e js c s) (\<lambda>(c', s'). run_batch app ch e ks c' s')"
  by (induction js arbitrary: c s) (auto split: prod.split intro!: Option.bind_cong)

lemma signal_lost:
  assumes ch: "delivers_once ch" "quiet ch c" and dist: "distinct (map j_id (pre @ j # k # post))"
    and e: "te_during e = (\<lambda>i. if i = j_id j then ch_send ch else (\<lambda>x. x))"
    and run: "run_batch app ch e (pre @ j # k # post) c s = Some (c', s')"
  shows "quiet ch c'"
proof -
  from run obtain c0 s0 where pre: "run_batch app ch e pre c s = Some (c0, s0)"
    and rest: "run_batch app ch e (j # k # post) c0 s0 = Some (c', s')"
    by (auto simp: run_batch_append bind_eq_Some_conv)
  have "te_during e (j_id i) x = x" if "i \<in> set pre" for i x using that dist e by (auto simp: image_iff)
  from silent_batch [OF ch(2) this pre] have "c0 = c" by simp
  obtain c1 where c1: "is_triggered ch (ch_send ch c) = (True, c1)" "quiet ch c1"
    using sent_triggers [OF ch] .
  from dist have "j_id k \<noteq> j_id j" by auto
  with rest ch(2) \<open>c0 = c\<close> c1(1) e obtain s1 where post: "run_batch app ch e post c1 s1 = Some (c', s')"
    by (auto simp: bind_eq_Some_conv)
  have "te_during e (j_id i) x = x" if "i \<in> set post" for i x using that dist e by (auto simp: image_iff)
  from silent_batch [OF c1(2) this post] have "c' = c1" by simp
  with c1(2) show ?thesis by simp
qed

subsection \<open>The reconciliation\<close>

fun reconcile_dids ::
  "'w app \<Rightarrow> 'c channel \<Rightarrow> (string \<Rightarrow> 'c \<Rightarrow> 'c) \<Rightarrow> string list \<Rightarrow> 'c \<Rightarrow> db \<times> 'w \<Rightarrow> ('c \<times> (db \<times> 'w)) option"
where
  "reconcile_dids app ch during [] c s = Some (c, s)"
| "reconcile_dids app ch during (did # dids) c s =
     (case is_triggered ch c of
        (stop, c1) \<Rightarrow>
          if stop then Some (c1, s)
          else Option.bind (reconcile_account app did s) (\<lambda>(r, s').
            reconcile_dids app ch during dids (during did c1) s'))"

text \<open>One turn of the loop; at its end the task waits for the next tick or the signal.\<close>

definition reconcile_turn ::
  "'w app \<Rightarrow> 'c channel \<Rightarrow> (string \<Rightarrow> 'c \<Rightarrow> 'c) \<Rightarrow> ('c \<Rightarrow> 'c) \<Rightarrow> bool \<Rightarrow> 'c \<times> (db \<times> 'w) \<Rightarrow>
     ('c \<times> (db \<times> 'w)) turn option"
where
  "reconcile_turn app ch during idle ticked x =
     (case x of (c, s) \<Rightarrow>
      map_option (\<lambda>(c1, s1).
        if wait_ready ch (idle c1) \<and> \<not> ticked then Stopped (wait_done ch (idle c1), s1)
        else Goes_on (idle c1, s1))
        (reconcile_dids app ch during (map ba_did (accounts (fst s))) c s))"

fun reconcile_turns ::
  "'w app \<Rightarrow> 'c channel \<Rightarrow> bool list \<Rightarrow> 'c \<times> (db \<times> 'w) \<Rightarrow> ('c \<times> (db \<times> 'w)) turn option"
where
  "reconcile_turns app ch [] x = Some (Goes_on x)"
| "reconcile_turns app ch (ticked # ts) x =
     (case reconcile_turn app ch (\<lambda>did c. c) (\<lambda>c. c) ticked x of
        None \<Rightarrow> None
      | Some (Stopped y) \<Rightarrow> Some (Stopped y)
      | Some (Goes_on y) \<Rightarrow> reconcile_turns app ch ts y)"

lemma silent_dids:
  assumes "quiet ch c" "\<And>did x. did \<in> set dids \<Longrightarrow> during did x = x"
    "reconcile_dids app ch during dids c s = Some (c', s')"
  shows "c' = c"
  using assms(2,3)
proof (induction dids arbitrary: s)
  case (Cons did dids)
  from Cons.prems(2) obtain s1 where "reconcile_dids app ch during dids c s1 = Some (c', s')"
    by (auto simp: assms(1) Cons.prems(1) bind_eq_Some_conv simp del: split_paired_Ex)
  with Cons.IH Cons.prems(1) show ?case by simp
qed simp

lemma silent_reconcile_turns:
  assumes "quiet ch c" shows "reconcile_turns app ch ts (c, s) \<noteq> Some (Stopped y)"
proof (induction ts arbitrary: s)
  case (Cons t ts)
  show ?case
  proof (cases "reconcile_dids app ch (\<lambda>did c. c) (map ba_did (accounts (fst s))) c s")
    case None
    then show ?thesis by (simp add: reconcile_turn_def)
  next
    case (Some p)
    obtain c1 s1 where p: "p = (c1, s1)" by (rule prod.exhaust)
    with silent_dids [OF assms, of _ "\<lambda>did c. c" app s c1 s1] Some have "c1 = c" by auto
    with Some p assms Cons show ?thesis by (simp add: reconcile_turn_def)
  qed
qed simp

lemma reconcile_dids_append:
  assumes "quiet ch c" "\<And>did x. did \<in> set pre \<Longrightarrow> during did x = x"
  shows "reconcile_dids app ch during (pre @ dids) c s =
     Option.bind (reconcile_dids app ch during pre c s) (\<lambda>(c', s'). reconcile_dids app ch during dids c' s')"
  using assms(2)
proof (induction pre arbitrary: s)
  case (Cons d pre)
  then show ?case
    by (cases "reconcile_account app d s") (use assms(1) in auto)
qed simp

lemma reconcile_signal_lost:
  assumes ch: "delivers_once ch" "quiet ch c" and dist: "distinct (pre @ did # k # post)"
    and during: "during = (\<lambda>i. if i = did then ch_send ch else (\<lambda>x. x))"
    and run: "reconcile_dids app ch during (pre @ did # k # post) c s = Some (c', s')"
  shows "quiet ch c'"
proof -
  have same: "during i x = x" if "i \<in> set pre" for i x using that dist during by auto
  from run obtain c0 s0 where pre: "reconcile_dids app ch during pre c s = Some (c0, s0)"
    and rest: "reconcile_dids app ch during (did # k # post) c0 s0 = Some (c', s')"
    using ch(2) same by (auto simp: reconcile_dids_append bind_eq_Some_conv)
  have "c0 = c" by (rule silent_dids [OF ch(2) same pre])
  obtain c1 where c1: "is_triggered ch (ch_send ch c) = (True, c1)" "quiet ch c1"
    using sent_triggers [OF ch] .
  from rest ch(2) \<open>c0 = c\<close> c1 during show ?thesis by (auto simp: bind_eq_Some_conv)
qed

subsection \<open>The listener\<close>

text \<open>
  \<open>job_listener::run\<close> as a machine: where the task waits, its receiver, and how often it woke the
  workers. An event is what a call of sqlx answered, which branch a \<open>select!\<close> took, or a signal; an
  event that cannot happen where the task waits changes nothing.
\<close>

datatype listener_phase = Connecting | Backoff | Listening | Exited

datatype listener_event = ConnectFailed | ListenFailed | Subscribed | BackoffOver | Notified
  | RecvFailed | ShutdownSeen | Triggered

fun listener_step ::
  "'c channel \<Rightarrow> listener_event \<Rightarrow> listener_phase \<times> 'c \<times> nat \<Rightarrow> listener_phase \<times> 'c \<times> nat"
where
  "listener_step ch Triggered (p, c, n) = (p, ch_send ch c, n)"
| "listener_step ch e (Connecting, c, n) =
     (if e = ConnectFailed \<or> e = ListenFailed \<or> e = Subscribed then
        (case is_triggered ch c of (stop, c1) \<Rightarrow>
           (if stop then Exited else if e = Subscribed then Listening else Backoff, c1, n))
      else (Connecting, c, n))"
| "listener_step ch BackoffOver (Backoff, c, n) = (Connecting, c, n)"
| "listener_step ch Notified (Listening, c, n) = (Listening, c, Suc n)"
| "listener_step ch RecvFailed (Listening, c, n) = (Connecting, c, n)"
| "listener_step ch ShutdownSeen (Exited, c, n) = (Exited, c, n)"
| "listener_step ch ShutdownSeen (p, c, n) = (if wait_ready ch c then (Exited, wait_done ch c, n) else (p, c, n))"
| "listener_step ch e (p, c, n) = (p, c, n)"

lemma listener_keeps_signal:
  assumes "delivers_once ch" "quiet ch c" "list_all (\<lambda>e. e \<noteq> Triggered) es"
    and "foldl (\<lambda>x e. listener_step ch e x) (p, ch_send ch c, n) es = (p', c', n')"
  shows "p' = Exited \<or> c' = ch_send ch c"
proof -
  obtain c1 where c1: "is_triggered ch (ch_send ch c) = (True, c1)" using sent_triggers [OF assms(1,2)] .
  have exit: "fst (foldl (\<lambda>x e. listener_step ch e x) (Exited, x, n) es) = Exited" for x n es
  proof (induction es arbitrary: x n)
    case (Cons e es)
    then show ?case by (cases e) simp_all
  qed simp
  show ?thesis
    using assms(3,4)
  proof (induction es arbitrary: p n)
    case (Cons e es)
    have "(\<exists>n1 x. listener_step ch e (p, ch_send ch c, n) = (Exited, x, n1)) \<or>
        (\<exists>p1 n1. listener_step ch e (p, ch_send ch c, n) = (p1, ch_send ch c, n1))"
      using Cons.prems(1) c1 by (cases e; cases p) auto
    then show ?case
    proof (elim disjE exE)
      fix n1 x assume "listener_step ch e (p, ch_send ch c, n) = (Exited, x, n1)"
      with Cons.prems(2) exit [of x n1 es] show ?thesis by simp
    next
      fix p1 n1 assume "listener_step ch e (p, ch_send ch c, n) = (p1, ch_send ch c, n1)"
      with Cons show ?thesis by simp
    qed
  qed simp
qed

end
