(* ===== verification/Startup.thy ===== *)
theory Startup
  imports Middleware Lifecycle
begin

section \<open>Start-up and the end of the process (\<open>db.rs\<close>, \<open>main.rs\<close>, \<open>tasks/shutdown.rs\<close>)\<close>

text \<open>
  \<open>start\<close> is \<open>main\<close> up to the bound listener: every \<open>expect\<close> and \<open>panic!\<close> is a way to end (\<open>stop\<close>).
  What the machine answers (arguments, environment, PostgreSQL, the socket) is the record \<open>platform\<close>;
  the state is the database server's, with the tasks spawned so far.

  \<open>process_step\<close> is the rest: what \<open>main\<close> still spawns, the task that waits for a signal of the system,
  and the receivers of the shutdown channel, subscribed one after another.

  \<open>migrations_run\<close>, \<open>migrations_again\<close>: the order of the migrations and a second start.
  \<open>started_on_schema\<close>, \<open>migrate_spawns_nothing\<close>: what holds when the server runs. \<open>drain_announced\<close>: whoever
  sees the signal, the readiness probe answers 503 by then. \<open>late_start_missed\<close>: \<open>main\<close> subscribes for the HTTP
  server after it has spawned the signal task; a signal in between never reaches the server.
\<close>

subsection \<open>The connection pool and the migrations (\<open>db.rs\<close>)\<close>

record pool_options =
  po_max_connections :: nat
  po_min_connections :: nat
  po_acquire_timeout_secs :: nat
  po_idle_timeout_secs :: nat
  po_max_lifetime_secs :: nat
  po_test_before_acquire :: bool
  po_statement_cache :: nat

definition pool_max_lifetime :: nat where "pool_max_lifetime = 30 * 60"
definition statement_cache_capacity :: nat where "statement_cache_capacity = 100"

definition pool_options_of :: "db_pool_config \<Rightarrow> pool_options" where
  "pool_options_of cfg =
     \<lparr>po_max_connections = max_connections cfg, po_min_connections = min_connections cfg,
      po_acquire_timeout_secs = acquire_timeout_secs cfg, po_idle_timeout_secs = idle_timeout_secs cfg,
      po_max_lifetime_secs = pool_max_lifetime, po_test_before_acquire = False,
      po_statement_cache = statement_cache_capacity\<rparr>"

datatype panic =
    MissingVariable
  | InvalidDatabaseUrl string
  | NoConnection string
  | MigrationFailed string string
  | NoHttpClient string
  | InvalidOrigin
  | NoRateLimiter
  | NoListener string

datatype stop = Panicked panic | MigratedOnly

text \<open>\<open>Result::expect\<close> and \<open>unwrap_or_else(panic!)\<close>.\<close>

definition expect :: "(string \<Rightarrow> panic) \<Rightarrow> string + 'a \<Rightarrow> 's \<Rightarrow> (stop + 'a) \<times> 's" where
  "expect p r s = (case r of Inl e \<Rightarrow> (Inl (Panicked (p e)), s) | Inr a \<Rightarrow> (Inr a, s))"

lemma expect_cases [simp]:
  "expect p r s = (Inr a, s') \<longleftrightarrow> r = Inr a \<and> s' = s"
  "expect p r s = (Inl e, s') \<longleftrightarrow> (\<exists>m. r = Inl m \<and> e = Panicked (p m) \<and> s' = s)"
  by (auto simp: expect_def split: sum.splits)

definition migrations :: "(string \<times> string) list" where
  "migrations =
     [(''001'', ''001_initial_schema.sql''), (''002'', ''002_bsky_accounts.sql''),
      (''003'', ''003_bsky_users.sql''), (''004'', ''004_account_relations.sql''),
      (''005'', ''005_lists_and_packs.sql''), (''006'', ''006_jobs.sql''),
      (''007'', ''007_guild_settings.sql''), (''008'', ''008_guild_bsky_accounts.sql'')]"

record 's platform =
  pf_args :: "string list"
  pf_env :: environment
  pf_parse_url :: "string \<Rightarrow> string + unit"
  pf_connect :: "pool_options \<Rightarrow> string \<Rightarrow> 's \<Rightarrow> (string + unit) \<times> 's"
  pf_execute :: "string \<Rightarrow> 's \<Rightarrow> (string + unit) \<times> 's"
    \<comment> \<open>sends the text of this migration file\<close>
  pf_http_client :: "string + unit"
  pf_header_value :: "string \<Rightarrow> bool"
  pf_bind :: "string \<Rightarrow> string + unit"

definition create_pool :: "'s platform \<Rightarrow> string \<Rightarrow> db_pool_config \<Rightarrow> 's \<Rightarrow> (stop + unit) \<times> 's" where
  "create_pool pf url cfg =
     io_then (expect InvalidDatabaseUrl (pf_parse_url pf url)) (\<lambda>_ s.
       case pf_connect pf (pool_options_of cfg) url s of (r, s') \<Rightarrow> expect NoConnection r s')"

fun run_migrations :: "'s platform \<Rightarrow> (string \<times> string) list \<Rightarrow> 's \<Rightarrow> (stop + unit) \<times> 's" where
  "run_migrations pf [] s = (Inr (), s)"
| "run_migrations pf ((label, file) # ms) s =
     (case pf_execute pf file s of
        (Inl e, s') \<Rightarrow> (Inl (Panicked (MigrationFailed label e)), s')
      | (Inr _, s') \<Rightarrow> run_migrations pf ms s')"

text \<open>The state after these files, when none fails.\<close>

fun executed :: "'s platform \<Rightarrow> string list \<Rightarrow> 's \<Rightarrow> 's option" where
  "executed pf [] s = Some s"
| "executed pf (f # fs) s =
     (case pf_execute pf f s of (Inr _, s') \<Rightarrow> executed pf fs s' | _ \<Rightarrow> None)"

lemma executed_append: "executed pf (fs @ gs) s = Option.bind (executed pf fs s) (executed pf gs)"
  by (induction fs arbitrary: s) (auto split: prod.splits sum.splits)

text \<open>They run in the order of the list; the first that fails stops the process and no later one is sent.\<close>

lemma migrations_run:
  "run_migrations pf ms s = (Inr (), s') \<longleftrightarrow> executed pf (map snd ms) s = Some s'"
  by (induction pf ms s rule: run_migrations.induct) (auto split: prod.splits sum.splits)

lemma migrations_stop:
  "run_migrations pf ms s = (Inl x, s') \<Longrightarrow>
   \<exists>pre label f post e s1. ms = pre @ (label, f) # post \<and> executed pf (map snd pre) s = Some s1 \<and>
     pf_execute pf f s1 = (Inl e, s') \<and> x = Panicked (MigrationFailed label e)"
proof (induction pf ms s rule: run_migrations.induct)
  case (2 pf label f ms s)
  show ?case
  proof (cases "pf_execute pf f s")
    case (Pair r s1)
    show ?thesis
    proof (cases r)
      case (Inl e)
      with 2 Pair have "(label, f) # ms = [] @ (label, f) # ms" "executed pf (map snd []) s = Some s"
        "pf_execute pf f s = (Inl e, s')" "x = Panicked (MigrationFailed label e)" by auto
      then show ?thesis by blast
    next
      case (Inr u)
      with 2 Pair obtain pre i g post e s2 where ih: "ms = pre @ (i, g) # post"
        "executed pf (map snd pre) s1 = Some s2" "pf_execute pf g s2 = (Inl e, s')"
        "x = Panicked (MigrationFailed i e)" by fastforce
      with Pair Inr have "(label, f) # ms = ((label, f) # pre) @ (i, g) # post"
        "executed pf (map snd ((label, f) # pre)) s = Some s2" by simp_all
      with ih(3,4) show ?thesis by blast
    qed
  qed
qed simp

text \<open>
  The files are idempotent: one that has been applied changes nothing, and no file takes back another.
  Then a second start, or another replica's, changes nothing.
\<close>

definition idempotent_files :: "'s platform \<Rightarrow> (string \<Rightarrow> 's \<Rightarrow> bool) \<Rightarrow> bool" where
  "idempotent_files pf applied \<longleftrightarrow>
     (\<forall>f s. applied f s \<longrightarrow> pf_execute pf f s = (Inr (), s)) \<and>
     (\<forall>f s s'. pf_execute pf f s = (Inr (), s') \<longrightarrow> applied f s' \<and> (\<forall>g. applied g s \<longrightarrow> applied g s'))"

lemma idempotent_file:
  assumes "idempotent_files pf applied"
  shows "applied f s \<Longrightarrow> pf_execute pf f s = (Inr (), s)"
    and "pf_execute pf f s = (Inr (), s') \<Longrightarrow> applied f s'"
    and "pf_execute pf f s = (Inr (), s') \<Longrightarrow> applied g s \<Longrightarrow> applied g s'"
  using assms unfolding idempotent_files_def by blast+

lemma executed_Cons:
  "executed pf (f # fs) s = Some s' \<longleftrightarrow> (\<exists>s1. pf_execute pf f s = (Inr (), s1) \<and> executed pf fs s1 = Some s')"
  by (auto split: prod.splits sum.splits)

lemma executed_keeps:
  assumes "idempotent_files pf applied"
  shows "executed pf fs s = Some s' \<Longrightarrow> applied g s \<Longrightarrow> applied g s'"
  by (induction fs arbitrary: s) (auto simp: executed_Cons simp del: executed.simps(2) dest: idempotent_file(3) [OF assms])

lemma executed_applied:
  assumes "idempotent_files pf applied"
  shows "executed pf fs s = Some s' \<Longrightarrow> f \<in> set fs \<Longrightarrow> applied f s'"
proof (induction fs arbitrary: s)
  case (Cons h fs)
  then obtain s1 where s1: "pf_execute pf h s = (Inr (), s1)" "executed pf fs s1 = Some s'"
    by (auto simp only: executed_Cons)
  show ?case
  proof (cases "f = h")
    case True
    from idempotent_file(2) [OF assms s1(1)] executed_keeps [OF assms s1(2)] True show ?thesis by simp
  next
    case False
    with Cons s1(2) show ?thesis by simp
  qed
qed simp

lemma executed_nothing:
  assumes "idempotent_files pf applied"
  shows "(\<And>f. f \<in> set fs \<Longrightarrow> applied f s) \<Longrightarrow> executed pf fs s = Some s"
  by (induction fs) (simp_all add: idempotent_file(1) [OF assms])

lemma migrations_again:
  assumes "idempotent_files pf applied" "run_migrations pf ms s = (Inr (), s')"
  shows "run_migrations pf ms s' = (Inr (), s')"
proof -
  from assms(2) have "executed pf (map snd ms) s = Some s'" by (simp only: migrations_run)
  from executed_applied [OF assms(1) this] have "executed pf (map snd ms) s' = Some s'"
    by (rule executed_nothing [OF assms(1)])
  then show ?thesis by (simp only: migrations_run)
qed

text \<open>What each file creates, and the tables its foreign keys name: none is named before it exists.\<close>

definition creates :: "(string \<times> string list) list" where
  "creates =
     [(''001'', [''role_links'', ''role_assignments'']), (''002'', [''bsky_accounts'']), (''003'', [''bsky_users'']),
      (''004'', [''account_relations'']),
      (''005'', [''bsky_lists'', ''bsky_list_members'', ''bsky_starter_packs'', ''bsky_starter_pack_members'']),
      (''006'', [''jobs'']), (''007'', [''guild_settings'']), (''008'', [''guild_bsky_accounts''])]"

definition refers_to :: "(string \<times> string list) list" where
  "refers_to =
     [(''001'', [''role_links'']), (''002'', []), (''003'', []), (''004'', [''bsky_accounts'']),
      (''005'', [''bsky_accounts'', ''bsky_lists'', ''bsky_starter_packs'']), (''006'', []), (''007'', []),
      (''008'', [''bsky_accounts''])]"

fun references_hold :: "string list \<Rightarrow> string list \<Rightarrow> bool" where
  "references_hold known [] = True"
| "references_hold known (label # labels) =
     (let known' = known @ concat (map snd (filter (\<lambda>x. fst x = label) creates))
      in list_all (\<lambda>(i, ts). i = label \<longrightarrow> list_all (\<lambda>t. t \<in> set known') ts) refers_to \<and> references_hold known' labels)"

lemma migration_order_holds: "references_hold [] (map fst migrations)"
  by code_simp

subsection \<open>\<open>main\<close> up to the listener\<close>

datatype task = ListenerTask | WorkerTask string | ReconcileTask | SweeperTask | SignalTask | ServerTask

definition worker_names :: "app_config \<Rightarrow> string list" where
  "worker_names cfg = map (\<lambda>i. ''job-worker-'' @ show_nat i) [0..<workers_spawned cfg]"

definition background_tasks :: "app_config \<Rightarrow> task list" where
  "background_tasks cfg = ListenerTask # map WorkerTask (worker_names cfg) @ [ReconcileTask]"

definition migrate_only :: "string list \<Rightarrow> bool" where
  "migrate_only args \<longleftrightarrow> (case args of _ # a # _ \<Rightarrow> a = ''migrate'' | _ \<Rightarrow> False)"

record running =
  ru_config :: app_config
  ru_allowed_origins :: "string list"
  ru_cors :: cors_settings
  ru_tasks :: "task list"

definition guard_start :: "bool \<Rightarrow> stop \<Rightarrow> 's \<Rightarrow> (stop + unit) \<times> 's" where
  "guard_start ok e s = (if ok then (Inr (), s) else (Inl e, s))"

definition spawn :: "task list \<Rightarrow> 's \<times> task list \<Rightarrow> (stop + unit) \<times> ('s \<times> task list)" where
  "spawn ts x = (Inr (), (fst x, snd x @ ts))"

definition on_database :: "('s \<Rightarrow> (stop + 'a) \<times> 's) \<Rightarrow> 's \<times> task list \<Rightarrow> (stop + 'a) \<times> ('s \<times> task list)" where
  "on_database m x = (case m (fst x) of (r, s) \<Rightarrow> (r, (s, snd x)))"

definition open_database :: "'s platform \<Rightarrow> 's \<Rightarrow> (stop + app_config) \<times> 's" where
  "open_database pf s =
     (case from_env (pf_env pf) of
        None \<Rightarrow> (Inl (Panicked MissingVariable), s)
      | Some cfg \<Rightarrow>
          io_then (create_pool pf (database_url cfg) (db_pool cfg)) (\<lambda>_.
          io_then (run_migrations pf migrations) (\<lambda>_. io_return cfg)) s)"

text \<open>The tasks run from where they are spawned: a panic after that point finds them at work.\<close>

definition launch :: "'s platform \<Rightarrow> 's \<times> task list \<Rightarrow> (stop + app_config) \<times> ('s \<times> task list)" where
  "launch pf =
     io_then (on_database (open_database pf)) (\<lambda>cfg.
     io_then (guard_start (\<not> migrate_only (pf_args pf)) MigratedOnly) (\<lambda>_.
     io_then (expect NoHttpClient (pf_http_client pf)) (\<lambda>_.
     io_then (spawn (background_tasks cfg)) (\<lambda>_. io_return cfg))))"

definition open_http :: "'s platform \<Rightarrow> app_config \<Rightarrow> 's \<times> task list \<Rightarrow> (stop + running) \<times> ('s \<times> task list)" where
  "open_http pf cfg =
     io_then (guard_start (list_all (pf_header_value pf) (allowed_origins cfg)) (Panicked InvalidOrigin)) (\<lambda>_.
     io_then (guard_start (0 < ra_period_ms rate_limit \<and> 0 < ra_burst rate_limit) (Panicked NoRateLimiter)) (\<lambda>_.
     io_then (spawn [SweeperTask]) (\<lambda>_.
     io_then (expect NoListener (pf_bind pf (listen_addr cfg))) (\<lambda>_ x.
       (Inr \<lparr>ru_config = cfg, ru_allowed_origins = allowed_origins cfg, ru_cors = cors_layer cfg,
             ru_tasks = snd x\<rparr>, x)))))"

definition start :: "'s platform \<Rightarrow> 's \<times> task list \<Rightarrow> (stop + running) \<times> ('s \<times> task list)" where
  "start pf = io_then (launch pf) (open_http pf)"

lemma start_steps [simp]:
  "guard_start ok e s = (Inr u, s') \<longleftrightarrow> ok \<and> s' = s"
  "guard_start ok e s = (Inl f, s') \<longleftrightarrow> \<not> ok \<and> f = e \<and> s' = s"
  "spawn ts x = (Inr u, y) \<longleftrightarrow> y = (fst x, snd x @ ts)"
  "spawn ts x \<noteq> (Inl e, y)"
  by (auto simp: guard_start_def spawn_def)

lemma on_database_result [simp]:
  "on_database m x = (r, y) \<longleftrightarrow> m (fst x) = (r, fst y) \<and> snd y = snd x"
  by (cases y) (auto simp: on_database_def split: prod.split)

lemma open_database_Inr:
  "open_database pf s = (Inr cfg, s') \<Longrightarrow>
   from_env (pf_env pf) = Some cfg \<and> (\<exists>s1. executed pf (map snd migrations) s1 = Some s')"
  by (auto simp: open_database_def io_simps migrations_run split: option.splits)

lemma create_pool_stops:
  "create_pool pf url cfg s = (Inl e, s') \<Longrightarrow> \<exists>m. e = Panicked (InvalidDatabaseUrl m) \<or> e = Panicked (NoConnection m)"
proof (cases "pf_connect pf (pool_options_of cfg) url s")
  case (Pair r s1)
  assume "create_pool pf url cfg s = (Inl e, s')"
  with Pair show ?thesis by (auto simp: create_pool_def io_simps)
qed

lemma open_database_stops:
  "open_database pf s = (Inl e, s') \<Longrightarrow> e \<noteq> MigratedOnly \<and> e \<noteq> Panicked (NoListener m)"
  by (auto simp: open_database_def io_simps split: option.splits dest!: create_pool_stops migrations_stop)

text \<open>
  A server that runs has a complete configuration and ran every migration in order before it spawned a
  task; what CSRF compares and what CORS admits is one list.
\<close>

lemma started_on_schema:
  assumes "start pf (s, []) = (Inr ru, (s', ts))"
  shows "\<not> migrate_only (pf_args pf) \<and> from_env (pf_env pf) = Some (ru_config ru) \<and>
    (\<exists>s1. executed pf (map snd migrations) s1 = Some s') \<and>
    ts = background_tasks (ru_config ru) @ [SweeperTask] \<and> ru_tasks ru = ts \<and>
    co_origins (ru_cors ru) = ru_allowed_origins ru"
  using assms
  by (auto simp: start_def launch_def open_http_def io_simps cors_layer_def dest: open_database_Inr)

text \<open>\<open>migrate\<close> brings the schema up and ends: nothing is spawned.\<close>

lemma migrate_spawns_nothing:
  assumes "migrate_only (pf_args pf)" "start pf (s, []) = (r, (s', ts))"
  shows "ts = [] \<and> (r = Inl MigratedOnly \<longleftrightarrow> (\<exists>cfg. open_database pf s = (Inr cfg, s')))"
proof -
  obtain q s1 where q: "open_database pf s = (q, s1)" by (rule prod.exhaust)
  then have db: "on_database (open_database pf) (s, []) = (q, (s1, []))" by simp
  show ?thesis
  proof (cases q)
    case (Inl e)
    have e: "e \<noteq> MigratedOnly" by (rule open_database_stops [THEN conjunct1]) (use q Inl in simp)
    from db Inl have "start pf (s, []) = (Inl e, (s1, []))"
      unfolding start_def launch_def by (simp only: io_then_step)
    with assms(2) have "r = Inl e" "s' = s1" "ts = []" by simp_all
    with q Inl e show ?thesis by simp
  next
    case (Inr cfg)
    have "launch pf (s, []) = (Inl MigratedOnly, (s1, []))"
      unfolding launch_def
      by (subst io_then_step(1), rule db [unfolded Inr]) (use assms(1) in \<open>simp add: io_then_def guard_start_def\<close>)
    then have "start pf (s, []) = (Inl MigratedOnly, (s1, []))" unfolding start_def by (simp only: io_then_step)
    with assms(2) have "r = Inl MigratedOnly" "s' = s1" "ts = []" by simp_all
    with q Inr show ?thesis by simp
  qed
qed

text \<open>The listener is bound last: where the port is taken, the workers have been at work.\<close>

lemma port_is_bound_last:
  assumes "start pf (s, []) = (Inl (Panicked (NoListener e)), (s', ts))"
  shows "\<exists>cfg. open_database pf s = (Inr cfg, s') \<and> ts = background_tasks cfg @ [SweeperTask]"
  using assms
  by (auto simp: start_def launch_def open_http_def io_simps dest: open_database_stops [where m = e])

subsection \<open>The shutdown channel and the process (\<open>tasks/shutdown.rs\<close>, the end of \<open>main\<close>)\<close>

text \<open>
  The channel with all its receivers, in the order in which they were subscribed. A message reaches
  the receivers there are; a \<open>send\<close> without any is ignored.
\<close>

type_synonym 'c receivers = "(task \<times> 'c) list"

definition shutdown_new :: "'c receivers" where "shutdown_new = []"

definition subscribe :: "'c \<Rightarrow> task \<Rightarrow> 'c receivers \<Rightarrow> 'c receivers" where
  "subscribe fresh t rs = rs @ [(t, fresh)]"

definition trigger :: "'c channel \<Rightarrow> 'c receivers \<Rightarrow> 'c receivers" where
  "trigger ch rs = map (\<lambda>(t, c). (t, ch_send ch c)) rs"

datatype main_action = SpawnTask task | SpawnSignalTask | ServeHttp

definition main_actions :: "app_config \<Rightarrow> main_action list" where
  "main_actions cfg = map SpawnTask (background_tasks cfg) @ [SpawnSignalTask, ServeHttp]"

text \<open>The signal task: not there, waiting for \<open>SIGTERM\<close> or \<open>SIGINT\<close>, then its two statements.\<close>

datatype signal_phase = Unborn | Waiting | Announced | Sent

record 'c process =
  pc_todo :: "main_action list"
  pc_signal :: signal_phase
  pc_draining :: bool
  pc_receivers :: "'c receivers"

definition booting :: "app_config \<Rightarrow> 'c process" where
  "booting cfg = \<lparr>pc_todo = main_actions cfg, pc_signal = Unborn, pc_draining = False, pc_receivers = shutdown_new\<rparr>"

fun main_does :: "'c \<Rightarrow> main_action \<Rightarrow> 'c process \<Rightarrow> 'c process" where
  "main_does fresh (SpawnTask t) p = p\<lparr>pc_receivers := subscribe fresh t (pc_receivers p)\<rparr>"
| "main_does fresh SpawnSignalTask p = p\<lparr>pc_signal := Waiting\<rparr>"
| "main_does fresh ServeHttp p = p\<lparr>pc_receivers := subscribe fresh ServerTask (pc_receivers p)\<rparr>"

inductive process_step :: "'c channel \<Rightarrow> 'c \<Rightarrow> 'c process \<Rightarrow> 'c process \<Rightarrow> bool" for ch fresh where
  act: "pc_todo p = a # todo \<Longrightarrow> process_step ch fresh p (main_does fresh a (p\<lparr>pc_todo := todo\<rparr>))"
| signalled: "pc_signal p = Waiting \<Longrightarrow> process_step ch fresh p (p\<lparr>pc_draining := True, pc_signal := Announced\<rparr>)"
| sends: "pc_signal p = Announced \<Longrightarrow>
    process_step ch fresh p (p\<lparr>pc_receivers := trigger ch (pc_receivers p), pc_signal := Sent\<rparr>)"
| receives: "pc_receivers p = xs @ (t, c) # ys \<Longrightarrow>
    process_step ch fresh p (p\<lparr>pc_receivers := xs @ (t, snd (ch_try_recv ch c)) # ys\<rparr>)"

inductive_cases process_stepE: "process_step ch fresh p q"

text \<open>The invariant: the flag is up before the message is out, and before that every receiver is quiet.\<close>

definition drain_ok :: "'c channel \<Rightarrow> 'c \<Rightarrow> 'c process \<Rightarrow> bool" where
  "drain_ok ch fresh p \<longleftrightarrow>
     (pc_signal p \<in> {Announced, Sent} \<longrightarrow> pc_draining p) \<and> (SpawnSignalTask \<in> set (pc_todo p) \<longrightarrow> pc_signal p = Unborn) \<and>
     distinct (filter (\<lambda>a. a = SpawnSignalTask) (pc_todo p)) \<and>
     (quiet ch fresh \<longrightarrow> pc_signal p \<noteq> Sent \<longrightarrow> (\<forall>(t, c) \<in> set (pc_receivers p). quiet ch c))"

interpretation process: step_invariant "\<lambda>p. \<exists>cfg. p = booting cfg" "process_step ch fresh" "drain_ok ch fresh"
proof
  show "\<exists>cfg. p = booting cfg \<Longrightarrow> drain_ok ch fresh p" for p :: "'a process"
    by (auto simp: booting_def drain_ok_def main_actions_def shutdown_new_def)
next
  fix p q :: "'a process"
  assume ok: "drain_ok ch fresh p" and step: "process_step ch fresh p q"
  from step show "drain_ok ch fresh q"
  proof (cases rule: process_step.cases)
    case (act a todo)
    with ok show ?thesis by (cases a) (auto simp: drain_ok_def subscribe_def split: if_splits)
  next
    case signalled
    with ok show ?thesis by (auto simp: drain_ok_def)
  next
    case sends
    with ok show ?thesis by (auto simp: drain_ok_def)
  next
    case (receives xs t c ys)
    with ok show ?thesis by (auto simp: drain_ok_def quiet_def)
  qed
qed

text \<open>Whoever sees the signal: the readiness probe has answered 503 since before.\<close>

lemma drain_announced:
  assumes "reach (\<lambda>p. \<exists>cfg. p = booting cfg) (process_step ch fresh) p" "quiet ch fresh"
    "(t, c) \<in> set (pc_receivers p)" "wait_ready ch c \<or> fst (is_triggered ch c)"
  shows "fst (ready (pc_draining p)) = 503"
proof -
  from process.reach_inv [OF assms(1)] have ok: "drain_ok ch fresh p" .
  from assms(4) have "\<not> quiet ch c" by auto
  with ok assms(2,3) have "pc_signal p = Sent" by (auto simp: drain_ok_def)
  with ok show ?thesis by (simp add: drain_ok_def ready_def)
qed

subsection \<open>The end of \<open>main\<close>\<close>

text \<open>What \<open>main\<close> waits for at its end, in order; the first that has not ended holds it.\<close>

definition main_joins :: "app_config \<Rightarrow> task list" where
  "main_joins cfg = ServerTask # map WorkerTask (worker_names cfg) @ [ListenerTask, ReconcileTask]"

definition waits_for :: "(task \<Rightarrow> bool) \<Rightarrow> task list \<Rightarrow> task option" where
  "waits_for ended ts = find (\<lambda>t. \<not> ended t) ts"

lemma main_joins_all: "set (main_joins cfg) = insert ServerTask (set (background_tasks cfg))"
  by (auto simp: main_joins_def background_tasks_def)

lemma main_ends:
  "waits_for ended (main_joins cfg) = None \<longleftrightarrow> ended ServerTask \<and> (\<forall>t \<in> set (background_tasks cfg). ended t)"
  by (auto simp: waits_for_def find_None_iff main_joins_all)

lemma main_waits_for_server: "\<not> ended ServerTask \<Longrightarrow> waits_for ended (main_joins cfg) = Some ServerTask"
  by (simp add: waits_for_def main_joins_def)

text \<open>A state in which the message is gone and the server's receiver never had it.\<close>

definition missed :: "'c channel \<Rightarrow> 'c process \<Rightarrow> bool" where
  "missed ch p \<longleftrightarrow> pc_todo p = [] \<and> pc_signal p = Sent \<and> pc_draining p \<and>
     ServerTask \<in> fst ` set (pc_receivers p) \<and> (\<forall>c. (ServerTask, c) \<in> set (pc_receivers p) \<longrightarrow> quiet ch c)"

lemma missed_step: "missed ch p \<Longrightarrow> process_step ch fresh p q \<Longrightarrow> missed ch q"
  by (erule process_stepE) (auto simp: missed_def quiet_def)

lemma missed_steps: "(process_step ch fresh)\<^sup>*\<^sup>* p q \<Longrightarrow> missed ch p \<Longrightarrow> missed ch q"
  by (induction rule: rtranclp_induct) (auto intro: missed_step)

lemma spawn_steps:
  "pc_todo p = map SpawnTask ts @ todo \<Longrightarrow>
   (process_step ch fresh)\<^sup>*\<^sup>* p
     (p\<lparr>pc_todo := todo, pc_receivers := pc_receivers p @ map (\<lambda>t. (t, fresh)) ts\<rparr>)"
proof (induction ts arbitrary: p)
  case (Cons t ts)
  from Cons.prems have
    "process_step ch fresh p (main_does fresh (SpawnTask t) (p\<lparr>pc_todo := map SpawnTask ts @ todo\<rparr>))"
    by (intro process_step.act) simp
  moreover have "(process_step ch fresh)\<^sup>*\<^sup>*
      (main_does fresh (SpawnTask t) (p\<lparr>pc_todo := map SpawnTask ts @ todo\<rparr>))
      (p\<lparr>pc_todo := todo, pc_receivers := pc_receivers p @ map (\<lambda>t. (t, fresh)) (t # ts)\<rparr>)"
    using Cons.IH [of "main_does fresh (SpawnTask t) (p\<lparr>pc_todo := map SpawnTask ts @ todo\<rparr>)"]
    by (simp add: subscribe_def)
  ultimately show ?case by (rule converse_rtranclp_into_rtranclp)
next
  case (Nil p)
  then have "p\<lparr>pc_todo := todo, pc_receivers := pc_receivers p @ map (\<lambda>t. (t, fresh)) []\<rparr> = p" by (cases p) simp
  then show ?case by (simp only: rtranclp.rtrancl_refl)
qed

lemma reach_steps: "step\<^sup>*\<^sup>* s t \<Longrightarrow> reach init step s \<Longrightarrow> reach init step t"
  by (induction rule: rtranclp_induct) (auto intro: reach.intros)

definition late_start :: "'c channel \<Rightarrow> 'c \<Rightarrow> app_config \<Rightarrow> 'c process" where
  "late_start ch fresh cfg =
     \<lparr>pc_todo = [], pc_signal = Sent, pc_draining = True,
      pc_receivers = trigger ch (map (\<lambda>t. (t, fresh)) (background_tasks cfg)) @ [(ServerTask, fresh)]\<rparr>"

lemma late_start_reached: "(process_step ch fresh)\<^sup>*\<^sup>* (booting cfg) (late_start ch fresh cfg)"
proof -
  let ?rs = "map (\<lambda>t. (t, fresh)) (background_tasks cfg)"
  let ?p1 = "\<lparr>pc_todo = [SpawnSignalTask, ServeHttp], pc_signal = Unborn, pc_draining = False, pc_receivers = ?rs\<rparr>"
  let ?p2 = "?p1\<lparr>pc_todo := [ServeHttp], pc_signal := Waiting\<rparr>"
  let ?p3 = "?p2\<lparr>pc_draining := True, pc_signal := Announced\<rparr>"
  let ?p4 = "?p3\<lparr>pc_receivers := trigger ch ?rs, pc_signal := Sent\<rparr>"
  have "(process_step ch fresh)\<^sup>*\<^sup>* (booting cfg) ?p1"
    using spawn_steps [of "booting cfg" "background_tasks cfg" "[SpawnSignalTask, ServeHttp]" ch fresh]
    by (simp add: booting_def main_actions_def shutdown_new_def)
  also have "process_step ch fresh ?p1 ?p2"
    using process_step.act [of ?p1 SpawnSignalTask "[ServeHttp]" ch fresh] by simp
  also have "process_step ch fresh ?p2 ?p3" using process_step.signalled [of ?p2 ch fresh] by simp
  also have "process_step ch fresh ?p3 ?p4" using process_step.sends [of ?p3 ch fresh] by simp
  also have "process_step ch fresh ?p4 (late_start ch fresh cfg)"
    using process_step.act [of ?p4 ServeHttp "[]" ch fresh] by (simp add: late_start_def subscribe_def)
  finally show ?thesis .
qed

lemma late_start_missed: "quiet ch fresh \<Longrightarrow> missed ch (late_start ch fresh cfg)"
  by (auto simp: missed_def late_start_def trigger_def background_tasks_def)

lemma late_start_others:
  "delivers_once ch \<Longrightarrow> quiet ch fresh \<Longrightarrow> t \<in> set (background_tasks cfg) \<Longrightarrow>
   \<exists>c. (t, c) \<in> set (pc_receivers (late_start ch fresh cfg)) \<and> wait_ready ch c"
  by (force simp: late_start_def trigger_def intro: sent_ready)

end
