(* ===== verification/Save_Statements.thy ===== *)
theory Save_Statements
  imports Routes_Role_Config
begin

section \<open>The statements of a save (\<open>role_config_save\<close> in \<open>routes/admin.rs\<close>)\<close>

text \<open>
  The save is an \<open>UPDATE\<close> under the version lock and, after it, a \<open>SELECT\<close> of the version for the
  answer: two statements outside a transaction. \<open>save_statements\<close> has what others do between them
  as its argument \<open>meanwhile\<close>. \<open>save_statements_atomic\<close>: left alone they are \<open>save_locked\<close>.
  \<open>update_once\<close>: the lock itself holds under every interleaving with other saves.
\<close>

definition save_update ::
  "instant \<Rightarrow> string \<Rightarrow> string \<Rightarrow> int \<Rightarrow> parsed_rule \<Rightarrow> db \<Rightarrow> (app_error + nat) \<times> db"
where
  "save_update now g r version p d =
     (let hits = filter (\<lambda>l. link_key l = (g, r) \<and> rl_version l = version) (role_links d)
      in if hits = [] then (Inr 0, d)
         else if version = i32_max then
           (Inl (Database (SqlxDatabase (Some ''22003'') None ''integer out of range'')), d)
         else (Inr (length hits), save_rows now g r version p d))"

definition save_answer :: "string \<Rightarrow> string \<Rightarrow> nat \<Rightarrow> db \<Rightarrow> app_error + int" where
  "save_answer g r affected d =
     (case find_link g r d of
        None \<Rightarrow> Inl (if affected = 0 then link_missing else Database (SqlxOther ''no rows returned by a query that expected to return at least one row''))
      | Some l \<Rightarrow> if affected = 0 then Inl StaleVersion else Inr (rl_version l))"

definition save_statements ::
  "'w app \<Rightarrow> string \<Rightarrow> string \<Rightarrow> int \<Rightarrow> parsed_rule \<Rightarrow> (db \<Rightarrow> db) \<Rightarrow> ('w, int) task"
where
  "save_statements app g r version p meanwhile =
     io_then (\<lambda>s. case save_update (ap_now app) g r version p (fst s) of (x, d) \<Rightarrow> (x, (d, snd s))) (\<lambda>n.
     io_then (on_db meanwhile) (\<lambda>_ s. (save_answer g r n (fst s), s)))"

lemma hits_of_link:
  assumes "db_ok d"
  shows "filter (\<lambda>l. link_key l = (g, r) \<and> rl_version l = version) (role_links d) =
    (case find_link g r d of None \<Rightarrow> [] | Some l \<Rightarrow> if rl_version l = version then [l] else [])"
proof -
  have "unique_key link_key rows \<Longrightarrow>
      filter (\<lambda>l. link_key l = k \<and> rl_version l = version) rows =
      (case find_row link_key k rows of None \<Rightarrow> [] | Some l \<Rightarrow> if rl_version l = version then [l] else [])"
    for k rows
  proof (induction rows)
    case (Cons x rows)
    show ?case
    proof (cases "link_key x = k")
      case True
      with Cons.prems have "filter (\<lambda>l. link_key l = k \<and> rl_version l = version) rows = []"
        by (auto simp: unique_key_def filter_empty_conv image_iff)
      with True show ?thesis by (simp add: find_row_def)
    next
      case False
      with Cons show ?thesis by (simp add: find_row_def unique_key_def)
    qed
  qed (simp add: find_row_def)
  with assms show ?thesis by (simp add: db_ok_def keys_ok_def find_link_def)
qed

lemma save_statements_atomic:
  assumes "db_ok (fst s)"
  shows "save_statements app g r version p (\<lambda>d. d) s = save_locked app g r version p s"
proof (cases "find_link g r (fst s)")
  case None
  then show ?thesis
    by (cases s) (use assms in \<open>simp add: save_statements_def save_locked_def save_update_def save_answer_def
        hits_of_link io_then_def\<close>)
next
  case (Some l)
  have "find_link g r (save_rows (ap_now app) g r version p (fst s)) = Some (saved_link (ap_now app) p l)"
    if "rl_version l = version" using save_lookup [OF Some that] by simp
  with Some assms show ?thesis
    by (cases s) (auto simp: save_statements_def save_locked_def save_update_def save_answer_def
        hits_of_link io_then_def saved_link_def)
qed

text \<open>Other saves, based on whatever versions, never bring a version back.\<close>

definition other_saves :: "string \<Rightarrow> string \<Rightarrow> (instant \<times> int \<times> parsed_rule) list \<Rightarrow> db \<Rightarrow> db" where
  "other_saves g r ss d = foldl (\<lambda>d (now, v, p). snd (save_update now g r v p d)) d ss"

lemma save_update_version:
  assumes "db_ok d" "find_link g r d = Some l"
  shows "db_ok (snd (save_update now g r v p d)) \<and>
    (\<exists>l'. find_link g r (snd (save_update now g r v p d)) = Some l' \<and> rl_version l \<le> rl_version l')"
proof -
  have "db_ok (save_rows now g r v p d)"
    using assms(1) by (simp add: save_rows_def db_ok_def keys_ok_def refs_ok_def unique_key_update_where
        keys_update_where link_key_def)
  moreover have "\<exists>l'. find_link g r (save_rows now g r v p d) = Some l' \<and> rl_version l \<le> rl_version l'"
    if "rl_version l = v" using save_lookup [OF assms(2) that] by (simp add: saved_link_def)
  ultimately show ?thesis
    using assms by (simp add: save_update_def hits_of_link Let_def)
qed

lemma other_saves_version:
  assumes "db_ok d" "find_link g r d = Some l"
  shows "db_ok (other_saves g r ss d) \<and>
    (\<exists>l'. find_link g r (other_saves g r ss d) = Some l' \<and> rl_version l \<le> rl_version l')"
  using assms
proof (induction ss arbitrary: d l)
  case Nil
  then show ?case by (simp add: other_saves_def)
next
  case (Cons x ss)
  obtain now v p where x: "x = (now, v, p)" by (metis prod.exhaust)
  from save_update_version [OF Cons.prems, of now v p] obtain l1 where
    "db_ok (snd (save_update now g r v p d))" "rl_version l \<le> rl_version l1"
    and "find_link g r (snd (save_update now g r v p d)) = Some l1" by blast
  with Cons.IH [of "snd (save_update now g r v p d)" l1] x show ?case
    unfolding other_saves_def by fastforce
qed

lemma update_once:
  assumes "db_ok d" "save_update now g r v p d = (Inr n, d1)" "0 < n"
  shows "fst (save_update now' g r v p' (other_saves g r ss d1)) = Inr 0"
proof -
  from assms obtain l where l: "find_link g r d = Some l" "rl_version l = v" and d1: "d1 = save_rows now g r v p d"
    by (auto simp: save_update_def hits_of_link Let_def split: if_splits option.splits)
  have "find_link g r d1 = Some (saved_link now p l)" using save_lookup [OF l] d1 by simp
  moreover have "db_ok d1" using save_update_version [OF assms(1) l(1), of now v p] assms(2) by simp
  ultimately obtain l' where "db_ok (other_saves g r ss d1)" "find_link g r (other_saves g r ss d1) = Some l'"
    "v + 1 \<le> rl_version l'"
    using other_saves_version [of d1 g r "saved_link now p l" ss] l(2) by (auto simp: saved_link_def)
  then show ?thesis by (simp add: save_update_def hits_of_link Let_def)
qed

end
