(* ===== verification/Lifecycle_Properties.thy ===== *)
theory Lifecycle_Properties
  imports Sync_Properties Lifecycle Save_Statements
begin

section \<open>Properties of interleavings and of the shutdown\<close>

text \<open>
  What happens between the statements of a save, when a job outlasts its lock, and between the jobs of
  a worker when the process is asked to stop. \<open>counting\<close> is a channel for the witnesses: the number of signals not yet received.
\<close>

subsection \<open>Two saves at once\<close>

text \<open>
  C14: of two saves based on one version at most one is written, whatever other saves run between their
  statements: once the first has changed the row, the \<open>UPDATE\<close> of the second finds no row, and its
  sender is told.
\<close>

theorem one_of_two_saves_wins:
  assumes "db_ok d" and "save_update now g r v p d = (Inr n, d1)" and "0 < n"
    and "find_link g r d = Some l"
  shows "fst (save_update now' g r v p' (other_saves g r ss d1)) = Inr 0 \<and>
    fst (save_statements app g r v p' meanwhile (other_saves g r ss d1, w)) \<in> {Inl StaleVersion, Inl link_missing}"
proof -
  have zero: "save_update now' g r v p' (other_saves g r ss d1) = (Inr 0, other_saves g r ss d1)" for now'
    using update_once [OF assms(1-3), of now' p' ss]
    by (auto simp: save_update_def Let_def split: if_splits)
  then show ?thesis by (simp add: save_statements_def save_answer_def io_then_def split: option.split)
qed

definition follower_rule :: parsed_rule where
  "follower_rule = \<lparr>p_account = Some ''did:a'', p_tree = follower_tree\<rparr>"

lemma sample_saved:
  "save_update 5 ''g'' ''r'' 1 follower_rule sample_db = (Inr 1, save_rows 5 ''g'' ''r'' 1 follower_rule sample_db)"
  "find_link ''g'' ''r'' sample_db = Some sample_link"
  by (simp_all add: save_update_def find_link_def find_row_def link_key_def sample_link_def i32_max_def)

lemma one_of_two_saves_wins_witness:
  "fst (save_update 6 ''g'' ''r'' 1 follower_rule (save_rows 5 ''g'' ''r'' 1 follower_rule sample_db)) = Inr 0"
  using one_of_two_saves_wins [OF _ sample_saved(1) _ sample_saved(2), where now' = 6 and ss = "[]"
      and p' = follower_rule and app = open_world and meanwhile = "\<lambda>d. d" and w = "()"]
  by (simp add: other_saves_def)

text \<open>
  C33: the version a save reports is not always its own. It is read by a statement of its own, so a save
  that comes between the two hands its version to the first sender, whose next save then overwrites,
  unseen, the rule of the second: the update is lost although every save held the version lock.
\<close>

theorem reported_version_hides_an_update:
  assumes "db_ok d" and "find_link g r d = Some l" and "rl_version l + 2 < i32_max"
  shows "let v = rl_version l;
      (answer, s1) = save_statements app g r v p1 (save_rows now g r (v + 1) p2) (d, w)
    in answer = Inr (v + 2) \<and> (\<exists>l1. find_link g r (fst s1) = Some l1 \<and> rl_tree l1 = json_of_tree (p_tree p2)) \<and>
       (\<exists>s2 l2. save_locked app g r (v + 2) p3 s1 = (Inr (v + 3), s2) \<and>
          find_link g r (fst s2) = Some l2 \<and> rl_tree l2 = json_of_tree (p_tree p3))"
proof -
  let ?v = "rl_version l"
  let ?d1 = "save_rows (ap_now app) g r ?v p1 d"
  let ?d2 = "save_rows now g r (?v + 1) p2 ?d1"
  have l1: "find_link g r ?d1 = Some (saved_link (ap_now app) p1 l)" using save_lookup [OF assms(2) refl] by simp
  then have l2: "find_link g r ?d2 = Some (saved_link now p2 (saved_link (ap_now app) p1 l))"
    using save_lookup [of g r ?d1 "saved_link (ap_now app) p1 l" "?v + 1"] by (simp add: saved_link_def)
  have run: "save_statements app g r ?v p1 (save_rows now g r (?v + 1) p2) (d, w) = (Inr (?v + 2), (?d2, w))"
    using assms l2 by (simp add: save_statements_def save_update_def hits_of_link save_answer_def io_then_def saved_link_def)
  let ?s2 = "(save_rows (ap_now app) g r (?v + 2) p3 ?d2, w)"
  have "save_locked app g r (?v + 2) p3 (?d2, w) = (Inr (?v + 3), ?s2)"
    using l2 assms(3) by (auto simp: save_locked_Inr saved_link_def)
  moreover have "\<exists>l3. find_link g r (fst ?s2) = Some l3 \<and> rl_tree l3 = json_of_tree (p_tree p3)"
    using save_lookup [OF l2, of "?v + 2"] by (simp add: saved_link_def)
  ultimately show ?thesis using run l2 by (simp add: saved_link_def)
qed

lemma reported_version_hides_an_update_witness:
  "fst (save_statements open_world ''g'' ''r'' 1 follower_rule
     (save_rows 7 ''g'' ''r'' 2 (follower_rule\<lparr>p_account := None\<rparr>)) (sample_db, ())) = Inr 3"
  using reported_version_hides_an_update [OF _ sample_saved(2), of open_world follower_rule 7
      "follower_rule\<lparr>p_account := None\<rparr>" "()" follower_rule]
  by (simp add: sample_link_def i32_max_def split: prod.splits)

subsection \<open>Locks that are taken over\<close>

text \<open>
  C34: the lock of a job is not fenced. When a job outlasts its lock, the next sweep puts it back and
  another worker claims it; the failure of the first worker, reported by id alone, then unlocks the
  row under the second, so that a third may run the job while the second still does.
\<close>

theorem late_failures_break_foreign_locks:
  assumes "queue_ok d" and "claim_batch now skip w n d = (js, d1)" and "j \<in> set js"
    and "claim_batch now' skip' w' n' (snd (reap_stuck later stuck_lock_secs d1)) = (js', d2)"
    and "j' \<in> set js'" and "j_id j' = j_id j" and "j_attempts j < j_max_attempts j"
  shows "(\<exists>row \<in> set (jobs d2). j_id row = j_id j \<and> j_status row = InProgress \<and> j_locked_by row = Some w') \<and>
    (\<forall>row \<in> set (jobs (finish_job app jitter j (Inl (Retry msg)) d2)). j_id row = j_id j \<longrightarrow>
       j_status row = Pending \<and> j_locked_by row = None)"
proof
  have "queue_ok d1" using claim_queue_ok [OF assms(1), of now skip w n] assms(2) by simp
  then have "queue_ok (snd (reap_stuck later stuck_lock_secs d1))" by (rule reap_queue_ok)
  from claim_marks [OF this assms(4,5)] assms(6)
  show "\<exists>row \<in> set (jobs d2). j_id row = j_id j \<and> j_status row = InProgress \<and> j_locked_by row = Some w'"
    by (auto simp: claim_row_def intro!: bexI [of _ j'])
  have "j_status row = Pending \<and> j_locked_by row = None"
    if "row \<in> set (jobs (fail_retry now jitter j msg d2))" "j_id row = j_id j" for row now
    using that by (simp add: fail_retry_def) (erule update_whereE; simp)
  then show "\<forall>row \<in> set (jobs (finish_job app jitter j (Inl (Retry msg)) d2)). j_id row = j_id j \<longrightarrow>
      j_status row = Pending \<and> j_locked_by row = None"
    using assms(7) by (simp add: finish_job_def)
qed

lemma late_failures_break_foreign_locks_witness:
  "let (js, d1) = claim_batch 5 (\<lambda>i. False) ''w1'' 8 sample_db;
       (js', d2) = claim_batch 3000000007 (\<lambda>i. False) ''w2'' 8 (snd (reap_stuck 3000000006 stuck_lock_secs d1));
       d3 = finish_job open_world 0 (hd js) (Inl (Retry ''slow'')) d2
   in \<exists>row \<in> set (jobs d2). j_locked_by row = Some ''w2'' \<and>
        (\<forall>row' \<in> set (jobs d3). j_id row' = j_id row \<longrightarrow> j_locked_by row' = None)"
proof -
  let ?j = "claim_row 5 ''w1'' sample_job"
  let ?d1 = "sample_db\<lparr>jobs := [?j]\<rparr>"
  have c: "claim_batch 5 (\<lambda>i. False) ''w1'' 8 sample_db = ([?j], ?d1)"
    by (simp add: claim_batch_def claim_ids_def claimable_def sample_job_def new_job_def Let_def
        update_where_def claim_row_def)
  let ?r = "?j\<lparr>j_status := Pending, j_next_run_at := 3000000006, j_locked_by := None, j_locked_at := None\<rparr>"
  let ?j2 = "claim_row 3000000007 ''w2'' ?r"
  have c': "claim_batch 3000000007 (\<lambda>i. False) ''w2'' 8 (snd (reap_stuck 3000000006 stuck_lock_secs ?d1)) =
      ([?j2], ?d1\<lparr>jobs := [?j2]\<rparr>)"
    by (simp add: claim_batch_def claim_ids_def claimable_def sample_job_def new_job_def Let_def
        update_where_def claim_row_def reap_stuck_def stuck_def stuck_lock_secs_def secs_def)
  have "j_id ?j2 = j_id ?j" "j_attempts ?j < j_max_attempts ?j"
    by (simp_all add: claim_row_def sample_job_def new_job_def)
  from late_failures_break_foreign_locks [OF _ c _ c' _ this, of open_world 0 "''slow''"] c c' show ?thesis
    by simp
qed

subsection \<open>Stopping\<close>

text \<open>
  A signal that waits when a task looks stops it at once: the worker ends before it reads or claims
  anything, the reconciliation before it touches an account, the listener before it connects.
\<close>

theorem waiting_signal_stops_the_tasks:
  assumes "delivers_once ch" and "quiet ch c"
  shows "(\<exists>c'. worker_turn app ch w e (ch_send ch c, s) = Some (Stopped (c', s))) \<and>
    (\<exists>c'. reconcile_dids app ch during (did # dids) (ch_send ch c) s = Some (c', s)) \<and>
    (\<exists>c'. listener_step ch Subscribed (Connecting, ch_send ch c, n) = (Exited, c', n))"
proof -
  obtain c' where "is_triggered ch (ch_send ch c) = (True, c')" using sent_triggers [OF assms] .
  then show ?thesis by (simp add: worker_turn_def)
qed

definition counting :: "nat channel" where
  "counting = \<lparr>ch_try_recv = (\<lambda>n. if n = 0 then (Empty, 0) else (Received, n - 1)), ch_send = Suc\<rparr>"

lemma counting_ok: "delivers_once counting" "quiet counting 0" "ch_send counting = Suc"
proof -
  have q: "quiet counting n \<longleftrightarrow> n = 0" for n by (simp add: quiet_def counting_def)
  then show "quiet counting 0" by simp
  show "delivers_once counting" unfolding delivers_once_def q by (simp add: counting_def)
  show "ch_send counting = Suc" by (simp add: counting_def)
qed

definition busy_env :: "nat turn_env" where
  "busy_env = \<lparr>te_reap = False, te_skip = (\<lambda>i. False), te_jitter = (\<lambda>i. 0),
     te_during = (\<lambda>i. if i = 1 then Suc else (\<lambda>n. n)), te_idle = (\<lambda>n. n), te_woken = True\<rparr>"

lemma waiting_signal_stops_the_tasks_witness:
  "\<exists>c'. worker_turn open_world counting ''w'' busy_env (1, (sample_db, ())) = Some (Stopped (c', (sample_db, ())))"
  using waiting_signal_stops_the_tasks [OF counting_ok(1,2), of open_world "''w''" busy_env "(sample_db, ())"]
  by (simp add: counting_ok(3))

text \<open>
  A turn of the worker is one of the passes that the program as a whole is made of, whatever signal
  arrives when: between two looks at the channel nothing but the statements of the jobs happens.
\<close>

theorem turns_are_passes:
  assumes "full_ok (fst s)" and "worker_turn app ch w e (c, s) = Some (Goes_on (c', s'))"
  shows "full_ok (fst s') \<and> system_step s s'"
proof -
  from assms obtain turn where p: "worker_pass app w (te_reap e) (te_skip e) turn s = Some s'"
    using worker_turn_pass [of s app ch w e c c' s'] by (auto simp: full_ok_def)
  with worker_pass_full [OF assms(1)] show ?thesis using system_step.work by blast
qed

text \<open>
  C24: a worker interrupted in the middle of its batch never stops. \<open>is_triggered\<close> takes the signal out
  of the channel when the worker looks before the next job; that job is put back, but neither the
  jobs after it nor the head of the loop see the signal again. However many turns follow, the worker
  does not stop. (\<open>main.rs\<close> joins its workers before it ends.)
\<close>

theorem interrupted_worker_never_stops:
  assumes "delivers_once ch" and "quiet ch c" and "queue_ok (fst s)"
    and "claim_batch (ap_now app) (te_skip e) w batch_size (fst s) = (pre @ j # k # post, d')"
    and "\<not> te_reap e" and "te_during e = (\<lambda>i. if i = j_id j then ch_send ch else (\<lambda>x. x))"
    and "worker_turn app ch w e (c, s) = Some t" and "list_all silent es"
  shows "\<exists>x. t = Goes_on x \<and> (\<forall>y. worker_turns app ch w es x \<noteq> Some (Stopped y))"
proof -
  from assms(2,4,5,7) obtain c' s' where t: "t = Goes_on (c', s')"
    and run: "run_batch app ch e (pre @ j # k # post) c (d', snd s) = Some (c', s')"
    by (auto simp: worker_turn_def Let_def split: if_splits)
  have "quiet ch c'"
    by (rule signal_lost [OF assms(1,2) claim_distinct [OF assms(3,4)] assms(6) run])
  then show ?thesis using silent_turns [OF _ assms(8)] t by blast
qed

definition two_jobs :: db where
  "two_jobs = sample_db\<lparr>jobs := [sample_job, sample_job\<lparr>j_id := 2\<rparr>], next_job_id := 3\<rparr>"

definition idle_env :: "nat turn_env" where
  "idle_env = busy_env\<lparr>te_during := (\<lambda>i n. n)\<rparr>"

lemma two_jobs_turn:
  obtains t where "worker_turn open_world counting ''w'' busy_env (0, (two_jobs, ())) = Some t"
proof -
  let ?a = "claim_row 1000000000 ''w'' sample_job"
  have claimed: "claim_batch (ap_now open_world) (te_skip busy_env) ''w'' batch_size two_jobs =
      ([?a, ?a\<lparr>j_id := 2\<rparr>], two_jobs\<lparr>jobs := [?a, ?a\<lparr>j_id := 2\<rparr>]\<rparr>)"
    by (simp add: open_world_def busy_env_def two_jobs_def claim_batch_def claim_ids_def claimable_def
        sample_job_def new_job_def Let_def update_where_def claim_row_def batch_size_def)
  have k: "kind_from_db (j_kind ?a) = Some ConfigSync" "payload_text ?a ''guild_id'' = Some ''g''"
    "payload_text ?a ''role_id'' = Some ''r''"
    by (simp_all add: payload_text_def sample_job_def new_job_def config_payload_def claim_row_def kind_from_db_def)
  from config_job_returns [OF k, of open_world 0 "(two_jobs\<lparr>jobs := [?a, ?a\<lparr>j_id := 2\<rparr>]\<rparr>, ())"]
  obtain s1 where "run_job open_world False 0 ?a (two_jobs\<lparr>jobs := [?a, ?a\<lparr>j_id := 2\<rparr>]\<rparr>, ()) = Some s1" by blast
  moreover have "is_triggered counting 0 = (False, 0)" using counting_ok(2) by simp
  moreover have "is_triggered counting 1 = (True, 0)" by (simp add: is_triggered_def counting_def)
  moreover have "j_id ?a = 1" by (simp add: claim_row_def sample_job_def new_job_def)
  moreover obtain s2 where "run_job open_world True 0 (?a\<lparr>j_id := 2\<rparr>) s1 = Some s2" by (simp add: run_job_def)
  ultimately have "run_batch open_world counting busy_env [?a, ?a\<lparr>j_id := 2\<rparr>] 0
      (two_jobs\<lparr>jobs := [?a, ?a\<lparr>j_id := 2\<rparr>]\<rparr>, ()) = Some (0, s2)"
    by (simp add: busy_env_def)
  then show thesis
    using that claimed \<open>is_triggered counting 0 = (False, 0)\<close>
    by (auto simp: worker_turn_def Let_def) (simp add: busy_env_def)
qed

lemma interrupted_worker_never_stops_witness:
  "\<exists>x. worker_turn open_world counting ''w'' busy_env (0, (two_jobs, ())) = Some (Goes_on x) \<and>
     (\<forall>y. worker_turns open_world counting ''w'' (replicate 1000 idle_env) x \<noteq> Some (Stopped y))"
proof -
  let ?a = "claim_row 1000000000 ''w'' sample_job"
  have claimed: "claim_batch (ap_now open_world) (te_skip busy_env) ''w'' batch_size (fst (two_jobs, ())) =
      ([] @ ?a # ?a\<lparr>j_id := 2\<rparr> # [], two_jobs\<lparr>jobs := [?a, ?a\<lparr>j_id := 2\<rparr>]\<rparr>)"
    by (simp add: open_world_def busy_env_def two_jobs_def claim_batch_def claim_ids_def claimable_def
        sample_job_def new_job_def Let_def update_where_def claim_row_def batch_size_def)
  have ok: "queue_ok (fst (two_jobs, ()))"
    by (simp add: queue_ok_def two_jobs_def unique_key_def row_ok_def sample_job_def new_job_def kind_from_db_def)
  have during: "te_during busy_env = (\<lambda>i. if i = j_id ?a then ch_send counting else (\<lambda>x. x))"
    by (simp add: busy_env_def counting_ok(3) claim_row_def sample_job_def new_job_def cong del: if_weak_cong)
  have "\<not> te_reap busy_env" "list_all silent (replicate 1000 idle_env)"
    by (simp_all add: busy_env_def idle_env_def silent_def list_all_iff)
  moreover obtain t where "worker_turn open_world counting ''w'' busy_env (0, (two_jobs, ())) = Some t"
    by (rule two_jobs_turn)
  ultimately show ?thesis
    using interrupted_worker_never_stops [OF counting_ok(1,2) ok claimed _ during] by auto
qed

text \<open>
  A reconciliation interrupted before the last account never stops either: it breaks off its pass,
  but the wait after it needs a signal that is gone.
\<close>

theorem interrupted_reconciliation_never_stops:
  assumes "delivers_once ch" and "quiet ch c" and "db_ok (fst s)"
    and "map ba_did (accounts (fst s)) = pre @ did # k # post"
    and "reconcile_turn app ch (\<lambda>i. if i = did then ch_send ch else (\<lambda>x. x)) (\<lambda>x. x) ticked (c, s) = Some t"
  shows "\<exists>x. t = Goes_on x \<and> (\<forall>ts y. reconcile_turns app ch ts x \<noteq> Some (Stopped y))"
proof -
  have dist: "distinct (pre @ did # k # post)"
    using assms(3,4) by (metis db_ok_def keys_ok_def unique_key_def)
  from assms(4,5) obtain c' s' where
    run: "reconcile_dids app ch (\<lambda>i. if i = did then ch_send ch else (\<lambda>x. x)) (pre @ did # k # post) c s = Some (c', s')"
    and t: "t = (if wait_ready ch c' \<and> \<not> ticked then Stopped (wait_done ch c', s') else Goes_on (c', s'))"
    by (auto simp: reconcile_turn_def)
  have q: "quiet ch c'" by (rule reconcile_signal_lost [OF assms(1,2) dist refl run])
  then have "t = Goes_on (c', s')" using t by simp
  with silent_reconcile_turns [OF q] show ?thesis by blast
qed

definition two_accounts :: db where
  "two_accounts = sample_db\<lparr>accounts := [sample_account, second_account]\<rparr>"

lemma interrupted_reconciliation_never_stops_witness:
  "\<exists>x. reconcile_turn (sample_app down plain_crates :: unit app) counting
       (\<lambda>i. if i = ''did:a'' then ch_send counting else (\<lambda>x. x)) (\<lambda>x. x) False (0, (two_accounts, ())) =
     Some (Goes_on x) \<and>
     (\<forall>ts y. reconcile_turns (sample_app down plain_crates :: unit app) counting ts x \<noteq> Some (Stopped y))"
proof -
  let ?app = "sample_app down plain_crates :: unit app"
  let ?during = "\<lambda>i :: string. if i = ''did:a'' then ch_send counting else (\<lambda>x. x)"
  have ok: "db_ok (fst (two_accounts, ()))"
    using sample_db_ok(1)
    by (simp add: two_accounts_def db_ok_def keys_ok_def refs_ok_def sample_handles)
      (simp add: unique_key_def sample_relation_def)
  have dids: "map ba_did (accounts (fst (two_accounts, ()))) = [] @ ''did:a'' # ''did:b'' # []"
    by (simp add: two_accounts_def sample_account_def)
  let ?s = "(two_accounts, ())"
  have "\<exists>e. valid_access_jwt ?app ''did:a'' ?s = (Inl e, ?s)"
    by (simp add: valid_access_jwt_def two_accounts_def find_row_def open_text_def decrypt_def nonce_bytes_def)
      (simp add: sample_account_def)
  then obtain e where "refresh_account ?app ''did:a'' ?s = Some (Inl e, ?s)"
    by (auto simp: refresh_account_def ot_then_def total_def)
  then have "reconcile_account ?app ''did:a'' ?s = Some (Inr (), ?s)"
    by (simp add: reconcile_account_def ot_then_def attempt_def total_def)
  moreover have "is_triggered counting 0 = (False, 0)" "is_triggered counting 1 = (True, 0)"
    by (simp_all add: is_triggered_def counting_def)
  ultimately have "reconcile_turn ?app counting ?during (\<lambda>x. x) False (0, ?s) = Some (Goes_on (0, ?s))"
    using dids counting_ok(2) by (simp add: reconcile_turn_def counting_ok(3))
  with interrupted_reconciliation_never_stops [OF counting_ok(1,2) ok dids this] show ?thesis by blast
qed

end
