(* ===== verification/Process_Properties.thy ===== *)
theory Process_Properties
  imports Startup Lifecycle_Properties Access_Properties
begin

section \<open>Properties of the process: what it answers, how it starts and ends\<close>

text \<open>
  The layers around the router, and the race at the end of \<open>main\<close>. The channel of the witness is
  \<open>counting\<close>, the number of signals not yet received.
\<close>

subsection \<open>Embedding\<close>

text \<open>
  C22: only the role editor can be embedded, and by the configured dashboard alone. Every other answer,
  also of the router, the CORS layer and the rate limiter, forbids it; each carries the four security
  headers, and a rejected request closes its connection and changes nothing.
\<close>

theorem only_the_editor_is_framed:
  assumes "from_env env = Some (ap_config app)" and "silent_on_embedding a"
    and "respond app pr a s = ((st, hs), s')"
  shows "(if editor_arrival a
      then \<exists>dash. rl_dashboard_origin (ap_config app) = Some dash \<and> csp_of hs = Some (''frame-ancestors '' @ dash)
      else csp_of hs = Some nobody_embeds) \<and>
    (\<forall>kv \<in> set baseline_headers. fst kv \<in> fst ` set hs) \<and>
    (case a of Limited h \<Rightarrow> map_of hs ''connection'' = Some ''close'' \<and> s' = s | _ \<Rightarrow> True)"
proof (intro conjI)
  from dashboard_configured [OF assms(1)]
  obtain dash where dash: "rl_dashboard_origin (ap_config app) = Some dash" by blast
  with respond_head [OF assms(2,3)] show "if editor_arrival a
      then \<exists>dash. rl_dashboard_origin (ap_config app) = Some dash \<and> csp_of hs = Some (''frame-ancestors '' @ dash)
      else csp_of hs = Some nobody_embeds"
    by (simp add: admin_iframe_csp_def or_default_def)
  show "\<forall>kv \<in> set baseline_headers. fst kv \<in> fst ` set hs"
    using respond_baseline [of _ app pr a s] assms(3) by simp
  show "case a of Limited h \<Rightarrow> map_of hs ''connection'' = Some ''close'' \<and> s' = s | _ \<Rightarrow> True"
    using assms(3) by (cases a) (auto simp: limited_closes)
qed

definition four_variables :: environment where
  "four_variables = map_of [(''BASE_URL'', ''https://b.example/p''), (''DATABASE_URL'', ''postgres://db''),
     (''SESSION_SECRET'', ''secret''), (''INTERNAL_API_KEY'', ''key'')]"

lemma four_variables_start:
  obtains cfg where "from_env four_variables = Some cfg"
    "rl_dashboard_origin cfg = Some ''https://rolelogic.faizo.net''"
  by (simp add: from_env_def four_variables_def env_url_def or_default_def)

definition editor_request :: http_call where
  "editor_request = call_of GET [''admin'', ''g'', ''role'', ''r''] (bare_request []) NoBody"

lemma editor_request_route: "editor_call editor_request"
  by (simp add: editor_request_def call_of_def editor_call_def route_def route_table_def mount_def)

lemma only_the_editor_is_framed_witness:
  "\<exists>cfg. from_env four_variables = Some cfg \<and>
    csp_of (snd (fst (respond ((sample_app down plain_crates :: unit app)\<lparr>ap_config := cfg\<rparr>) no_probes
      (Call editor_request []) (sample_db, ())))) = Some ''frame-ancestors https://rolelogic.faizo.net'' \<and>
    csp_of (snd (fst (respond ((sample_app down plain_crates :: unit app)\<lparr>ap_config := cfg\<rparr>) no_probes
      (Limited (429, [])) (sample_db, ())))) = Some nobody_embeds"
proof -
  from four_variables_start obtain cfg where cfg: "from_env four_variables = Some cfg"
    "rl_dashboard_origin cfg = Some ''https://rolelogic.faizo.net''" .
  let ?app = "(sample_app down plain_crates :: unit app)\<lparr>ap_config := cfg\<rparr>"
  have app: "from_env four_variables = Some (ap_config ?app)" using cfg by simp
  obtain st hs s' where run: "respond ?app no_probes (Call editor_request []) (sample_db, ()) = ((st, hs), s')"
    by (metis prod.exhaust)
  have quiet: "silent_on_embedding (Call editor_request [])" by (simp add: csp_of_def)
  from only_the_editor_is_framed [OF app quiet run] cfg(2) editor_request_route
  have "csp_of hs = Some ''frame-ancestors https://rolelogic.faizo.net''" by simp
  moreover have "csp_of (snd (fst (respond ?app no_probes (Limited (429, [])) (sample_db, ())))) = Some nobody_embeds"
    using only_the_editor_is_framed [OF app, of "Limited (429, [])" no_probes "(sample_db, ())"] by (simp add: csp_of_def)
  ultimately show ?thesis using cfg(1) run by auto
qed

subsection \<open>Shutdown\<close>

text \<open>
  C25: a signal between the last two steps of the start is lost on the HTTP server. The process then says
  that it drains and every background task can see the signal, but the server, subscribed after the
  message was sent, never will, whatever follows; \<open>main\<close> waits for it first and does not end.
\<close>

theorem late_server_misses_the_signal:
  assumes "delivers_once ch" and "quiet ch fresh"
  shows "\<exists>p. reach (\<lambda>p. \<exists>cfg. p = booting cfg) (process_step ch fresh) p \<and> pc_todo p = [] \<and>
    (\<forall>t \<in> set (background_tasks cfg). \<exists>c. (t, c) \<in> set (pc_receivers p) \<and> wait_ready ch c) \<and>
    (\<forall>q ended. (process_step ch fresh)\<^sup>*\<^sup>* p q \<longrightarrow>
       (ended ServerTask \<longrightarrow> (\<exists>c. (ServerTask, c) \<in> set (pc_receivers q) \<and> wait_ready ch c)) \<longrightarrow>
       fst (ready (pc_draining q)) = 503 \<and> waits_for ended (main_joins cfg) = Some ServerTask)"
proof (rule exI [of _ "late_start ch fresh cfg"], intro conjI ballI allI impI)
  show "reach (\<lambda>p. \<exists>cfg. p = booting cfg) (process_step ch fresh) (late_start ch fresh cfg)"
    by (rule reach_steps [OF late_start_reached]) (blast intro: reach_init)
  show "pc_todo (late_start ch fresh cfg) = []" by (simp add: late_start_def)
  show "\<exists>c. (t, c) \<in> set (pc_receivers (late_start ch fresh cfg)) \<and> wait_ready ch c"
    if "t \<in> set (background_tasks cfg)" for t by (rule late_start_others [OF assms that])
next
  fix q :: "'a process" and ended :: "task \<Rightarrow> bool"
  assume steps: "(process_step ch fresh)\<^sup>*\<^sup>* (late_start ch fresh cfg) q"
    and ends: "ended ServerTask \<longrightarrow> (\<exists>c. (ServerTask, c) \<in> set (pc_receivers q) \<and> wait_ready ch c)"
  from missed_steps [OF steps late_start_missed [OF assms(2)]] have q: "missed ch q" .
  then show "fst (ready (pc_draining q)) = 503" by (simp add: missed_def ready_def)
  from q ends have "\<not> ended ServerTask" by (auto simp: missed_def)
  then show "waits_for ended (main_joins cfg) = Some ServerTask" by (rule main_waits_for_server)
qed

lemma late_server_misses_the_signal_witness:
  "\<exists>p :: nat process. reach (\<lambda>p. \<exists>cfg. p = booting cfg) (process_step counting 0) p \<and>
    (\<exists>c. (ReconcileTask, c) \<in> set (pc_receivers p) \<and> wait_ready counting c) \<and>
    waits_for (\<lambda>t. t \<noteq> ServerTask) (main_joins sample_config) = Some ServerTask"
  using late_server_misses_the_signal [OF counting_ok(1,2), of sample_config] main_waits_for_server
  by (fastforce simp: background_tasks_def)

end
