(* ===== verification/Claim_Race.thy ===== *)
theory Claim_Race
  imports Job_Queue
begin

section \<open>Claims that overlap (\<open>claim_batch\<close> in \<open>services/jobs.rs\<close>)\<close>

text \<open>
  The claim is one statement of two halves: the inner \<open>SELECT ... FOR UPDATE SKIP LOCKED\<close> picks and locks
  rows, the outer \<open>UPDATE\<close> writes them and returns them, and the locks last until it commits. Here the
  halves of several workers interleave, and the other statements of the queue run in between; one that
  names a locked row waits for the lock. A worker may also lose its transaction between the halves.

  \<open>atomic_claim\<close>: two halves with nothing between are \<open>claim_batch\<close> of \<open>Job_Queue\<close>, passing over what the
  others have locked. \<open>claim_inv\<close>: the locks of different workers are disjoint and lie on pending, due
  rows. \<open>out_stays\<close>: a job that was handed out is in nobody's reach until it is put back.
\<close>

definition mark_claimed :: "instant \<Rightarrow> string \<Rightarrow> int list \<Rightarrow> db \<Rightarrow> job list \<times> db" where
  "mark_claimed now worker ids d =
     (let rows = update_where (\<lambda>j. j_id j \<in> set ids) (claim_row now worker) (jobs d)
      in (filter (\<lambda>j. j_id j \<in> set ids) rows, d\<lparr>jobs := rows\<rparr>))"

record claiming =
  cs_db :: db
  cs_open :: "string \<rightharpoonup> instant \<times> int list"
    \<comment> \<open>by worker: the time of its transaction and the rows it has locked\<close>

definition locked :: "claiming \<Rightarrow> int \<Rightarrow> bool" where
  "locked s i \<longleftrightarrow> (\<exists>(now, ids) \<in> ran (cs_open s). i \<in> set ids)"

datatype claim_event =
    Selects string "int list"
  | Hands_out string "job list"
  | Puts_back "int set"
  | Other

fun put_again :: "claim_event \<Rightarrow> int set" where
  "put_again (Puts_back ids) = ids"
| "put_again _ = {}"

inductive claim_step :: "claiming \<Rightarrow> claim_event \<Rightarrow> claiming \<Rightarrow> bool" where
  select: "cs_open s w = None \<Longrightarrow> ids = claim_ids now (locked s) n (cs_db s) \<Longrightarrow>
    claim_step s (Selects w ids) (s\<lparr>cs_open := (cs_open s)(w \<mapsto> (now, ids))\<rparr>)"
| update: "cs_open s w = Some (now, ids) \<Longrightarrow> mark_claimed now w ids (cs_db s) = (js, d) \<Longrightarrow>
    claim_step s (Hands_out w js) (s\<lparr>cs_db := d, cs_open := (cs_open s)(w := None)\<rparr>)"
| rolled_back: "claim_step s Other (s\<lparr>cs_open := (cs_open s)(w := None)\<rparr>)"
| queue: "claim_step s Other (s\<lparr>cs_db := enqueue now k payload delay (cs_db s)\<rparr>)"
| queue_unless: "claim_step s Other (s\<lparr>cs_db := enqueue_config_sync_unless_queued now g r delay (cs_db s)\<rparr>)"
| completes: "\<not> locked s i \<Longrightarrow> claim_step s Other (s\<lparr>cs_db := complete now i (cs_db s)\<rparr>)"
| gives_up: "\<not> locked s i \<Longrightarrow> claim_step s Other (s\<lparr>cs_db := fail_dead now i err (cs_db s)\<rparr>)"
| retries: "\<not> locked s (j_id job) \<Longrightarrow>
    claim_step s (Puts_back {j_id job}) (s\<lparr>cs_db := fail_retry now jitter job err (cs_db s)\<rparr>)"
| reaps: "claim_step s (Puts_back (j_id ` {j \<in> set (jobs (cs_db s)). stuck now limit j}))
    (s\<lparr>cs_db := snd (reap_stuck now limit (cs_db s))\<rparr>)"

inductive_cases claim_stepE: "claim_step s e t"

inductive claim_run :: "claiming \<Rightarrow> claim_event list \<Rightarrow> claiming \<Rightarrow> bool" where
  run_done: "claim_run s [] s"
| run_step: "claim_step s e t \<Longrightarrow> claim_run t es u \<Longrightarrow> claim_run s (e # es) u"

inductive_cases run_ConsE: "claim_run s (e # es) u"

lemma run_append: "claim_run s (es @ fs) u \<Longrightarrow> \<exists>t. claim_run s es t \<and> claim_run t fs u"
proof (induction es arbitrary: s)
  case Nil
  then show ?case by (auto intro: run_done)
next
  case (Cons e es)
  from Cons.prems obtain t where "claim_step s e t" "claim_run t (es @ fs) u" by (auto elim: run_ConsE)
  with Cons.IH show ?case by (blast intro: run_step)
qed

lemma atomic_claim:
  "mark_claimed now w (claim_ids now (locked s) n (cs_db s)) (cs_db s) = claim_batch now (locked s) w n (cs_db s)"
  by (simp add: mark_claimed_def claim_batch_def Let_def)

subsection \<open>The invariant\<close>

definition due_row :: "instant \<Rightarrow> int \<Rightarrow> db \<Rightarrow> bool" where
  "due_row now i d \<longleftrightarrow> (\<exists>j \<in> set (jobs d). j_id j = i \<and> j_status j = Pending \<and> j_next_run_at j \<le> now)"

definition locks_disjoint :: "(string \<rightharpoonup> instant \<times> int list) \<Rightarrow> bool" where
  "locks_disjoint op \<longleftrightarrow>
     (\<forall>w w' x x'. op w = Some x \<longrightarrow> op w' = Some x' \<longrightarrow> w \<noteq> w' \<longrightarrow> set (snd x) \<inter> set (snd x') = {})"

definition locks_due :: "claiming \<Rightarrow> bool" where
  "locks_due s \<longleftrightarrow> (\<forall>w now ids i. cs_open s w = Some (now, ids) \<longrightarrow> i \<in> set ids \<longrightarrow> due_row now i (cs_db s))"

definition claim_inv :: "claiming \<Rightarrow> bool" where
  "claim_inv s \<longleftrightarrow> queue_ok (cs_db s) \<and> locks_disjoint (cs_open s) \<and> locks_due s"

lemma locked_iff: "locked s i \<longleftrightarrow> (\<exists>w now ids. cs_open s w = Some (now, ids) \<and> i \<in> set ids)"
  by (force simp: locked_def ran_def)

lemma lockedI: "cs_open s w = Some x \<Longrightarrow> i \<in> set (snd x) \<Longrightarrow> locked s i"
  by (cases x) (auto simp: locked_iff)

lemma due_row_update:
  assumes "due_row now i d" "\<And>j. j_id (f j) = j_id j" "\<And>j. P j \<Longrightarrow> j_id j = i \<Longrightarrow> j_status j \<noteq> Pending"
  shows "due_row now i (d\<lparr>jobs := update_where P f (jobs d)\<rparr>)"
  using assms by (force simp: due_row_def set_update_where)

lemma due_row_other:
  assumes "due_row now i d" "\<And>j. P j \<Longrightarrow> j_id j \<noteq> i"
  shows "due_row now i (d\<lparr>jobs := update_where P f (jobs d)\<rparr>)"
  using assms by (force simp: due_row_def set_update_where)

lemma due_row_append: "due_row now i d \<Longrightarrow> due_row now i (d\<lparr>jobs := jobs d @ js, next_job_id := n\<rparr>)"
  by (auto simp: due_row_def)

lemma due_row_enqueue:
  "due_row t i d \<Longrightarrow> due_row t i (enqueue now k p delay d)"
  "due_row t i d \<Longrightarrow> due_row t i (enqueue_config_sync_unless_queued now g r delay d)"
  by (auto simp: due_row_def enqueue_def enqueue_config_sync_unless_queued_def)

lemma marked_ok: "queue_ok d \<Longrightarrow> queue_ok (snd (mark_claimed now w ids d))"
  by (auto simp: mark_claimed_def Let_def claim_row_def row_ok_def intro!: update_queue_ok)

lemma claim_step_ok: "claim_step s e t \<Longrightarrow> queue_ok (cs_db s) \<Longrightarrow> queue_ok (cs_db t)"
proof (induction rule: claim_step.induct)
  case (update s w now ids js d)
  with marked_ok [of "cs_db s" now w ids] show ?case by simp
qed (simp_all add: queue_ok_ops)

lemma locks_disjoint_add:
  assumes "locks_disjoint op" "\<And>w' x. op w' = Some x \<Longrightarrow> set ids \<inter> set (snd x) = {}"
  shows "locks_disjoint (op(w \<mapsto> (now, ids)))"
  unfolding locks_disjoint_def
proof (intro allI impI)
  fix v v' x x'
  assume a: "(op(w \<mapsto> (now, ids))) v = Some x" "(op(w \<mapsto> (now, ids))) v' = Some x'" "v \<noteq> v'"
  show "set (snd x) \<inter> set (snd x') = {}"
  proof (cases "v = w")
    case True
    with a assms(2) [of v' x'] show ?thesis by (cases "v' = w") auto
  next
    case v: False
    show ?thesis
    proof (cases "v' = w")
      case True
      with a v assms(2) [of v x] show ?thesis by auto
    next
      case False
      with a v have "op v = Some x" "op v' = Some x'" by simp_all
      with a(3) assms(1) show ?thesis unfolding locks_disjoint_def by blast
    qed
  qed
qed

lemma locks_disjoint_drop: "locks_disjoint op \<Longrightarrow> locks_disjoint (op(w := None))"
  unfolding locks_disjoint_def by (metis fun_upd_apply option.distinct(1))

lemma claim_step_disjoint:
  assumes "claim_step s e t" "locks_disjoint (cs_open s)" shows "locks_disjoint (cs_open t)"
  using assms
proof (induction rule: claim_step.induct)
  case (select s w ids now n)
  have free: "set ids \<inter> set (snd x) = {}" if "cs_open s w' = Some x" for w' x
  proof -
    have "\<not> locked s i" if "i \<in> set ids" for i
      using claim_ids_in [of i now "locked s" n "cs_db s"] select.hyps(2) that unfolding claimable_def by blast
    moreover have "locked s i" if "i \<in> set (snd x)" for i
      using \<open>cs_open s w' = Some x\<close> that lockedI by blast
    ultimately show ?thesis by blast
  qed
  have "locks_disjoint ((cs_open s)(w \<mapsto> (now, ids)))"
    using select.prems free by (rule locks_disjoint_add)
  then show ?case by (simp add: fun_upd_def)
qed (simp_all add: locks_disjoint_drop)

lemma others_unlocked:
  assumes "locks_disjoint (cs_open s)" "cs_open s w = Some (now, ids)" "i \<in> set ids"
  shows "\<not> locked (s\<lparr>cs_db := d, cs_open := (cs_open s)(w := None)\<rparr>) i"
proof
  assume "locked (s\<lparr>cs_db := d, cs_open := (cs_open s)(w := None)\<rparr>) i"
  then obtain w' now' ids' where "cs_open s w' = Some (now', ids')" "w' \<noteq> w" "i \<in> set ids'"
    by (auto simp: locked_iff split: if_splits)
  with assms show False unfolding locks_disjoint_def by fastforce
qed

lemma claim_step_due:
  assumes "claim_step s e t" "locks_disjoint (cs_open s)" "locks_due s" shows "locks_due t"
  using assms
proof (induction rule: claim_step.induct)
  case (select s w ids now n)
  have "due_row now i (cs_db s)" if "i \<in> set ids" for i
    using claim_ids_in [of i now "locked s" n "cs_db s"] select.hyps(2) that
    by (auto simp: due_row_def claimable_def)
  with select.prems show ?case by (auto simp: locks_due_def)
next
  case (update s w now ids js d)
  show ?case
    unfolding locks_due_def
  proof (intro allI impI)
    fix w' now' ids' i
    assume a: "cs_open (s\<lparr>cs_db := d, cs_open := (cs_open s)(w := None)\<rparr>) w' = Some (now', ids')" "i \<in> set ids'"
    then have o: "cs_open s w' = Some (now', ids')" "w' \<noteq> w" by (auto split: if_splits)
    with update.prems(1) update.hyps(1) a(2) have "i \<notin> set ids" unfolding locks_disjoint_def by fastforce
    moreover have "due_row now' i (cs_db s)" using update.prems(2) o a(2) by (auto simp: locks_due_def)
    moreover have "d = (cs_db s)\<lparr>jobs := update_where (\<lambda>j. j_id j \<in> set ids) (claim_row now w) (jobs (cs_db s))\<rparr>"
      using update.hyps(2) by (auto simp: mark_claimed_def Let_def)
    ultimately show "due_row now' i (cs_db (s\<lparr>cs_db := d, cs_open := (cs_open s)(w := None)\<rparr>))"
      using due_row_other [of now' i "cs_db s" "\<lambda>j. j_id j \<in> set ids" "claim_row now w"] by auto
  qed
next
  case (rolled_back s w)
  then show ?case by (auto simp: locks_due_def split: if_splits)
next
  case (queue s now k payload delay)
  then show ?case by (auto simp: locks_due_def due_row_enqueue)
next
  case (queue_unless s now g r delay)
  then show ?case by (auto simp: locks_due_def due_row_enqueue)
next
  case (completes s i now)
  then show ?case unfolding locks_due_def complete_def locked_iff by (force intro: due_row_other)
next
  case (gives_up s i now err)
  then show ?case unfolding locks_due_def fail_dead_def locked_iff by (force intro: due_row_other)
next
  case (retries s job now jitter err)
  then show ?case unfolding locks_due_def fail_retry_def locked_iff by (force intro: due_row_other)
next
  case (reaps s now limit)
  then show ?case unfolding locks_due_def reap_stuck_def
    by (force intro: due_row_update simp: stuck_def)
qed

lemma claim_step_inv: "claim_step s e t \<Longrightarrow> claim_inv s \<Longrightarrow> claim_inv t"
  unfolding claim_inv_def using claim_step_ok claim_step_disjoint claim_step_due by blast

lemma claim_run_inv: "claim_run s es t \<Longrightarrow> claim_inv s \<Longrightarrow> claim_inv t"
  by (induction rule: claim_run.induct) (auto intro: claim_step_inv)

text \<open>As a step system: the queue starts empty and nobody has a transaction.\<close>

interpretation claims: step_invariant
  "\<lambda>s. fresh_db (cs_db s) \<and> cs_open s = Map.empty" "\<lambda>s t. \<exists>e. claim_step s e t" claim_inv
proof
  fix s :: claiming
  assume a: "fresh_db (cs_db s) \<and> cs_open s = Map.empty"
  then have "jobs (cs_db s) = jobs (empty_db\<lparr>db_lower := db_lower (cs_db s)\<rparr>)" unfolding fresh_db_def by simp
  then have "queue_ok (cs_db s)" by (simp add: queue_ok_def empty_db_def)
  with a show "claim_inv s" by (simp add: claim_inv_def locks_disjoint_def locks_due_def)
qed (use claim_step_inv in blast)

subsection \<open>Out of reach\<close>

definition out :: "int \<Rightarrow> claiming \<Rightarrow> bool" where
  "out i s \<longleftrightarrow> \<not> locked s i \<and> i < next_job_id (cs_db s) \<and>
     (\<forall>j \<in> set (jobs (cs_db s)). j_id j = i \<longrightarrow> j_status j \<noteq> Pending)"

lemma hands_out:
  assumes inv: "claim_inv s" and step: "claim_step s (Hands_out w js) t" and j: "j \<in> set js"
  shows "out (j_id j) t" and "\<exists>now. \<exists>old \<in> set (jobs (cs_db s)). j = claim_row now w old \<and>
    j_status old = Pending \<and> j_next_run_at old \<le> now" and "locked s (j_id j)"
proof -
  from step obtain now ids d where o: "cs_open s w = Some (now, ids)" "mark_claimed now w ids (cs_db s) = (js, d)"
    and t: "t = s\<lparr>cs_db := d, cs_open := (cs_open s)(w := None)\<rparr>"
    by (rule claim_stepE) auto
  have ok: "queue_ok (cs_db s)" and disj: "locks_disjoint (cs_open s)" and due: "locks_due s"
    using inv by (simp_all add: claim_inv_def)
  let ?rows = "update_where (\<lambda>j. j_id j \<in> set ids) (claim_row now w) (jobs (cs_db s))"
  have js: "js = filter (\<lambda>j. j_id j \<in> set ids) ?rows" and d: "d = (cs_db s)\<lparr>jobs := ?rows\<rparr>"
    using o(2) by (simp_all add: mark_claimed_def Let_def)
  from j js have i: "j_id j \<in> set ids" and "j \<in> set ?rows" by simp_all
  from this(2) obtain old where old: "old \<in> set (jobs (cs_db s))" "j = claim_row now w old"
    by (rule update_whereE) (use i in auto)
  then have oldi: "j_id old \<in> set ids" using i by (simp add: claim_row_def)
  from due o(1) oldi obtain r where "r \<in> set (jobs (cs_db s))" "j_id r = j_id old" "j_status r = Pending"
    "j_next_run_at r \<le> now" unfolding locks_due_def due_row_def by blast
  moreover from this(1,2) old(1) ok have "r = old" by (metis queue_ok_def find_row_unique option.inject)
  ultimately have row: "j_status old = Pending" "j_next_run_at old \<le> now" by simp_all
  with old show "\<exists>now. \<exists>old \<in> set (jobs (cs_db s)). j = claim_row now w old \<and>
    j_status old = Pending \<and> j_next_run_at old \<le> now" by blast
  show "locked s (j_id j)" using lockedI [OF o(1)] i by simp
  have "\<not> locked t (j_id j)" unfolding t by (rule others_unlocked [OF disj o(1) i])
  moreover have "j_id j < next_job_id (cs_db t)"
    using ok old by (auto simp: t d queue_ok_def list_all_iff claim_row_def)
  moreover have "j_status x \<noteq> Pending" if x: "x \<in> set (jobs (cs_db t))" "j_id x = j_id j" for x
  proof -
    have "x \<in> set ?rows" using x(1) by (simp add: t d)
    then obtain x0 where "x = claim_row now w x0" by (rule update_whereE) (use x(2) i in auto)
    then show ?thesis by (simp add: claim_row_def)
  qed
  ultimately show "out (j_id j) t" by (simp add: out_def)
qed

lemma out_update:
  assumes "out i s" "\<And>j. j_id (f j) = j_id j" "\<And>j. P j \<Longrightarrow> j_id j = i \<Longrightarrow> j_status (f j) \<noteq> Pending"
  shows "out i (s\<lparr>cs_db := (cs_db s)\<lparr>jobs := update_where P f (jobs (cs_db s))\<rparr>\<rparr>)"
proof -
  have "j_status x \<noteq> Pending" if x: "x \<in> set (update_where P f (jobs (cs_db s)))" "j_id x = i" for x
    using x(1) by (rule update_whereE) (use assms x(2) in \<open>auto simp: out_def\<close>)
  with assms(1) show ?thesis by (simp add: out_def locked_def)
qed

lemma out_append:
  "out i s \<Longrightarrow> out i (s\<lparr>cs_db := (cs_db s)\<lparr>jobs := jobs (cs_db s) @ [new_job (next_job_id (cs_db s)) k p t],
     next_job_id := next_job_id (cs_db s) + 1\<rparr>\<rparr>)"
  by (auto simp: out_def locked_def new_job_def)

lemma out_fewer_locks: "out i s \<Longrightarrow> out i (s\<lparr>cs_open := (cs_open s)(w := None)\<rparr>)"
  by (auto simp: out_def locked_iff split: if_splits)

lemma out_stays:
  assumes "claim_step s e t" "claim_inv s" "out i s" "i \<notin> put_again e"
  shows "out i t"
  using assms
proof (induction rule: claim_step.induct)
  case (select s w ids now n)
  have "i \<notin> set ids"
  proof
    assume "i \<in> set ids"
    then obtain j where "j \<in> set (jobs (cs_db s))" "j_id j = i" "claimable now (locked s) j"
      using claim_ids_in [of i now "locked s" n "cs_db s"] select.hyps(2) by blast
    with select.prems(2) show False by (auto simp: out_def claimable_def)
  qed
  with select.prems(2) show ?case by (auto simp: out_def locked_iff split: if_splits)
next
  case (update s w now ids js d)
  have "d = (cs_db s)\<lparr>jobs := update_where (\<lambda>j. j_id j \<in> set ids) (claim_row now w) (jobs (cs_db s))\<rparr>"
    using update.hyps(2) by (auto simp: mark_claimed_def Let_def)
  with out_fewer_locks [OF out_update [OF update.prems(2), of "claim_row now w" "\<lambda>j. j_id j \<in> set ids"]]
  show ?case by (simp add: claim_row_def)
next
  case (rolled_back s w)
  then show ?case by (simp add: out_fewer_locks)
next
  case (queue s now k payload delay)
  then show ?case by (simp add: enqueue_def out_append)
next
  case (queue_unless s now g r delay)
  then show ?case by (simp add: enqueue_config_sync_unless_queued_def out_append)
next
  case (completes s k now)
  then show ?case unfolding complete_def by (intro out_update) simp_all
next
  case (gives_up s k now err)
  then show ?case unfolding fail_dead_def by (intro out_update) simp_all
next
  case (retries s job now jitter err)
  then show ?case unfolding fail_retry_def by (intro out_update) simp_all
next
  case (reaps s now limit)
  have "\<not> stuck now limit j" if "j \<in> set (jobs (cs_db s))" "j_id j = i" for j
    using reaps.prems(3) that by auto
  then have same: "j_status x \<noteq> Pending" if x: "x \<in> set (jobs (snd (reap_stuck now limit (cs_db s))))" "j_id x = i" for x
    using x reaps.prems(2) by (auto simp: reap_stuck_def out_def elim!: update_whereE)
  with reaps.prems(2) show ?case by (simp add: out_def locked_def) (simp add: reap_stuck_def)
qed

lemma out_run:
  assumes "claim_run s es t" "claim_inv s" "out i s" "\<forall>e \<in> set es. i \<notin> put_again e"
  shows "out i t"
  using assms
proof (induction rule: claim_run.induct)
  case (run_step s e t es u)
  with out_stays [OF run_step.hyps(1)] claim_step_inv [OF run_step.hyps(1)] show ?case by simp
qed simp

lemma handed_out_twice:
  assumes inv: "claim_inv s"
    and run: "claim_run s (pre @ Hands_out w js # mid @ Hands_out w' js' # post) t"
    and i: "i \<in> j_id ` set js" "i \<in> j_id ` set js'"
  shows "\<exists>e \<in> set mid. i \<in> put_again e"
proof (rule ccontr)
  assume "\<not> (\<exists>e \<in> set mid. i \<in> put_again e)"
  then have quiet: "\<forall>e \<in> set mid. i \<notin> put_again e" by blast
  from run_append [OF run] obtain s1 where s1: "claim_run s pre s1"
    "claim_run s1 (Hands_out w js # mid @ Hands_out w' js' # post) t" by blast
  from s1(2) obtain s2 where s2: "claim_step s1 (Hands_out w js) s2"
    "claim_run s2 (mid @ Hands_out w' js' # post) t" by (rule run_ConsE)
  from run_append [OF s2(2)] obtain s3 where s3: "claim_run s2 mid s3"
    "claim_run s3 (Hands_out w' js' # post) t" by blast
  from s3(2) obtain s4 where s4: "claim_step s3 (Hands_out w' js') s4" by (rule run_ConsE)
  have inv1: "claim_inv s1" using claim_run_inv [OF s1(1) inv] .
  have inv2: "claim_inv s2" using claim_step_inv [OF s2(1) inv1] .
  have inv3: "claim_inv s3" using claim_run_inv [OF s3(1) inv2] .
  from i(1) hands_out(1) [OF inv1 s2(1)] have "out i s2" by blast
  from out_run [OF s3(1) inv2 this quiet] have "\<not> locked s3 i" by (simp add: out_def)
  with i(2) hands_out(3) [OF inv3 s4] show False by blast
qed

lemma handed_out_locked:
  assumes inv: "claim_inv s" and run: "claim_run s (pre @ Hands_out w js # post) t"
  shows "distinct (map j_id js)" and "j \<in> set js \<Longrightarrow> j_status j = InProgress \<and> j_locked_by j = Some w \<and>
    (\<exists>now. j_locked_at j = Some now \<and> j_next_run_at j \<le> now)"
proof -
  from run_append [OF run] obtain s1 where s1: "claim_run s pre s1" "claim_run s1 (Hands_out w js # post) t" by blast
  from s1(2) obtain s2 where s2: "claim_step s1 (Hands_out w js) s2" by (rule run_ConsE)
  have inv1: "claim_inv s1" using claim_run_inv [OF s1(1) inv] .
  from s2 obtain now ids d where "mark_claimed now w ids (cs_db s1) = (js, d)" by (rule claim_stepE) auto
  with inv1 show "distinct (map j_id js)"
    by (auto simp: mark_claimed_def Let_def claim_inv_def queue_ok_def claim_row_def distinct_map_filter
        map_key_update_where unique_key_def)
  show "j_status j = InProgress \<and> j_locked_by j = Some w \<and>
    (\<exists>now. j_locked_at j = Some now \<and> j_next_run_at j \<le> now)" if "j \<in> set js"
    using hands_out(2) [OF inv1 s2 that] by (auto simp: claim_row_def)
qed

end
