(* ===== verification/Race_Properties.thy ===== *)
theory Race_Properties
  imports Player_Race Sync_Properties Claim_Race
begin

section \<open>Properties of several workers at once\<close>

text \<open>
  Claims whose halves interleave, and two workers on one member. \<open>lone_player_pass\<close>: a worker that finds one
  pending job, a per-player sync, runs it and completes it.
\<close>

subsection \<open>Claims\<close>

text \<open>
  C15: no job is handed out twice. Let the claims of any number of workers overlap, each with its lock taken
  by the inner \<open>SELECT ... FOR UPDATE SKIP LOCKED\<close> and its rows written and returned later, between any other
  statements on the queue. If two claims of such a run hand out the same job, then between them it was put
  back, by a retry of this very job or by the reaper. And what a claim hands out are different jobs, each
  due, and now in progress and locked by the claimer.
\<close>

theorem claims_are_exclusive:
  assumes "queue_ok (cs_db s)" and "cs_open s = Map.empty"
    and "claim_run s (pre @ Hands_out w js # mid @ Hands_out w' js' # post) t"
    and "i \<in> j_id ` set js" and "i \<in> j_id ` set js'"
  shows "(\<exists>e \<in> set mid. i \<in> put_again e) \<and> distinct (map j_id js) \<and>
    (\<forall>j \<in> set js. j_status j = InProgress \<and> j_locked_by j = Some w \<and>
       (\<exists>now. j_locked_at j = Some now \<and> j_next_run_at j \<le> now))"
proof -
  have "claim_inv s" using assms(1,2) by (simp add: claim_inv_def locks_disjoint_def locks_due_def)
  with handed_out_twice [OF this assms(3-5)] handed_out_locked [OF this assms(3)] show ?thesis by blast
qed

text \<open>
  The witness: two workers claim at the same time, the second finds the only row locked; the first fails and
  the job comes back; now the second gets it.
\<close>

definition first_claim :: job where
  "first_claim = claim_row 5 ''a'' sample_job"

definition retried_db :: db where
  "retried_db = fail_retry 7 0 first_claim ''e'' (sample_db\<lparr>jobs := [first_claim]\<rparr>)"

definition second_claim :: job where
  "second_claim = hd (fst (mark_claimed (secs 9) ''b'' [1] retried_db))"

definition claim_history :: "claim_event list" where
  "claim_history = [Selects ''a'' [1], Selects ''b'' []] @ Hands_out ''a'' [first_claim] #
     [Hands_out ''b'' [], Puts_back {1}, Selects ''b'' [1]] @ Hands_out ''b'' [second_claim] # []"

lemma claim_history_runs:
  "\<exists>t. claim_run \<lparr>cs_db = sample_db, cs_open = Map.empty\<rparr> claim_history t"
proof -
  let ?s0 = "\<lparr>cs_db = sample_db, cs_open = Map.empty\<rparr>"
  let ?s1 = "?s0\<lparr>cs_open := (cs_open ?s0)(''a'' \<mapsto> (5, [1]))\<rparr>"
  let ?s2 = "?s1\<lparr>cs_open := (cs_open ?s1)(''b'' \<mapsto> (6, []))\<rparr>"
  let ?s3 = "?s2\<lparr>cs_db := sample_db\<lparr>jobs := [first_claim]\<rparr>, cs_open := (cs_open ?s2)(''a'' := None)\<rparr>"
  let ?s4 = "?s3\<lparr>cs_db := sample_db\<lparr>jobs := [first_claim]\<rparr>, cs_open := (cs_open ?s3)(''b'' := None)\<rparr>"
  let ?s5 = "?s4\<lparr>cs_db := retried_db\<rparr>"
  let ?s6 = "?s5\<lparr>cs_open := (cs_open ?s5)(''b'' \<mapsto> (secs 9, [1]))\<rparr>"
  let ?s7 = "?s6\<lparr>cs_db := snd (mark_claimed (secs 9) ''b'' [1] retried_db), cs_open := (cs_open ?s6)(''b'' := None)\<rparr>"
  note row = sample_job_def new_job_def claim_row_def first_claim_def
  have fid: "j_id first_claim = 1" by (simp add: row)
  have st0: "claim_step ?s0 (Selects ''a'' [1]) ?s1"
    by (rule select [where n = 8]) (simp_all add: claim_ids_def claimable_def locked_def row)
  have "locked ?s1 1" by (rule lockedI [of _ "''a''" "(5, [1])"]) simp_all
  then have st1: "claim_step ?s1 (Selects ''b'' []) ?s2"
    by (intro select [where n = 8]) (simp_all add: claim_ids_def claimable_def row)
  have st2: "claim_step ?s2 (Hands_out ''a'' [first_claim]) ?s3"
    by (rule update [where now = 5 and ids = "[1]"]) (simp_all add: mark_claimed_def Let_def update_where_def row)
  have st3: "claim_step ?s3 (Hands_out ''b'' []) ?s4"
    by (rule update [where now = 6 and ids = "[]"]) (simp_all add: mark_claimed_def Let_def update_where_def)
  have st4: "claim_step ?s4 (Puts_back {1}) ?s5"
    using retries [of ?s4 first_claim 7 0 "''e''"] by (simp add: retried_db_def fid locked_def)
  have "backoff_delay 1 0 = 2000" by code_simp
  then have due: "j_next_run_at r = 7 + 2000 * 1000" "j_status r = Pending" "j_id r = 1" if "r \<in> set (jobs retried_db)" for r
    using that by (auto simp: retried_db_def fail_retry_def update_where_def row)
  have one: "\<exists>r. jobs retried_db = [r]" by (simp add: retried_db_def fail_retry_def update_where_def)
  then obtain r where r: "jobs retried_db = [r]" by blast
  have st5: "claim_step ?s5 (Selects ''b'' [1]) ?s6"
    by (rule select [where n = 8]) (use due r in \<open>simp_all add: claim_ids_def claimable_def locked_def secs_def\<close>)
  have st6: "claim_step ?s6 (Hands_out ''b'' [second_claim]) ?s7"
    by (rule update [where now = "secs 9" and ids = "[1]"]) (use due r in \<open>simp_all add: mark_claimed_def update_where_def second_claim_def claim_row_def Let_def\<close>)
  from run_step [OF st0 run_step [OF st1 run_step [OF st2 run_step [OF st3 run_step [OF st4
      run_step [OF st5 run_step [OF st6 run_done]]]]]]]
  show ?thesis unfolding claim_history_def append.simps by (rule exI)
qed

lemma claims_are_exclusive_witness:
  "\<exists>e \<in> set [Hands_out ''b'' [], Puts_back {1}, Selects ''b'' [1]]. 1 \<in> put_again e"
proof -
  obtain t where run: "claim_run \<lparr>cs_db = sample_db, cs_open = Map.empty\<rparr> claim_history t"
    using claim_history_runs by blast
  have ids: "1 \<in> j_id ` set [first_claim]" "1 \<in> j_id ` set [second_claim]"
    by (simp_all add: first_claim_def second_claim_def claim_row_def sample_job_def new_job_def retried_db_def
        fail_retry_def mark_claimed_def update_where_def Let_def)
  from claims_are_exclusive [OF _ _ run [unfolded claim_history_def] ids] show ?thesis by simp
qed

subsection \<open>A member who unlinks\<close>

lemma lone_player_pass:
  assumes jobs: "jobs d = old @ [new_job i PlayerSync (player_payload user) t]"
    and quiet: "\<forall>j \<in> set old. j_status j \<noteq> Pending \<and> j_id j \<noteq> i" and due: "t \<le> ap_now app"
    and guilds: "fetch_user_guild_ids app user w = (Inr gs, w')"
    and sync: "sync_for_player app user
      (d\<lparr>jobs := old @ [claim_row (ap_now app) worker (new_job i PlayerSync (player_payload user) t)]\<rparr>, w) = (x, s1)"
  shows "worker_pass app worker False (\<lambda>_. False) (\<lambda>_. (False, jitter)) (d, w) =
      Some (complete (ap_now app) i (fst s1), snd s1)"
proof -
  let ?j = "new_job i PlayerSync (player_payload user) t"
  let ?c = "claim_row (ap_now app) worker ?j"
  have "filter (claimable (ap_now app) (\<lambda>_. False)) (jobs d) = [?j]"
    using quiet due by (simp add: jobs claimable_def filter_empty_conv) (simp add: new_job_def)
  then have ids: "claim_ids (ap_now app) (\<lambda>_. False) batch_size d = [i]"
    by (simp add: claim_ids_def batch_size_def new_job_def)
  have same: "update_where (\<lambda>j. j_id j = i) f old = old" "filter (\<lambda>j. j_id j = i) old = []" for f
    using quiet by (auto simp: update_where_def filter_empty_conv intro!: map_idI)
  have key: "j_id ?j = i" "j_id ?c = i" by (simp_all add: new_job_def claim_row_def)
  have app: "update_where P f (xs @ ys) = update_where P f xs @ update_where P f ys" for P f and xs ys :: "job list"
    by (simp add: update_where_def)
  have claim: "claim_batch (ap_now app) (\<lambda>_. False) worker batch_size d = ([?c], d\<lparr>jobs := old @ [?c]\<rparr>)"
    using same key by (simp add: claim_batch_def ids Let_def jobs app) (simp add: update_where_def key)
  have kind: "kind_from_db (j_kind ?c) = Some PlayerSync"
    by (simp add: new_job_def claim_row_def kind_from_db_def)
  have payload: "decode_player_payload (j_payload ?c) = Some user"
    by (simp add: new_job_def claim_row_def decode_player_payload_def player_payload_def req_def)
  have x: "x = Inr ()"
    using sync guilds by (auto simp: sync_for_player_def io_then_def on_world_def split: if_splits)
  show ?thesis
    using sync key(2)
    by (simp add: worker_pass_def claim run_job_def dispatch_def kind payload map_err_def total_def x finish_job_def)
qed

text \<open>
  C19: a plan outlives its reason. Nothing is queued and one worker has planned to give a linked member a
  role. The member unlinks, which queues a sync, and another worker claims that job, runs it with every call
  answered and accepted by RoleLogic, and completes it; then the first worker acts. Now the member is
  not linked and no rule selects them, yet they hold the role, and the queue has no pending job that
  would take it back.
\<close>

theorem stale_plan_outlives_an_unlink:
  fixes app app' :: "'w app"
  assumes "full_ok (fst s)" and "\<forall>j \<in> set (jobs (fst s)). j_status j \<noteq> Pending"
    and "calls_accepted app" and "calls_accepted app'" and "ap_now web \<le> ap_now app'"
    and "fetch_user_guild_ids app user (snd s) = (Inr gs, w)" and "fetch_user_guild_ids app' user w = (Inr gs', w')"
    and "l \<in> set (role_links (fst s))" and "rl_guild l \<in> set gs"
    and "d = ensure_baseline_relations (ap_now app) user gs (fst s)"
    and "qualifies app d user l" and "(rl_guild l, rl_role l, user) \<notin> held_keys (fst s)"
    and "verify_unlink web inc (d, w) = (Inr j, s1)" and "read_session web inc = Inr (user, name)"
    and "meanwhile = (\<lambda>st. the (worker_pass app' worker False (\<lambda>_. False) (\<lambda>_. (False, jitter))
       (snd (verify_unlink web inc st))))"
    and "sync_interrupted app user meanwhile s = (x, s')"
  shows "(\<exists>s2. worker_pass app' worker False (\<lambda>_. False) (\<lambda>_. (False, jitter)) s1 = Some s2) \<and>
    (rl_guild l, rl_role l, user) \<in> held_keys (fst s') \<and>
    find_row bu_discord_id user (users (fst s')) = None \<and> (\<forall>any :: 'w app. \<not> qualifies any (fst s') user l) \<and>
    (\<forall>j \<in> set (jobs (fst s')). j_status j \<noteq> Pending) \<and> length (jobs (fst s')) = length (jobs (fst s)) + 1"
proof -
  from assms(13) obtain user' name' and u :: bsky_user where u: "read_session web inc = Inr (user', name')"
    "fst s1 = enqueue_player_sync (ap_now web) user' (forget_viewer (bu_did u) (remove_viewer user' (fst (d, w))))"
    "snd s1 = snd (d, w)"
    by (rule unlink_effect) blast
  with assms(14) have d1: "fst s1 = enqueue_player_sync (ap_now web) user
      (forget_viewer (bu_did u) (remove_viewer user d))" and w1: "snd s1 = w" by simp_all
  let ?i = "next_job_id (fst s)" and ?old = "jobs (fst s)"
  let ?new = "new_job ?i PlayerSync (player_payload user) (ap_now web)"
  let ?claimed = "(fst s1)\<lparr>jobs := ?old @ [claim_row (ap_now app') worker ?new]\<rparr>"
  have js1: "jobs (fst s1) = ?old @ [?new]"
    by (simp add: d1 assms(10) enqueue_player_sync_def enqueue_def forget_viewer_def remove_viewer_def
        seeded_baseline_keeps secs_def)
  have fresh: "\<forall>j \<in> set ?old. j_status j \<noteq> Pending \<and> j_id j \<noteq> ?i"
    using assms(1,2) by (auto simp: full_ok_def queue_ok_def list_all_iff)
  obtain y s2 where sync: "sync_for_player app' user (?claimed, w) = (y, s2)" by (rule prod.exhaust)
  have pass: "worker_pass app' worker False (\<lambda>_. False) (\<lambda>_. (False, jitter)) s1 =
      Some (complete (ap_now app') ?i (fst s2), snd s2)"
    using lone_player_pass [OF js1 fresh assms(5,7) sync] w1 by (metis prod.collapse)
  have m: "meanwhile (d, w) = (complete (ap_now app') ?i (fst s2), snd s2)"
    using assms(13,15) pass by simp
  note after = player_sync_other_tables(1,2) [OF sync] player_sync_other_tables(3) [OF sync assms(4)]
  have "role_links (fst s1) = role_links d"
    by (simp add: d1 enqueue_player_sync_def enqueue_def forget_viewer_def remove_viewer_def)
  with after(3) m assms(10) have links: "role_links (fst (meanwhile (d, w))) = role_links (fst s)"
    by (simp add: baseline_other_tables complete_def)
  have gs: "gs \<noteq> []" using assms(9) by auto
  have db: "db_ok (fst s)" using assms(1) by (simp add: full_ok_def)
  note out = interrupted_outcome [OF db assms(3,6) gs assms(10) links assms(16)]
  have "plan_action app d user l \<noteq> None"
    using assms(10-12) by (simp add: plan_action_def Let_def baseline_other_tables)
  with out(4) [OF assms(8,9)] assms(11) have "(rl_guild l, rl_role l, user) \<in> held_keys (fst s')"
    by (simp add: user_key_def)
  moreover have none: "find_row bu_discord_id user (users (fst s')) = None"
    using forgotten [OF d1] out(2) after(1) m by (simp add: complete_def)
  moreover have "\<not> qualifies any (fst s') user l" for any :: "'w app"
    using none by (simp add: qualifies_def facts_select_def Let_def split: option.split)
  moreover have js: "jobs (fst s') = jobs (complete (ap_now app') ?i ?claimed)"
    using out(3) after(2) m by (simp add: complete_def)
  have "j_status r \<noteq> Pending" if "r \<in> set (jobs (fst s'))" for r
    using that fresh unfolding js complete_def
    by (auto simp: new_job_def claim_row_def elim!: update_whereE)
  moreover have "length (jobs (fst s')) = length ?old + 1" by (simp add: js complete_def update_where_def)
  ultimately show ?thesis using pass by blast
qed

text \<open>The witness: a rule for everybody who is linked, a member who has just linked and unlinks again.\<close>

definition linked_link :: role_link where
  "linked_link = sample_link\<lparr>rl_tree := json_of_tree \<lparr>grant_on_any_relation = True, groups = []\<rparr>\<rparr>"

definition race_db :: db where
  "race_db = linked_db\<lparr>role_links := [linked_link], jobs := [claimed_job]\<rparr>"

lemma linked_link_tree: "grant_on_any_relation (tree_of_json (rl_tree linked_link))"
proof -
  have "decode_tree (json_of_tree \<lparr>grant_on_any_relation = True, groups = []\<rparr>) =
      Some \<lparr>grant_on_any_relation = True, groups = []\<rparr>"
    by (rule decode_tree_json) simp
  then show ?thesis by (simp add: tree_of_json_def linked_link_def)
qed

lemma race_db_ok: "full_ok race_db"
  using linked_db_user(2)
  by (simp add: full_ok_def queue_ok_def race_db_def db_ok_def keys_ok_def refs_ok_def unique_key_def linked_link_def
      linked_db_def store_user_def claimed_job_def claim_row_def row_ok_def sample_job_def new_job_def kind_from_db_def)

lemma stale_plan_outlives_an_unlink_witness:
  "let meanwhile = (\<lambda>st. the (worker_pass open_world ''v'' False (\<lambda>_. False) (\<lambda>_. (False, 0))
         (snd (verify_unlink open_world member_cookie st))));
       s' = snd (sync_interrupted open_world ''2'' meanwhile (race_db, ()))
   in (''g'', ''r'', ''2'') \<in> held_keys (fst s') \<and> find_row bu_discord_id ''2'' (users (fst s')) = None \<and>
      (\<forall>j \<in> set (jobs (fst s')). j_status j \<noteq> Pending) \<and> length (jobs (fst s')) = 2"
proof -
  let ?meanwhile = "\<lambda>st. the (worker_pass open_world ''v'' False (\<lambda>_. False) (\<lambda>_. (False, 0))
         (snd (verify_unlink open_world member_cookie st)))"
  let ?run = "sync_interrupted open_world ''2'' ?meanwhile (race_db, ())"
  let ?d = "ensure_baseline_relations (ap_now open_world) ''2'' [''g''] (fst (race_db, ()))"
  have u: "find_row bu_discord_id ''2'' (users ?d) = Some (sample_user\<lparr>bu_discord_id := ''2'', bu_did := ''did:v''\<rparr>)"
    using linked_db_user(1) by (simp add: baseline_other_tables race_db_def)
  obtain s1 where web: "verify_unlink open_world member_cookie (?d, ()) = (Inr success_json, s1)"
    using u by (simp add: verify_unlink_def io_then_def member_origin member_session)
  have link: "linked_link \<in> set (role_links (fst (race_db, ())))" "rl_guild linked_link \<in> set [''g'']"
    by (simp_all add: race_db_def linked_link_def sample_link_def)
  have q: "qualifies open_world ?d ''2'' linked_link" using linked_link_tree u by (simp add: qualifies_def)
  have free: "(rl_guild linked_link, rl_role linked_link, ''2'') \<notin> held_keys (fst (race_db, ()))"
    by (simp add: race_db_def linked_db_def store_user_def)
  obtain x s' where run: "?run = (x, s')" by (rule prod.exhaust)
  have guilds: "fetch_user_guild_ids open_world ''2'' (snd (race_db, ())) = (Inr [''g''], ())" using world_guilds by simp
  have guilds': "fetch_user_guild_ids open_world ''2'' () = (Inr [''g''], ())" using world_guilds by simp
  have idle: "\<forall>j \<in> set (jobs (fst (race_db, ()))). j_status j \<noteq> Pending" and one: "length (jobs (fst (race_db, ()))) = 1"
    by (simp_all add: race_db_def claimed_job_def claim_row_def)
  from race_db_ok have ok: "full_ok (fst (race_db, ()))" by simp
  from stale_plan_outlives_an_unlink [OF ok idle world_accepts world_accepts order_refl guilds guilds' link refl q free
      web member_session refl run] one
  have "(''g'', ''r'', ''2'') \<in> held_keys (fst s')" "find_row bu_discord_id ''2'' (users (fst s')) = None"
    "\<forall>j \<in> set (jobs (fst s')). j_status j \<noteq> Pending" "length (jobs (fst s')) = 2"
    by (simp_all add: linked_link_def sample_link_def)
  with run show ?thesis by (simp only: Let_def snd_conv simp_thms)
qed

end
