(* ===== verification/Tests_Rules.thy ===== *)
theory Tests_Rules
  imports Rule_Validator Rule_Sql
begin

section \<open>The unit tests of the rule components\<close>

text \<open>
  The \<open>#[cfg(test)]\<close> modules of \<open>condition_eval.rs\<close>, \<open>rule_validator.rs\<close> and \<open>rule_sql.rs\<close>: one definition
  per test, the conjunction of its assertions over the model's functions, and the proof that the model
  passes it. The clock is an argument, and so is the regular-expression crate; a test that compiles a
  pattern states what that crate answers.
\<close>

named_theorems test_defs \<open>definitions of tests and their helpers\<close>

subsection \<open>\<open>condition_eval.rs\<close>\<close>

definition cond :: "condition_target \<Rightarrow> condition_operator \<Rightarrow> json \<Rightarrow> condition" where
  [test_defs]: "cond target op value =
     \<lparr>c_target = target, c_operator = op, c_value = value, c_value_end = None\<rparr>"

definition one_group :: "condition list \<Rightarrow> rule_tree" where
  [test_defs]: "one_group conds = \<lparr>grant_on_any_relation = False, groups = [\<lparr>conditions = conds\<rparr>]\<rparr>"

definition or_groups :: "condition list list \<Rightarrow> rule_tree" where
  [test_defs]: "or_groups g =
     \<lparr>grant_on_any_relation = False, groups = map (\<lambda>cs. \<lparr>conditions = cs\<rparr>) g\<rparr>"

definition default_facts :: facts where
  [test_defs]: "default_facts =
     \<lparr>f_is_follower = False, f_followed_at = None, f_is_followed_back = False, f_liked_posts_count = 0,
      f_reposted_posts_count = 0, f_replied_posts_count = 0, f_handle = [], f_handle_domain = None,
      f_has_custom_domain = False, f_display_name = None, f_description = None, f_has_avatar = False,
      f_has_banner = False, f_posts_count = 0, f_followers_count = 0, f_follows_count = 0,
      f_bsky_created_at = None, f_pds_host = None\<rparr>"

definition days :: "int \<Rightarrow> int" where
  [test_defs]: "days n = n * 86400 * 1000000"

definition list_uri :: string where
  [test_defs]: "list_uri = ''at://did:plc:owner/app.bsky.graph.list/abc''"

definition pack_uri :: string where
  [test_defs]: "pack_uri = ''at://did:plc:owner/app.bsky.graph.starterpack/xyz''"

definition no_groups_no_grant_means_nobody :: "regex_engine \<Rightarrow> instant \<Rightarrow> bool" where
  [test_defs]: "no_groups_no_grant_means_nobody rx now \<longleftrightarrow> \<not> evaluate rx now default_rule_tree default_facts"

definition grant_on_any_short_circuits_true :: "regex_engine \<Rightarrow> instant \<Rightarrow> bool" where
  [test_defs]: "grant_on_any_short_circuits_true rx now \<longleftrightarrow>
     evaluate rx now \<lparr>grant_on_any_relation = True, groups = []\<rparr> default_facts"

definition empty_group_is_false_defensive :: "regex_engine \<Rightarrow> instant \<Rightarrow> bool" where
  [test_defs]: "empty_group_is_false_defensive rx now \<longleftrightarrow>
     \<not> evaluate rx now \<lparr>grant_on_any_relation = False, groups = [\<lparr>conditions = []\<rparr>]\<rparr> default_facts"

definition and_all_conditions_required :: "regex_engine \<Rightarrow> instant \<Rightarrow> bool" where
  [test_defs]: "and_all_conditions_required rx now \<longleftrightarrow>
     (let t = one_group [cond IsFollower Eq (JBool True), cond FollowAgeDays Gte (json_of_i64 30)];
          f = default_facts\<lparr>f_is_follower := True\<rparr>
      in evaluate rx now t (f\<lparr>f_followed_at := Some (now - days 45)\<rparr>) \<and>
         \<not> evaluate rx now t (f\<lparr>f_followed_at := Some (now - days 10)\<rparr>))"

definition or_any_group_satisfies :: "regex_engine \<Rightarrow> instant \<Rightarrow> bool" where
  [test_defs]: "or_any_group_satisfies rx now \<longleftrightarrow>
     (let t = or_groups [[cond IsMutual Eq (JBool True)], [cond FollowersCount Gte (json_of_i64 1000)]]
      in evaluate rx now t (default_facts\<lparr>f_is_follower := True, f_is_followed_back := True\<rparr>) \<and>
         evaluate rx now t (default_facts\<lparr>f_followers_count := 1500\<rparr>) \<and>
         \<not> evaluate rx now t default_facts)"

definition is_mutual_requires_both_directions :: "regex_engine \<Rightarrow> instant \<Rightarrow> bool" where
  [test_defs]: "is_mutual_requires_both_directions rx now \<longleftrightarrow>
     (let t = one_group [cond IsMutual Eq (JBool True)]; f = default_facts\<lparr>f_is_follower := True\<rparr>
      in \<not> evaluate rx now t f \<and> evaluate rx now t (f\<lparr>f_is_followed_back := True\<rparr>))"

definition between_inclusive :: "regex_engine \<Rightarrow> instant \<Rightarrow> bool" where
  [test_defs]: "between_inclusive rx now \<longleftrightarrow>
     (let t = one_group [(cond AccountAgeDays Between (json_of_i64 30))\<lparr>c_value_end := Some (json_of_i64 365)\<rparr>];
          aged = (\<lambda>n. default_facts\<lparr>f_bsky_created_at := Some (now - days n)\<rparr>)
      in evaluate rx now t (aged 30) \<and> evaluate rx now t (aged 365) \<and> \<not> evaluate rx now t (aged 366))"

definition handle_pattern :: string where
  [test_defs]: "handle_pattern = ''^[a-z]+'' @ CHR 0x5C # ''.bsky'' @ CHR 0x5C # ''.social$''"

definition handle_regex :: "regex_engine \<Rightarrow> instant \<Rightarrow> bool" where
  [test_defs]: "handle_regex rx now \<longleftrightarrow>
     (let t = one_group [cond Handle Regex (JStr handle_pattern)]
      in evaluate rx now t (default_facts\<lparr>f_handle := ''alice.bsky.social''\<rparr>) \<and>
         \<not> evaluate rx now t (default_facts\<lparr>f_handle := ''alice.example.com''\<rparr>))"

definition description_contains :: "regex_engine \<Rightarrow> instant \<Rightarrow> bool" where
  [test_defs]: "description_contains rx now \<longleftrightarrow>
     (let t = one_group [cond Description Contains (JStr ''rolelogic'')]
      in evaluate rx now t (default_facts\<lparr>f_description := Some (''I'' @ CHR 0x27 # ''m a RoleLogic fan!'')\<rparr>) \<and>
         \<not> evaluate rx now t (default_facts\<lparr>f_description := Some ''nothing here''\<rparr>))"

definition handle_domain_in_list :: "regex_engine \<Rightarrow> instant \<Rightarrow> bool" where
  [test_defs]: "handle_domain_in_list rx now \<longleftrightarrow>
     (let t = one_group [cond HandleDomain In (JArr [JStr ''bsky.social'', JStr ''blacksky.community''])]
      in evaluate rx now t (default_facts\<lparr>f_handle_domain := Some ''bsky.social''\<rparr>) \<and>
         \<not> evaluate rx now t (default_facts\<lparr>f_handle_domain := Some ''example.com''\<rparr>))"

definition is_on_list_with_memberships :: "regex_engine \<Rightarrow> instant \<Rightarrow> bool" where
  [test_defs]: "is_on_list_with_memberships rx now \<longleftrightarrow>
     (let t = one_group [cond IsOnList Eq (JStr list_uri)]
      in evaluate_with_memberships rx now t default_facts (no_memberships\<lparr>list_uris := {list_uri}\<rparr>) \<and>
         \<not> evaluate_with_memberships rx now t default_facts no_memberships)"

definition realistic_loyal_follower_rule :: "regex_engine \<Rightarrow> instant \<Rightarrow> bool" where
  [test_defs]: "realistic_loyal_follower_rule rx now \<longleftrightarrow>
     (let t = or_groups
            [[cond IsFollower Eq (JBool True), cond FollowAgeDays Gte (json_of_i64 30)],
             [cond IsMutual Eq (JBool True)],
             [cond IsOnStarterPack Eq (JStr pack_uri)]]
      in evaluate rx now t (default_facts\<lparr>f_is_follower := True, f_followed_at := Some (now - days 45)\<rparr>) \<and>
         evaluate rx now t (default_facts\<lparr>f_is_follower := True, f_is_followed_back := True\<rparr>) \<and>
         evaluate_with_memberships rx now t default_facts (no_memberships\<lparr>starter_pack_uris := {pack_uri}\<rparr>) \<and>
         \<not> evaluate rx now t default_facts)"

lemmas eval_simps = evaluate_def evaluate_with_memberships_def evaluate_single_def bool_match_def
  int_match_def string_match_def days_since_def num_days_def sdiv_nonneg_eq f_is_mutual_def
  no_memberships_def default_rule_tree_def in_i64_def i64_max_def i64_min_def Let_def

lemma evaluator_tests:
  "no_groups_no_grant_means_nobody rx now" "grant_on_any_short_circuits_true rx now"
  "empty_group_is_false_defensive rx now" "and_all_conditions_required rx now"
  "or_any_group_satisfies rx now" "is_mutual_requires_both_directions rx now"
  "between_inclusive rx now" "handle_domain_in_list rx now"
  "is_on_list_with_memberships rx now" "realistic_loyal_follower_rule rx now"
  by (simp_all add: test_defs eval_simps)

lemma evaluator_test_contains: "description_contains rx now"
proof -
  have "str_contains (to_ascii_lowercase (''I'' @ CHR 0x27 # ''m a RoleLogic fan!'')) (to_ascii_lowercase ''rolelogic'')"
    "\<not> str_contains (to_ascii_lowercase ''nothing here'') (to_ascii_lowercase ''rolelogic'')"
    by code_simp+
  then show ?thesis by (simp add: test_defs eval_simps)
qed

lemma evaluator_test_regex:
  assumes "rx handle_pattern = Some re" "re ''alice.bsky.social''" "\<not> re ''alice.example.com''"
  shows "handle_regex rx now"
  using assms by (simp add: handle_regex_def one_group_def cond_def eval_simps default_facts_def)

subsection \<open>\<open>rule_validator.rs\<close>\<close>

definition input :: "string \<Rightarrow> string \<Rightarrow> json \<Rightarrow> condition_input" where
  [test_defs]: "input target operator value =
     \<lparr>i_target = target, i_operator = operator, i_value = value, i_value_end = None\<rparr>"

definition body_of_groups :: "group_input list \<Rightarrow> rule_tree_body" where
  [test_defs]: "body_of_groups gs = \<lparr>b_account = None, b_grant = False, b_groups = gs\<rparr>"

definition one_group_body :: "condition_input list \<Rightarrow> rule_tree_body" where
  [test_defs]: "one_group_body conds =
     \<lparr>b_account = Some ''did:plc:test'', b_grant = False, b_groups = [\<lparr>i_conditions = conds\<rparr>]\<rparr>"

fun is_bad_request :: "app_error + 'a \<Rightarrow> bool" where
  "is_bad_request (Inl (BadRequest _)) = True"
| "is_bad_request _ = False"

text \<open>The value of the first condition of the first group, where a payload is accepted.\<close>

definition first_value :: "app_error + parsed_rule \<Rightarrow> json option" where
  [test_defs]: "first_value r =
     (case r of
        Inl _ \<Rightarrow> None
      | Inr p \<Rightarrow> (case groups (p_tree p) of
          g # _ \<Rightarrow> (case conditions g of c # _ \<Rightarrow> Some (c_value c) | [] \<Rightarrow> None)
        | [] \<Rightarrow> None))"

definition grant_on_any_no_groups_ok :: "regex_engine \<Rightarrow> (json \<Rightarrow> string) \<Rightarrow> bool" where
  [test_defs]: "grant_on_any_no_groups_ok rx jshow \<longleftrightarrow>
     (case parse_rule_tree rx jshow \<lparr>b_account = None, b_grant = True, b_groups = []\<rparr> of
        Inr p \<Rightarrow> grant_on_any_relation (p_tree p) | Inl _ \<Rightarrow> False)"

definition rejects_no_groups_no_grant :: "regex_engine \<Rightarrow> (json \<Rightarrow> string) \<Rightarrow> bool" where
  [test_defs]: "rejects_no_groups_no_grant rx jshow \<longleftrightarrow>
     is_bad_request (parse_rule_tree rx jshow (body_of_groups []))"

definition rejects_unknown_target :: "regex_engine \<Rightarrow> (json \<Rightarrow> string) \<Rightarrow> bool" where
  [test_defs]: "rejects_unknown_target rx jshow \<longleftrightarrow>
     is_bad_request (parse_rule_tree rx jshow (one_group_body [input ''not_a_target'' ''eq'' (JBool True)]))"

definition rejects_operator_target_mismatch :: "regex_engine \<Rightarrow> (json \<Rightarrow> string) \<Rightarrow> bool" where
  [test_defs]: "rejects_operator_target_mismatch rx jshow \<longleftrightarrow>
     is_bad_request (parse_rule_tree rx jshow (one_group_body [input ''is_follower'' ''gt'' (json_of_i64 0)]))"

definition rejects_is_on_list_non_eq :: "regex_engine \<Rightarrow> (json \<Rightarrow> string) \<Rightarrow> bool" where
  [test_defs]: "rejects_is_on_list_non_eq rx jshow \<longleftrightarrow>
     is_bad_request (parse_rule_tree rx jshow (one_group_body [input ''is_on_list'' ''contains'' (JStr list_uri)]))"

definition rejects_is_on_list_non_at_uri :: "regex_engine \<Rightarrow> (json \<Rightarrow> string) \<Rightarrow> bool" where
  [test_defs]: "rejects_is_on_list_non_at_uri rx jshow \<longleftrightarrow>
     is_bad_request (parse_rule_tree rx jshow (one_group_body [input ''is_on_list'' ''eq'' (JStr ''not-a-uri'')]))"

definition accepts_is_on_list_valid_uri :: "regex_engine \<Rightarrow> (json \<Rightarrow> string) \<Rightarrow> bool" where
  [test_defs]: "accepts_is_on_list_valid_uri rx jshow \<longleftrightarrow>
     \<not> isl (parse_rule_tree rx jshow (one_group_body [input ''is_on_list'' ''eq'' (JStr list_uri)]))"

definition int_coerces_from_string :: "regex_engine \<Rightarrow> (json \<Rightarrow> string) \<Rightarrow> bool" where
  [test_defs]: "int_coerces_from_string rx jshow \<longleftrightarrow>
     first_value (parse_rule_tree rx jshow (one_group_body [input ''follow_age_days'' ''gte'' (JStr ''30'')]))
       = Some (json_of_i64 30)"

definition bool_coerces_from_string :: "regex_engine \<Rightarrow> (json \<Rightarrow> string) \<Rightarrow> bool" where
  [test_defs]: "bool_coerces_from_string rx jshow \<longleftrightarrow>
     first_value (parse_rule_tree rx jshow (one_group_body [input ''is_mutual'' ''eq'' (JStr ''true'')]))
       = Some (JBool True)"

definition handle_domain_in_csv :: "regex_engine \<Rightarrow> (json \<Rightarrow> string) \<Rightarrow> bool" where
  [test_defs]: "handle_domain_in_csv rx jshow \<longleftrightarrow>
     first_value (parse_rule_tree rx jshow
         (one_group_body [input ''handle_domain'' ''in'' (JStr ''bsky.social, example.com'')]))
       = Some (JArr [JStr ''bsky.social'', JStr ''example.com''])"

definition regex_pattern_must_compile :: "regex_engine \<Rightarrow> (json \<Rightarrow> string) \<Rightarrow> bool" where
  [test_defs]: "regex_pattern_must_compile rx jshow \<longleftrightarrow>
     is_bad_request (parse_rule_tree rx jshow (one_group_body [input ''handle'' ''regex'' (JStr ''((bad'')]))"

definition between_requires_value_end :: "regex_engine \<Rightarrow> (json \<Rightarrow> string) \<Rightarrow> bool" where
  [test_defs]: "between_requires_value_end rx jshow \<longleftrightarrow>
     is_bad_request (parse_rule_tree rx jshow
       (body_of_groups [\<lparr>i_conditions = [input ''account_age_days'' ''between'' (json_of_i64 30)]\<rparr>]))"

definition caps_max_groups :: "regex_engine \<Rightarrow> (json \<Rightarrow> string) \<Rightarrow> bool" where
  [test_defs]: "caps_max_groups rx jshow \<longleftrightarrow>
     is_bad_request (parse_rule_tree rx jshow (body_of_groups
       (replicate (max_groups + 1) \<lparr>i_conditions = [input ''is_follower'' ''eq'' (JBool True)]\<rparr>)))"

lemmas parse_simps = parse_rule_tree_def validate_group_def validate_condition_def normalize_value_def
  normalize_bool_def normalize_string_def reject_def and_then_def is_membership_target_def
  str_or_empty_def Let_def

lemma validator_tests:
  "grant_on_any_no_groups_ok rx jshow" "rejects_no_groups_no_grant rx jshow"
  "caps_max_groups rx jshow"
  by (simp_all add: test_defs parse_simps)

lemma parse_one_condition:
  "parse_rule_tree rx jshow (one_group_body [c]) =
     and_then (validate_condition rx jshow 1 1 c) (\<lambda>c'.
       Inr \<lparr>p_account = Some ''did:plc:test'',
            p_tree = \<lparr>grant_on_any_relation = False, groups = [\<lparr>conditions = [c']\<rparr>]\<rparr>\<rparr>)"
proof -
  have "parse_account (Some ''did:plc:test'') = Some ''did:plc:test''"
    by (simp add: parse_account_def trim_graph is_graph_def)
  then show ?thesis
    by (cases "validate_condition rx jshow 1 1 c")
      (simp_all add: parse_rule_tree_def validate_group_def one_group_body_def max_groups_def
        max_conditions_per_group_def enumerate_eq_zip)
qed

lemma trim_space: "trim (CHR '' '' # s) = trim s"
proof -
  obtain more where ws: "unicode_ws = map (map char_of) [[9], [10], [11], [12], [13], [32 :: nat]] @ more"
    by (simp add: unicode_ws_def)
  have "ws_len unicode_ws (CHR '' '' # s) = Suc 0"
    unfolding ws by (simp add: ws_len_def char_of_eq_iff take_bit_eq_mod)
  then have "drop_ws unicode_ws (CHR '' '' # s) = drop_ws unicode_ws s"
    by (subst drop_ws.simps) simp
  then show ?thesis by (simp add: trim_def)
qed

lemma trimmed_keys:
  "trim ''not_a_target'' = ''not_a_target''" "trim ''is_follower'' = ''is_follower''"
  "trim ''is_on_list'' = ''is_on_list''" "trim ''follow_age_days'' = ''follow_age_days''"
  "trim ''is_mutual'' = ''is_mutual''" "trim ''handle_domain'' = ''handle_domain''"
  "trim ''handle'' = ''handle''" "trim ''account_age_days'' = ''account_age_days''"
  "trim ''eq'' = ''eq''" "trim ''gt'' = ''gt''" "trim ''gte'' = ''gte''" "trim ''in'' = ''in''"
  "trim ''contains'' = ''contains''" "trim ''regex'' = ''regex''" "trim ''between'' = ''between''"
  "trim ''30'' = ''30''" "trim ''true'' = ''true''" "trim ''((bad'' = ''((bad''"
  "trim ''not-a-uri'' = ''not-a-uri''" "trim list_uri = list_uri"
  by (rule trim_graph, code_simp)+

lemma parsed_values:
  "parse_i64 ''30'' = Some 30" "to_ascii_lowercase ''true'' = ''true''"
  "prefix ''at://'' list_uri" "list_uri \<noteq> []" "\<not> prefix ''at://'' ''not-a-uri''"
  "split_all (CHR '','') ''bsky.social, example.com'' = [''bsky.social'', CHR '' '' # ''example.com'']"
  by code_simp+

lemma trimmed_list:
  "normalize_list (JStr ''bsky.social, example.com'') = [JStr ''bsky.social'', JStr ''example.com'']"
proof -
  have "trim ''bsky.social'' = ''bsky.social''" "trim (CHR '' '' # ''example.com'') = ''example.com''"
    by (simp_all only: trim_space) (simp_all add: trim_graph is_graph_def)
  then show ?thesis by (simp only: normalize_list.simps parsed_values list.map) simp
qed

lemmas validate_input_simps = trimmed_keys parsed_values trimmed_list parse_one_condition input_def
  validate_condition_def normalize_value_def normalize_bool_def normalize_string_def normalize_int_def
  reject_def is_membership_target_def str_or_empty_def target_from_key_def operator_from_key_def Let_def

lemma validator_tests_one_condition:
  "rejects_unknown_target rx jshow" "rejects_operator_target_mismatch rx jshow"
  "rejects_is_on_list_non_eq rx jshow" "rejects_is_on_list_non_at_uri rx jshow"
  "accepts_is_on_list_valid_uri rx jshow" "int_coerces_from_string rx jshow"
  "bool_coerces_from_string rx jshow" "handle_domain_in_csv rx jshow"
  by (simp_all add: validate_input_simps rejects_unknown_target_def rejects_operator_target_mismatch_def
      rejects_is_on_list_non_eq_def rejects_is_on_list_non_at_uri_def accepts_is_on_list_valid_uri_def
      int_coerces_from_string_def bool_coerces_from_string_def handle_domain_in_csv_def first_value_def
      del: normalize_list.simps)

lemma validator_test_between: "between_requires_value_end rx jshow"
proof -
  have "normalize_int jshow w (json_of_i64 30) = Inr (json_of_i64 30)" for w
    by (rule normalize_int_stored) (auto simp: wf_value_def in_i64_def i64_max_def i64_min_def)
  then have "\<exists>m. validate_condition rx jshow g n (input ''account_age_days'' ''between'' (json_of_i64 30))
      = Inl (BadRequest m)" for g n
    by (simp add: validate_condition_def input_def trimmed_keys target_from_key_def operator_from_key_def
        is_membership_target_def normalize_value_def reject_def Let_def)
  then obtain m where "validate_condition rx jshow 1 1
      (input ''account_age_days'' ''between'' (json_of_i64 30)) = Inl (BadRequest m)" by blast
  then show ?thesis
    by (simp add: between_requires_value_end_def body_of_groups_def parse_rule_tree_def validate_group_def
        max_groups_def max_conditions_per_group_def)
qed

lemma validator_test_regex: "rx ''((bad'' = None \<Longrightarrow> regex_pattern_must_compile rx jshow"
  by (simp add: validate_input_simps regex_pattern_must_compile_def)

subsection \<open>\<open>rule_sql.rs\<close>\<close>

definition grant_on_any_is_true :: bool where
  [test_defs]: "grant_on_any_is_true \<longleftrightarrow>
     rule_where_text \<lparr>grant_on_any_relation = True, groups = []\<rparr> 2 = (''TRUE'', [])"

definition empty_is_false :: bool where
  [test_defs]: "empty_is_false \<longleftrightarrow> fst (rule_where_text default_rule_tree 2) = ''FALSE''"

definition single_group_ands :: bool where
  [test_defs]: "single_group_ands \<longleftrightarrow>
     (let (sql, binds) = rule_where_text
            (one_group [cond IsFollower Eq (JBool True), cond FollowAgeDays Gte (json_of_i64 30)]) 2
      in str_contains sql '' AND '' \<and> str_contains sql ''ar.is_follower'' \<and> length binds = 2)"

definition mutual_uses_compound_expression :: bool where
  [test_defs]: "mutual_uses_compound_expression \<longleftrightarrow>
     (let (sql, binds) = rule_where_text (one_group [cond IsMutual Eq (JBool True)]) 0
      in str_contains sql ''is_follower'' \<and> str_contains sql ''is_followed_back'')"

definition is_on_list_emits_exists :: bool where
  [test_defs]: "is_on_list_emits_exists \<longleftrightarrow>
     (let (sql, binds) = rule_where_text (one_group [cond IsOnList Eq (JStr list_uri)]) 2
      in str_contains sql ''EXISTS'' \<and> str_contains sql ''bsky_list_members'' \<and> length binds = 1)"

definition is_on_starter_pack_emits_exists :: bool where
  [test_defs]: "is_on_starter_pack_emits_exists \<longleftrightarrow>
     (let (sql, binds) = rule_where_text (one_group [cond IsOnStarterPack Eq (JStr pack_uri)]) 0
      in str_contains sql ''bsky_starter_pack_members'' \<and> str_contains sql ''pack_uri'')"

definition handle_domain_in_list_uses_text_array :: bool where
  [test_defs]: "handle_domain_in_list_uses_text_array \<longleftrightarrow>
     (let (sql, binds) = rule_where_text
            (one_group [cond HandleDomain In (JArr [JStr ''bsky.social'', JStr ''blacksky.community''])]) 2
      in str_contains sql ''= ANY($3::text[])'' \<and>
         (case binds of BTextArray v # _ \<Rightarrow> length v = 2 | _ \<Rightarrow> False))"

definition description_lowers_both_sides :: bool where
  [test_defs]: "description_lowers_both_sides \<longleftrightarrow>
     str_contains (fst (rule_where_text (one_group [cond Description Contains (JStr ''rolelogic'')]) 0)) ''LOWER(''"

definition between_emits_two_binds :: bool where
  [test_defs]: "between_emits_two_binds \<longleftrightarrow>
     (let (sql, binds) = rule_where_text
            (one_group [(cond AccountAgeDays Between (json_of_i64 30))\<lparr>c_value_end := Some (json_of_i64 365)\<rparr>]) 0
      in str_contains sql ''>= $1'' \<and> str_contains sql ''<= $2'' \<and> length binds = 2)"

lemma sql_tests:
  grant_on_any_is_true empty_is_false single_group_ands mutual_uses_compound_expression
  is_on_list_emits_exists is_on_starter_pack_emits_exists handle_domain_in_list_uses_text_array
  description_lowers_both_sides between_emits_two_binds
  by code_simp+

end
