(* ===== verification/Tests_Security.thy ===== *)
theory Tests_Security
  imports Access Broadcaster_Session Rolelogic_Client Page_Texts
begin

section \<open>The unit tests of the tokens, the encryption and the clients\<close>

text \<open>
  The \<open>#[cfg(test)]\<close> modules of \<open>rl_token.rs\<close>, \<open>session.rs\<close>, \<open>csrf.rs\<close>, \<open>crypto.rs\<close>, \<open>bsky.rs\<close> and
  \<open>rolelogic.rs\<close>, one definition per test, and the proof that the model passes it. The tests run the
  real crates; here each states what it needs of them: \<open>encodes\<close> (base64 and JSON are read back), and
  that two MACs over the test's own inputs differ. The clock is read once per test.
\<close>

named_theorems sec_test_defs \<open>definitions of tests and their helpers\<close>

subsection \<open>\<open>rl_token.rs\<close>: the JWT\<close>

definition role_token :: string where
  "role_token = ''rl_test_token_must_match_what_role_logic_signed_with''"

definition plugin_aud :: string where
  "plugin_aud = ''https://plugin.example/bluesky-account-role''"

definition test_secret :: string where
  "test_secret = ''session-secret-not-for-prod''"

definition cteq_equal_and_unequal :: bool where
  [sec_test_defs]: "cteq_equal_and_unequal \<longleftrightarrow>
     constant_time_eq (bytes ''abc'') (bytes ''abc'') \<and> \<not> constant_time_eq (bytes ''abc'') (bytes ''abd'') \<and>
     \<not> constant_time_eq (bytes ''abc'') (bytes ''abcd'') \<and> \<not> constant_time_eq (bytes ''abcd'') (bytes ''abc'') \<and>
     constant_time_eq (bytes []) (bytes [])"

text \<open>The last step of \<open>mint_jwt\<close>, which the forging test repeats: sign and join the segments.\<close>

definition sign_jwt :: "crates \<Rightarrow> (string \<Rightarrow> string) \<Rightarrow> string \<Rightarrow> string \<Rightarrow> string \<Rightarrow> string" where
  "sign_jwt cr b64 key header payload =
     (let signing_input = b64 header @ CHR ''.'' # b64 payload
      in signing_input @ CHR ''.'' # b64 (cr_hmac cr key signing_input))"

definition mint_jwt ::
  "crates \<Rightarrow> (string \<Rightarrow> string) \<Rightarrow> (json \<Rightarrow> string) \<Rightarrow> int \<Rightarrow>
   string \<Rightarrow> string \<Rightarrow> string \<Rightarrow> string \<Rightarrow> string \<Rightarrow> int \<Rightarrow> string"
where
  "mint_jwt cr b64 to_vec now key aud sub guild_id role_id exp =
     sign_jwt cr b64 key
       (to_vec (JObj [(''alg'', JStr ''HS256''), (''typ'', JStr ''JWT'')]))
       (to_vec (JObj [(''iss'', JStr ''rolelogic''), (''aud'', JStr aud), (''sub'', JStr sub),
                      (''guild_id'', JStr guild_id), (''role_id'', JStr role_id),
                      (''iat'', json_of_i64 now), (''exp'', json_of_i64 exp)]))"

definition far_future :: "int \<Rightarrow> int" where "far_future now = now + 3600"

definition jwt_round_trip :: "crates \<Rightarrow> (string \<Rightarrow> string) \<Rightarrow> (json \<Rightarrow> string) \<Rightarrow> int \<Rightarrow> bool" where
  "jwt_round_trip cr b64 to_vec now \<longleftrightarrow>
     (case verify cr now
             (mint_jwt cr b64 to_vec now role_token plugin_aud ''user1'' ''g1'' ''r1'' (far_future now))
             role_token plugin_aud of
        Inr v \<Rightarrow> v_discord_id v = ''user1'' \<and> v_guild v = ''g1'' \<and> v_role v = ''r1''
      | Inl _ \<Rightarrow> False)"

definition jwt_audience_trailing_slash_tolerated ::
  "crates \<Rightarrow> (string \<Rightarrow> string) \<Rightarrow> (json \<Rightarrow> string) \<Rightarrow> int \<Rightarrow> bool"
where
  "jwt_audience_trailing_slash_tolerated cr b64 to_vec now \<longleftrightarrow>
     (let minted = (\<lambda>aud. mint_jwt cr b64 to_vec now role_token aud ''u'' ''g'' ''r'' (far_future now))
      in \<not> isl (verify cr now (minted (plugin_aud @ ''/'')) role_token plugin_aud) \<and>
         \<not> isl (verify cr now (minted plugin_aud) role_token (plugin_aud @ ''/'')))"

definition jwt_rejects_wrong_aud :: "crates \<Rightarrow> (string \<Rightarrow> string) \<Rightarrow> (json \<Rightarrow> string) \<Rightarrow> int \<Rightarrow> bool" where
  "jwt_rejects_wrong_aud cr b64 to_vec now \<longleftrightarrow>
     verify cr now
       (mint_jwt cr b64 to_vec now role_token ''https://other-plugin.example'' ''u'' ''g'' ''r'' (far_future now))
       role_token plugin_aud = Inl WrongAudience"

definition forged_header :: string where
  "forged_header = quoted ''{~alg~:~HS256~,~typ~:~JWT~}''"

definition jwt_rejects_wrong_issuer :: "crates \<Rightarrow> (string \<Rightarrow> string) \<Rightarrow> (json \<Rightarrow> string) \<Rightarrow> int \<Rightarrow> bool" where
  "jwt_rejects_wrong_issuer cr b64 to_vec now \<longleftrightarrow>
     verify cr now
       (sign_jwt cr b64 role_token forged_header
         (to_vec (JObj [(''iss'', JStr ''attacker''), (''aud'', JStr plugin_aud), (''sub'', JStr ''u''),
            (''guild_id'', JStr ''g''), (''role_id'', JStr ''r''), (''exp'', json_of_i64 (far_future now))])))
       role_token plugin_aud = Inl WrongIssuer"

definition jwt_rejects_bad_signature :: "crates \<Rightarrow> (string \<Rightarrow> string) \<Rightarrow> (json \<Rightarrow> string) \<Rightarrow> int \<Rightarrow> bool" where
  "jwt_rejects_bad_signature cr b64 to_vec now \<longleftrightarrow>
     verify cr now (mint_jwt cr b64 to_vec now role_token plugin_aud ''u'' ''g'' ''r'' (far_future now))
       ''different-role-token'' plugin_aud = Inl BadSignature"

definition jwt_rejects_expired :: "crates \<Rightarrow> (string \<Rightarrow> string) \<Rightarrow> (json \<Rightarrow> string) \<Rightarrow> int \<Rightarrow> bool" where
  "jwt_rejects_expired cr b64 to_vec now \<longleftrightarrow>
     verify cr now (mint_jwt cr b64 to_vec now role_token plugin_aud ''u'' ''g'' ''r'' (now - 300))
       role_token plugin_aud = Inl Expired"

definition none_header :: string where
  "none_header = quoted ''{~alg~:~none~,~typ~:~JWT~}''"

definition none_payload :: string where
  "none_payload = quoted (''{~iss~:~rolelogic~,~aud~:~x~,~sub~:~u~,~guild_id~:~g~,~role_id~:~r~,'' @
     ''~exp~:99999999999}'')"

definition jwt_rejects_non_hs256_alg :: "crates \<Rightarrow> (string \<Rightarrow> string) \<Rightarrow> int \<Rightarrow> bool" where
  "jwt_rejects_non_hs256_alg cr b64 now \<longleftrightarrow>
     verify cr now (b64 none_header @ ''.'' @ b64 none_payload @ ''.'') role_token plugin_aud
       \<in> {Inl BadSignature, Inl Malformed}"

definition jwt_rejects_malformed :: "crates \<Rightarrow> int \<Rightarrow> bool" where
  "jwt_rejects_malformed cr now \<longleftrightarrow>
     (\<forall>t \<in> set [''not-a-jwt'', ''only.two'', ''a.b.c.d'']. verify cr now t role_token plugin_aud = Inl Malformed)"

text \<open>
  What the encoders of the tests promise: base64 and JSON read back what was written, and base64 never
  writes the separator.
\<close>

definition encodes :: "crates \<Rightarrow> (string \<Rightarrow> string) \<Rightarrow> (json \<Rightarrow> string) \<Rightarrow> bool" where
  "encodes cr b64 to_vec \<longleftrightarrow>
     (\<forall>s. cr_b64_decode cr (b64 s) = Some s \<and> CHR ''.'' \<notin> set (b64 s)) \<and>
     (\<forall>v. cr_json cr (to_vec v) = Inr v)"

lemma cteq_test: "cteq_equal_and_unequal"
  by (simp add: sec_test_defs constant_time_eq_iff)

lemma verify_signed:
  assumes b64: "\<And>s. cr_b64_decode cr (b64 s) = Some s \<and> CHR ''.'' \<notin> set (b64 s)"
    and header: "cr_json cr header = Inr (JObj [(''alg'', JStr ''HS256''), (''typ'', JStr ''JWT'')])"
    and payload: "cr_json cr payload = Inr v" "decode_claims v = Some c"
  shows "verify cr now (sign_jwt cr b64 key header payload) key' aud =
    (if cr_hmac cr key (b64 header @ CHR ''.'' # b64 payload)
          \<noteq> cr_hmac cr key' (b64 header @ CHR ''.'' # b64 payload) then Inl BadSignature
     else if cl_iss c \<noteq> ''rolelogic'' then Inl WrongIssuer
     else if \<not> aud_matches (cl_aud c) aud then Inl WrongAudience
     else if now > i64_add (cl_exp c) allowed_skew_secs then Inl Expired
     else Inr \<lparr>v_discord_id = cl_sub c, v_guild = cl_guild c, v_role = cl_role c,
               v_read_only = cl_read_only c, v_actor = cl_act c\<rparr>)"
proof -
  have three: "(3 :: nat) = Suc (Suc (Suc 0))" by simp
  have parts: "splitn 3 (CHR ''.'') (sign_jwt cr b64 key header payload) =
    [b64 header, b64 payload, b64 (cr_hmac cr key (b64 header @ CHR ''.'' # b64 payload))]"
    using b64 by (simp add: sign_jwt_def Let_def three)
  have head: "from_slice cr decode_header header = Inr \<lparr>h_alg = ''HS256'', h_typ = Some ''JWT''\<rparr>"
    by (simp add: from_slice_def parse_as_def header decode_header_def req_def opt_field_def dflt_def
        optional_def)
  have body: "from_slice cr decode_claims payload = Inr c"
    by (simp add: from_slice_def parse_as_def payload)
  have lower: "to_ascii_lowercase ''JWT'' = ''jwt''" by code_simp
  show ?thesis unfolding verify_def parts by (simp add: b64 head body lower guard_def)
qed

text \<open>Five of the tests mint a token and verify it.\<close>

lemma minted_claims:
  "in_i64 exp \<Longrightarrow>
   decode_claims (JObj [(''iss'', JStr ''rolelogic''), (''aud'', JStr aud), (''sub'', JStr sub),
     (''guild_id'', JStr g), (''role_id'', JStr r), (''iat'', json_of_i64 at), (''exp'', json_of_i64 exp)]) =
   Some \<lparr>cl_iss = ''rolelogic'', cl_aud = aud, cl_sub = sub, cl_guild = g, cl_role = r, cl_exp = exp,
         cl_read_only = False, cl_act = None\<rparr>"
  by (simp add: decode_claims_def req_def dflt_def opt_field_def)

lemma verify_minted:
  "encodes cr b64 to_vec \<Longrightarrow> in_i64 exp \<Longrightarrow>
   verify cr now (mint_jwt cr b64 to_vec at key aud sub g r exp) key aud' =
    (if \<not> aud_matches aud aud' then Inl WrongAudience
     else if now > i64_add exp allowed_skew_secs then Inl Expired
     else Inr \<lparr>v_discord_id = sub, v_guild = g, v_role = r, v_read_only = False, v_actor = None\<rparr>)"
  by (simp add: mint_jwt_def encodes_def verify_signed minted_claims)

lemma plugin_aud_slash: "aud_matches (plugin_aud @ ''/'') plugin_aud" "aud_matches plugin_aud (plugin_aud @ ''/'')"
  "aud_matches plugin_aud plugin_aud" "\<not> aud_matches ''https://other-plugin.example'' plugin_aud"
  by code_simp+

lemma jwt_tests:
  assumes "encodes cr b64 to_vec" "0 \<le> now" "now + 4000 \<le> i64_max"
  shows "jwt_round_trip cr b64 to_vec now" "jwt_audience_trailing_slash_tolerated cr b64 to_vec now"
    "jwt_rejects_wrong_aud cr b64 to_vec now" "jwt_rejects_expired cr b64 to_vec now"
proof -
  have [simp]: "in_i64 (far_future now)" "in_i64 (now - 300)"
    "\<not> now > i64_add (far_future now) allowed_skew_secs" "now > i64_add (now - 300) allowed_skew_secs"
    using assms(2,3)
    by (simp_all add: far_future_def allowed_skew_secs_def in_i64_def i64_min_def i64_max_def i64_add_id)
  note minted = verify_minted [OF assms(1)] plugin_aud_slash Let_def
  show "jwt_round_trip cr b64 to_vec now" by (simp add: jwt_round_trip_def minted)
  show "jwt_audience_trailing_slash_tolerated cr b64 to_vec now"
    by (simp add: jwt_audience_trailing_slash_tolerated_def minted)
  show "jwt_rejects_wrong_aud cr b64 to_vec now" by (simp add: jwt_rejects_wrong_aud_def minted)
  show "jwt_rejects_expired cr b64 to_vec now" by (simp add: jwt_rejects_expired_def minted)
qed

text \<open>A hypothesis for each forgery: what the crates answer on the test's own input.\<close>

lemma jwt_test_bad_signature:
  "encodes cr b64 to_vec \<Longrightarrow> in_i64 (far_future now) \<Longrightarrow>
   (\<And>m. cr_hmac cr role_token m \<noteq> cr_hmac cr ''different-role-token'' m) \<Longrightarrow>
   jwt_rejects_bad_signature cr b64 to_vec now"
  by (simp add: jwt_rejects_bad_signature_def mint_jwt_def encodes_def verify_signed minted_claims)

lemma jwt_test_wrong_issuer:
  assumes "encodes cr b64 to_vec" "in_i64 (far_future now)"
    and "cr_json cr forged_header = Inr (JObj [(''alg'', JStr ''HS256''), (''typ'', JStr ''JWT'')])"
  shows "jwt_rejects_wrong_issuer cr b64 to_vec now"
  using assms
  by (simp add: jwt_rejects_wrong_issuer_def encodes_def verify_signed decode_claims_def req_def dflt_def
      opt_field_def)

lemma jwt_test_alg_none:
  assumes "encodes cr b64 to_vec"
    and "cr_json cr none_header = Inr (JObj [(''alg'', JStr ''none''), (''typ'', JStr ''JWT'')])"
  shows "jwt_rejects_non_hs256_alg cr b64 now"
proof -
  have three: "(3 :: nat) = Suc (Suc (Suc 0))" by simp
  have parts: "splitn 3 (CHR ''.'') (b64 none_header @ ''.'' @ b64 none_payload @ ''.'') = [b64 none_header, b64 none_payload, []]"
    using assms(1) by (simp add: encodes_def three)
  have "from_slice cr decode_header none_header = Inr \<lparr>h_alg = ''none'', h_typ = Some ''JWT''\<rparr>"
    by (simp add: from_slice_def parse_as_def assms(2) decode_header_def req_def opt_field_def dflt_def
        optional_def)
  then show ?thesis
    using assms(1) unfolding jwt_rejects_non_hs256_alg_def verify_def parts
    by (cases "cr_b64_decode cr []") (simp_all add: encodes_def guard_def)
qed

lemma jwt_test_malformed:
  assumes "cr_b64_decode cr ''a'' = None"
  shows "jwt_rejects_malformed cr now"
proof -
  have "splitn 3 (CHR ''.'') ''not-a-jwt'' = [''not-a-jwt'']"
    "splitn 3 (CHR ''.'') ''only.two'' = [''only'', ''two'']"
    "splitn 3 (CHR ''.'') ''a.b.c.d'' = [''a'', ''b'', ''c.d'']" by code_simp+
  with assms show ?thesis by (simp add: jwt_rejects_malformed_def verify_def)
qed

subsection \<open>\<open>rl_token.rs\<close>: the editor's session\<close>

definition iframe_session_round_trip :: "crates \<Rightarrow> int \<Rightarrow> bool" where
  "iframe_session_round_trip cr now \<longleftrightarrow>
     (case verify_iframe_session cr now
             (mint_iframe_session cr now ''user1'' ''g1'' ''r1'' False test_secret) test_secret of
        Some s \<Rightarrow> if_discord_id s = ''user1'' \<and> if_guild s = ''g1'' \<and> if_role s = ''r1'' \<and> \<not> if_read_only s
      | None \<Rightarrow> False)"

definition iframe_session_read_only_round_trip :: "crates \<Rightarrow> int \<Rightarrow> bool" where
  "iframe_session_read_only_round_trip cr now \<longleftrightarrow>
     (case verify_iframe_session cr now
             (mint_iframe_session cr now ''user1'' ''g1'' ''r1'' True test_secret) test_secret of
        Some s \<Rightarrow> if_read_only s | None \<Rightarrow> False)"

text \<open>The six fields of a minted token, as the forging tests cut them.\<close>

definition iframe_parts :: "string \<Rightarrow> string list" where
  "iframe_parts token =
     (case strip_prefix iframe_prefix token of Some rest \<Rightarrow> splitn 6 colon rest | None \<Rightarrow> [])"

definition join_fields :: "string list \<Rightarrow> string" where
  "join_fields fs = iframe_prefix @ hd fs @ concat (map (\<lambda>f. colon # f) (tl fs))"

definition iframe_session_read_only_cannot_be_flipped :: "crates \<Rightarrow> int \<Rightarrow> bool" where
  "iframe_session_read_only_cannot_be_flipped cr now \<longleftrightarrow>
     (let parts = iframe_parts (mint_iframe_session cr now ''alice'' ''g1'' ''r1'' True test_secret);
          forged = join_fields [parts ! 0, parts ! 1, parts ! 2, ''0'', parts ! 4, parts ! 5]
      in verify_iframe_session cr now forged test_secret = None)"

definition iframe_session_rejects_wrong_secret :: "crates \<Rightarrow> int \<Rightarrow> bool" where
  "iframe_session_rejects_wrong_secret cr now \<longleftrightarrow>
     verify_iframe_session cr now (mint_iframe_session cr now ''u'' ''g'' ''r'' False test_secret)
       ''wrong-secret'' = None"

definition iframe_session_rejects_pivot :: "crates \<Rightarrow> int \<Rightarrow> bool" where
  "iframe_session_rejects_pivot cr now \<longleftrightarrow>
     (let parts = iframe_parts (mint_iframe_session cr now ''alice'' ''g1'' ''r1'' False test_secret);
          forged = join_fields [parts ! 0, parts ! 1, ''r2'', parts ! 3, parts ! 4, parts ! 5]
      in verify_iframe_session cr now forged test_secret = None)"

definition iframe_session_rejects_missing_prefix :: "crates \<Rightarrow> int \<Rightarrow> bool" where
  "iframe_session_rejects_missing_prefix cr now \<longleftrightarrow>
     (case strip_prefix ''ifs:'' (mint_iframe_session cr now ''u'' ''g'' ''r'' False test_secret) of
        Some no_prefix \<Rightarrow> verify_iframe_session cr now no_prefix test_secret = None | None \<Rightarrow> False)"

definition test_payload :: "string \<Rightarrow> string \<Rightarrow> string \<Rightarrow> string \<Rightarrow> int \<Rightarrow> string" where
  "test_payload did g r ro now = iframe_payload did g r ro (show_int (i64_add now iframe_ttl_secs))"

lemma six: "(6 :: nat) = Suc (Suc (Suc (Suc (Suc (Suc 0)))))" by simp

lemma iframe_session_tests:
  assumes "in_i64 (now + iframe_ttl_secs)"
  shows "iframe_session_round_trip cr now" "iframe_session_read_only_round_trip cr now"
    "iframe_session_rejects_missing_prefix cr now"
proof -
  have "now \<le> now + iframe_ttl_secs" by (simp add: iframe_ttl_secs_def)
  note accepted = mint_iframe_accepted [OF _ _ _ assms this]
  show "iframe_session_round_trip cr now" by (simp add: iframe_session_round_trip_def accepted)
  show "iframe_session_read_only_round_trip cr now"
    by (simp add: iframe_session_read_only_round_trip_def accepted)
  show "iframe_session_rejects_missing_prefix cr now"
    by (simp add: iframe_session_rejects_missing_prefix_def mint_iframe_session_def iframe_prefix_def
        iframe_payload_def verify_iframe_session_def Let_def)
qed

text \<open>A token presented with fields of its own fails when the MACs of the two payloads differ.\<close>

lemma forged_session_rejected:
  assumes "colon \<notin> set did" "colon \<notin> set g" "colon \<notin> set r" "colon \<notin> set ro" "colon \<notin> set e"
    and "sig \<noteq> cr_hmac_hex cr secret (iframe_payload did g r ro e)"
  shows "verify_iframe_session cr now (join_fields [did, g, r, ro, e, sig]) secret = None"
  using assms
  by (simp add: verify_iframe_session_def join_fields_def six constant_time_eq_iff split: option.splits)

lemma minted_parts:
  assumes "colon \<notin> set did" "colon \<notin> set g" "colon \<notin> set r"
  shows "iframe_parts (mint_iframe_session cr now did g r b secret) =
    [did, g, r, if b then ''1'' else ''0'', show_int (i64_add now iframe_ttl_secs),
     cr_hmac_hex cr secret (test_payload did g r (if b then ''1'' else ''0'') now)]"
  using assms
  by (simp add: iframe_parts_def mint_iframe_session_def iframe_payload_def test_payload_def Let_def six)

lemma iframe_forgery_tests:
  "cr_hmac_hex cr test_secret (test_payload ''alice'' ''g1'' ''r1'' ''1'' now)
     \<noteq> cr_hmac_hex cr test_secret (test_payload ''alice'' ''g1'' ''r1'' ''0'' now) \<Longrightarrow>
   iframe_session_read_only_cannot_be_flipped cr now"
  "cr_hmac_hex cr test_secret (test_payload ''alice'' ''g1'' ''r1'' ''0'' now)
     \<noteq> cr_hmac_hex cr test_secret (test_payload ''alice'' ''g1'' ''r2'' ''0'' now) \<Longrightarrow>
   iframe_session_rejects_pivot cr now"
  "cr_hmac_hex cr test_secret (test_payload ''u'' ''g'' ''r'' ''0'' now)
     \<noteq> cr_hmac_hex cr ''wrong-secret'' (test_payload ''u'' ''g'' ''r'' ''0'' now) \<Longrightarrow>
   iframe_session_rejects_wrong_secret cr now"
proof -
  show "iframe_session_read_only_cannot_be_flipped cr now"
    if "cr_hmac_hex cr test_secret (test_payload ''alice'' ''g1'' ''r1'' ''1'' now)
      \<noteq> cr_hmac_hex cr test_secret (test_payload ''alice'' ''g1'' ''r1'' ''0'' now)"
    using that
    by (simp add: iframe_session_read_only_cannot_be_flipped_def minted_parts forged_session_rejected
        test_payload_def Let_def)
  show "iframe_session_rejects_pivot cr now"
    if "cr_hmac_hex cr test_secret (test_payload ''alice'' ''g1'' ''r1'' ''0'' now)
      \<noteq> cr_hmac_hex cr test_secret (test_payload ''alice'' ''g1'' ''r2'' ''0'' now)"
    using that
    by (simp add: iframe_session_rejects_pivot_def minted_parts forged_session_rejected
        test_payload_def Let_def)
  have "mint_iframe_session cr now ''u'' ''g'' ''r'' False test_secret =
    join_fields [''u'', ''g'', ''r'', ''0'', show_int (i64_add now iframe_ttl_secs),
      cr_hmac_hex cr test_secret (test_payload ''u'' ''g'' ''r'' ''0'' now)]"
    by (simp add: mint_iframe_session_def join_fields_def iframe_payload_def test_payload_def Let_def)
  then show "iframe_session_rejects_wrong_secret cr now"
    if "cr_hmac_hex cr test_secret (test_payload ''u'' ''g'' ''r'' ''0'' now)
      \<noteq> cr_hmac_hex cr ''wrong-secret'' (test_payload ''u'' ''g'' ''r'' ''0'' now)"
    using that by (simp add: iframe_session_rejects_wrong_secret_def forged_session_rejected test_payload_def)
qed

subsection \<open>\<open>session.rs\<close>\<close>

definition cookie_secret :: string where
  "cookie_secret = ''test-secret-do-not-use-in-production''"

definition far_past :: "int \<Rightarrow> int" where "far_past now = now - 3600"

definition verify_round_trip :: "crates \<Rightarrow> int \<Rightarrow> bool" where
  "verify_round_trip cr now \<longleftrightarrow>
     verify_session cr now (mint_session cr ''123'' ''Alice'' (far_future now) cookie_secret) cookie_secret
       = Some (''123'', ''Alice'')"

text \<open>The display name is the UTF-8 encoding of the test's.\<close>

definition unicode_name :: string where
  "unicode_name = ''Ali'' @ CHR 0xC3 # CHR 0xA7 # ''e '' @ [CHR 0xF0, CHR 0x9F, CHR 0xA6, CHR 0x80]"

definition verify_unicode_display_name :: "crates \<Rightarrow> int \<Rightarrow> bool" where
  "verify_unicode_display_name cr now \<longleftrightarrow>
     (case verify_session cr now (mint_session cr ''123'' unicode_name (far_future now) cookie_secret)
             cookie_secret of
        Some (_, name) \<Rightarrow> name = unicode_name | None \<Rightarrow> False)"

definition verify_rejects_expired :: "crates \<Rightarrow> int \<Rightarrow> bool" where
  "verify_rejects_expired cr now \<longleftrightarrow>
     verify_session cr now (mint_session cr ''123'' ''Alice'' (far_past now) cookie_secret) cookie_secret = None"

definition verify_rejects_tampered_signature :: "crates \<Rightarrow> int \<Rightarrow> bool" where
  "verify_rejects_tampered_signature cr now \<longleftrightarrow>
     (let c = mint_session cr ''123'' ''Alice'' (far_future now) cookie_secret;
          tampered = butlast c @ [if last c = CHR ''0'' then CHR ''1'' else CHR ''0'']
      in verify_session cr now tampered cookie_secret = None)"

definition verify_rejects_wrong_secret :: "crates \<Rightarrow> int \<Rightarrow> bool" where
  "verify_rejects_wrong_secret cr now \<longleftrightarrow>
     verify_session cr now (mint_session cr ''123'' ''Alice'' (far_future now) cookie_secret)
       ''different-secret'' = None"

text \<open>What the tests need of \<open>urlencoding\<close> and \<open>hex\<close>.\<close>

definition url_codec :: "crates \<Rightarrow> bool" where
  "url_codec cr \<longleftrightarrow>
     (\<forall>s. cr_url_decode cr (cr_url_encode cr s) = Some s \<and> colon \<notin> set (cr_url_encode cr s))"

lemma four: "(4 :: nat) = Suc (Suc (Suc (Suc 0)))" by simp

lemma cookie_tests:
  assumes "url_codec cr" "0 \<le> now" "in_i64 (far_future now)"
  shows "verify_round_trip cr now" "verify_unicode_display_name cr now" "verify_rejects_expired cr now"
proof -
  have later: "now \<le> far_future now" by (simp add: far_future_def)
  note accepted = mint_session_accepted [OF _ _ assms(3) later]
  show "verify_round_trip cr now"
    using assms(1) by (simp add: verify_round_trip_def accepted url_codec_def)
  show "verify_unicode_display_name cr now"
    using assms(1) by (simp add: verify_unicode_display_name_def accepted url_codec_def)
  have "parse_i64 (show_int (far_past now)) = Some (far_past now)" "now > far_past now"
    using assms(2,3) by (simp_all add: parse_show_int far_past_def far_future_def in_i64_def i64_min_def)
  with assms(1) show "verify_rejects_expired cr now"
    by (simp add: verify_rejects_expired_def verify_session_def mint_session_def cookie_payload_def
        url_codec_def Let_def four)
qed

lemma cookie_other_tag:
  "url_codec cr \<Longrightarrow> sig \<noteq> cr_hmac_hex cr secret (cookie_payload did (cr_url_encode cr name) (show_int e)) \<Longrightarrow>
   colon \<notin> set did \<Longrightarrow>
   verify_session cr now (cookie_payload did (cr_url_encode cr name) (show_int e) @ colon # sig) secret = None"
  by (simp add: verify_session_def cookie_payload_def url_codec_def four constant_time_eq_iff
      split: option.splits)

lemma cookie_test_tampered:
  assumes "url_codec cr" "\<And>m. cr_hex cr m \<noteq> []"
  shows "verify_rejects_tampered_signature cr now"
proof -
  let ?p = "cookie_payload ''123'' (cr_url_encode cr ''Alice'') (show_int (far_future now))"
  let ?tag = "cr_hmac_hex cr cookie_secret ?p"
  have tag: "?tag \<noteq> []" using assms(2) by (simp add: cr_hmac_hex_def)
  have cookie: "mint_session cr ''123'' ''Alice'' (far_future now) cookie_secret = ?p @ colon # ?tag"
    by (simp add: mint_session_def Let_def)
  have "butlast ?tag @ [x] \<noteq> ?tag" if "x \<noteq> last ?tag" for x
    using that by (metis last_snoc)
  then have "verify_session cr now (?p @ colon # butlast ?tag @ [x]) cookie_secret = None"
    if "x \<noteq> last ?tag" for x
    using that by (intro cookie_other_tag assms(1)) simp_all
  moreover have "butlast (?p @ colon # ?tag) = ?p @ colon # butlast ?tag" "last (?p @ colon # ?tag) = last ?tag"
    using tag by (simp_all add: butlast_append)
  ultimately show ?thesis
    unfolding verify_rejects_tampered_signature_def Let_def cookie by simp
qed

lemma cookie_test_wrong_secret:
  "url_codec cr \<Longrightarrow> (\<And>m. cr_hmac_hex cr cookie_secret m \<noteq> cr_hmac_hex cr ''different-secret'' m) \<Longrightarrow>
   verify_rejects_wrong_secret cr now"
  by (simp add: verify_rejects_wrong_secret_def mint_session_def Let_def cookie_other_tag)

subsection \<open>\<open>csrf.rs\<close>\<close>

definition headers_with_origin :: "string \<Rightarrow> incoming" where
  [sec_test_defs]: "headers_with_origin origin = \<lparr>in_header = [''origin'' \<mapsto> origin], in_cookie = None\<rparr>"

definition test_allowed :: "string list" where
  [sec_test_defs]: "test_allowed = [''https://app.rolelogic.com'', ''https://plugin.example.com'']"

definition accepts_exact_match :: bool where
  [sec_test_defs]: "accepts_exact_match \<longleftrightarrow>
     \<not> isl (verify_origin (headers_with_origin ''https://app.rolelogic.com'') test_allowed)"

definition accepts_trailing_slash :: bool where
  [sec_test_defs]: "accepts_trailing_slash \<longleftrightarrow>
     \<not> isl (verify_origin (headers_with_origin ''https://app.rolelogic.com/'') test_allowed)"

definition rejects_missing_origin_header :: bool where
  [sec_test_defs]: "rejects_missing_origin_header \<longleftrightarrow>
     (case verify_origin \<lparr>in_header = Map.empty, in_cookie = None\<rparr> test_allowed of
        Inl (Forbidden _) \<Rightarrow> True | _ \<Rightarrow> False)"

definition rejects_attacker_origin :: bool where
  [sec_test_defs]: "rejects_attacker_origin \<longleftrightarrow>
     isl (verify_origin (headers_with_origin ''https://evil.example'') test_allowed)"

definition rejects_subdomain_of_allowed :: bool where
  [sec_test_defs]: "rejects_subdomain_of_allowed \<longleftrightarrow>
     isl (verify_origin (headers_with_origin ''https://attacker.rolelogic.com'') test_allowed)"

definition rejects_scheme_downgrade :: bool where
  [sec_test_defs]: "rejects_scheme_downgrade \<longleftrightarrow>
     isl (verify_origin (headers_with_origin ''http://app.rolelogic.com'') test_allowed)"

lemma csrf_tests:
  "accepts_exact_match" "accepts_trailing_slash" "rejects_missing_origin_header"
  "rejects_attacker_origin" "rejects_subdomain_of_allowed" "rejects_scheme_downgrade"
  by (simp_all add: sec_test_defs verify_origin_def trim_end_matches_def)

subsection \<open>\<open>crypto.rs\<close>\<close>

definition round_trip_short :: "crates \<Rightarrow> u8 list \<Rightarrow> bool" where
  "round_trip_short cr nonce \<longleftrightarrow>
     decrypt cr test_secret (encrypt cr nonce test_secret (bytes ''hello'')) = Inr (bytes ''hello'')"

definition real_token :: "u8 list" where
  "real_token = bytes ''eyJraWQiOiJ4Iiwic28iOiJiYXIiLCJ0eXAiOiJKV1QiLCJhbGciOiJIUzI1NiJ9.payload.sig''"

definition round_trip_real_token_size :: "crates \<Rightarrow> u8 list \<Rightarrow> bool" where
  "round_trip_real_token_size cr nonce \<longleftrightarrow>
     (let ct = encrypt cr nonce test_secret real_token
      in ct \<noteq> real_token \<and> decrypt cr test_secret ct = Inr real_token)"

definition nonce_is_unique :: "crates \<Rightarrow> u8 list \<Rightarrow> u8 list \<Rightarrow> bool" where
  "nonce_is_unique cr n1 n2 \<longleftrightarrow>
     encrypt cr n1 test_secret (bytes ''same-plaintext'') \<noteq> encrypt cr n2 test_secret (bytes ''same-plaintext'')"

definition wrong_secret_fails :: "crates \<Rightarrow> u8 list \<Rightarrow> bool" where
  "wrong_secret_fails cr nonce \<longleftrightarrow> isl (decrypt cr ''wrong-secret'' (encrypt cr nonce test_secret (bytes ''x'')))"

definition tampered :: "u8 list \<Rightarrow> u8 list" where
  "tampered ct = ct[length ct - 1 := xor (ct ! (length ct - 1)) 1]"

definition tampered_ciphertext_fails :: "crates \<Rightarrow> u8 list \<Rightarrow> bool" where
  "tampered_ciphertext_fails cr nonce \<longleftrightarrow>
     isl (decrypt cr test_secret (tampered (encrypt cr nonce test_secret (bytes ''x''))))"

definition too_short_blob_errors :: "crates \<Rightarrow> bool" where
  "too_short_blob_errors cr \<longleftrightarrow> decrypt cr test_secret (bytes ''abc'') = Inl TooShort"

lemma crypto_tests:
  assumes "aead_ok cr" "length n1 = nonce_bytes"
  shows "round_trip_short cr n1" "round_trip_real_token_size cr n1" "too_short_blob_errors cr"
    "length n2 = nonce_bytes \<Longrightarrow> n1 \<noteq> n2 \<Longrightarrow> nonce_is_unique cr n1 n2"
proof -
  show "round_trip_short cr n1" using assms by (simp add: round_trip_short_def decrypt_encrypt)
  show "too_short_blob_errors cr"
    by (simp add: too_short_blob_errors_def decrypt_def nonce_bytes_def bytes_def)
  have "length (encrypt cr n1 test_secret real_token) \<noteq> length real_token"
    using assms by (simp add: encrypt_def aead_ok_def nonce_bytes_def)
  then show "round_trip_real_token_size cr n1"
    using assms by (auto simp: round_trip_real_token_size_def decrypt_encrypt Let_def)
  show "nonce_is_unique cr n1 n2" if "length n2 = nonce_bytes" "n1 \<noteq> n2"
    using that assms(2) by (simp add: nonce_is_unique_def encrypt_def)
qed

text \<open>
  The last two tests rest on what the AEAD itself rejects: another key's message, and a message with a
  flipped bit.
\<close>

lemma crypto_test_wrong_secret:
  "length nonce = nonce_bytes \<Longrightarrow>
   cr_open cr (cr_hkdf cr ''wrong-secret'') nonce aad (cr_seal cr (cr_hkdf cr test_secret) nonce aad (bytes ''x'')) = None
   \<Longrightarrow> wrong_secret_fails cr nonce"
  by (simp add: wrong_secret_fails_def decrypt_def encrypt_def ok_or_def)

lemma crypto_test_tampered:
  assumes "length nonce = nonce_bytes" "c = cr_seal cr (cr_hkdf cr test_secret) nonce aad (bytes ''x'')" "c \<noteq> []"
    and "cr_open cr (cr_hkdf cr test_secret) nonce aad (tampered c) = None"
  shows "tampered_ciphertext_fails cr nonce"
proof -
  have "tampered (nonce @ c) = nonce @ tampered c"
  proof -
    have last: "length (nonce @ c) - 1 = length nonce + (length c - 1)" using assms(3) by (cases c) auto
    show ?thesis unfolding tampered_def last by (simp add: list_update_append nth_append)
  qed
  with assms show ?thesis
    by (simp add: tampered_ciphertext_fails_def decrypt_def encrypt_def ok_or_def)
qed

subsection \<open>\<open>bsky.rs\<close> and \<open>rolelogic.rs\<close>\<close>

definition handle_domain_basic :: bool where
  "handle_domain_basic \<longleftrightarrow>
     handle_domain ''alice.bsky.social'' = Some ''bsky.social'' \<and>
     handle_domain ''ALICE.BSKY.SOCIAL'' = Some ''bsky.social'' \<and>
     handle_domain ''custom.example.com'' = Some ''example.com'' \<and>
     handle_domain ''no-dots'' = None \<and> handle_domain [] = None"

definition is_custom_domain_basic :: bool where
  "is_custom_domain_basic \<longleftrightarrow>
     \<not> is_custom_domain ''alice.bsky.social'' \<and> is_custom_domain ''alice.example.com'' \<and>
     is_custom_domain ''alice.example.bsky.social.fake'' \<and> \<not> is_custom_domain ''no-dots''"

definition profile_url_format :: bool where
  "profile_url_format \<longleftrightarrow> profile_url ''alice.bsky.social'' = ''https://bsky.app/profile/alice.bsky.social''"

text \<open>The bodies RoleLogic sends; the first has an em dash, in UTF-8.\<close>

definition paused :: string where
  "paused = quoted (''{~errors~:~This role link is paused '' @ [CHR 0xE2, CHR 0x80, CHR 0x94] @
     '' integration slots quota exceeded. Upgrade for more integration slots or delete other role links.~,'' @
     ''~requestId~:~r~}'')"

definition disabled :: string where
  "disabled = quoted ''{~errors~:~This role link is disabled~,~requestId~:~r~}''"

definition gone :: string where
  "gone = quoted ''{~errors~:~Invalid or revoked token~,~requestId~:~r~}''"

definition held :: string where
  "held = quoted (''{~errors~:{~error~:~confirm_required~,~code~:~shrink~,~change_id~:~c~,'' @
     ''~previous~:2,~next~:0,~removals~:2}}'')"

definition paused_and_disabled_links_are_inactive :: bool where
  "paused_and_disabled_links_are_inactive \<longleftrightarrow>
     link_inactive \<lparr>rs_status = 403, rs_body = paused\<rparr> \<and> link_inactive \<lparr>rs_status = 403, rs_body = disabled\<rparr> \<and>
     \<not> link_inactive \<lparr>rs_status = 403, rs_body = gone\<rparr> \<and> \<not> link_inactive \<lparr>rs_status = 500, rs_body = paused\<rparr>"

definition a_shrink_hold_is_only_a_409_confirm_required :: bool where
  "a_shrink_hold_is_only_a_409_confirm_required \<longleftrightarrow>
     removal_held \<lparr>rs_status = 409, rs_body = held\<rparr> \<and>
     \<not> removal_held \<lparr>rs_status = 409, rs_body = quoted ''{~errors~:~Upload already in progress~}''\<rparr> \<and>
     \<not> removal_held \<lparr>rs_status = 403, rs_body = held\<rparr>"

lemma trimmed_handles:
  "trim ''alice.bsky.social'' = ''alice.bsky.social''" "trim ''ALICE.BSKY.SOCIAL'' = ''ALICE.BSKY.SOCIAL''"
  "trim ''custom.example.com'' = ''custom.example.com''" "trim ''no-dots'' = ''no-dots''" "trim [] = []"
  "trim ''alice.example.com'' = ''alice.example.com''"
  "trim ''alice.example.bsky.social.fake'' = ''alice.example.bsky.social.fake''"
  by (rule trim_graph, code_simp)+

lemma bsky_tests: "handle_domain_basic" "is_custom_domain_basic" "profile_url_format"
proof -
  have "to_ascii_lowercase ''alice.bsky.social'' = ''alice.bsky.social''"
    "to_ascii_lowercase ''ALICE.BSKY.SOCIAL'' = ''alice.bsky.social''"
    "to_ascii_lowercase ''custom.example.com'' = ''custom.example.com''"
    "to_ascii_lowercase ''no-dots'' = ''no-dots''" "to_ascii_lowercase [] = []"
    "to_ascii_lowercase ''alice.example.com'' = ''alice.example.com''"
    "to_ascii_lowercase ''alice.example.bsky.social.fake'' = ''alice.example.bsky.social.fake''"
    by code_simp+
  then show "handle_domain_basic" "is_custom_domain_basic"
    by (simp_all add: handle_domain_basic_def is_custom_domain_basic_def handle_domain_def
        is_custom_domain_def trimmed_handles)
  show "profile_url_format" by (simp add: profile_url_format_def profile_url_def)
qed

lemma rolelogic_tests:
  "paused_and_disabled_links_are_inactive" "a_shrink_hold_is_only_a_409_confirm_required"
  by code_simp+

end
