(* ===== verification/Spec2Isabelle.thy ===== *)
theory Spec2Isabelle
  imports Rules_Properties Queue_Properties Process_Properties Race_Properties Tests_Rules Tests_Security
begin

text \<open>
  The Bluesky plugin of RoleLogic: a web service that gives Discord roles to members by what is known
  of their linked Bluesky account.

  \<^bold>\<open>The program.\<close> An admin connects a Bluesky account (the broadcaster) to a Discord server and writes a
  rule for a role in an editor that the RoleLogic dashboard embeds (\<open>routes/admin.rs\<close>). Members link
  their own Bluesky account with an app password (\<open>routes/verify.rs\<close>). RoleLogic registers and removes
  the links between roles and the plugin (\<open>routes/plugin.rs\<close>). Every change queues a job in PostgreSQL
  (\<open>services/jobs.rs\<close>); workers (\<open>tasks/job_worker.rs\<close>) run the jobs: a per-player sync, a bulk sync of
  one role (\<open>services/sync.rs\<close>), or a refresh of what is known about an account
  (\<open>tasks/reconcile.rs\<close>), which also runs by the clock. Who satisfies a rule is decided twice, in Rust
  for one member (\<open>services/condition_eval.rs\<close>) and by a generated SQL query for a whole server
  (\<open>services/rule_sql.rs\<close>).

  \<^bold>\<open>Conventions.\<close> A database is a record of its tables, a table the list of its rows; each SQL statement
  is a function on it, with the constraints and cascades of the migrations. A computation that calls
  another service passes the state of the outside world through the transport \<open>ap_send\<close> of the record
  \<open>app\<close> and returns an error or a value; the database and the world together are the state of a
  handler. The clock \<open>ap_now\<close> stands still during one handler. Functions of other crates (HMAC,
  AES-GCM, base64, the JSON and regular-expression parsers, HKDF) are fields of \<open>crates\<close>; nothing is
  assumed of them but what a theorem names, such as \<open>aead_ok\<close>. Strings are byte strings; \<open>i64\<close>
  arithmetic that may wrap is written out (\<open>i64_add\<close>).

  \<^bold>\<open>The theories.\<close>

  \<^item> \<open>Prelude\<close>, \<open>Json\<close>, \<open>Tables\<close>, \<open>Crates\<close>, \<open>Http\<close>: strings as the sources use them, results and their
  sequencing, the invariants of step relations (\<open>step_invariant\<close>), \<open>serde_json::Value\<close> and the derived
  deserialisers, the statement shapes of SQL and the laws of an upsert (\<open>keyed_table\<close>), the transport.
  \<^item> \<open>Rule_Model\<close>, \<open>Rule_Validator\<close>: \<open>models/*.rs\<close> and \<open>services/rule_validator.rs\<close>, with the
  specification \<open>wf_tree\<close> of a stored rule.
  \<^item> \<open>Condition_Eval\<close>, \<open>Sql\<close>, \<open>Rule_Backends\<close>, \<open>Rule_Sql\<close>, \<open>Rule_Sql_Correct\<close>: the two evaluators, a
  three-valued semantics and a type system of the generated clauses, the contract \<open>dnf_backend\<close> that
  both implement and the refinement between them.
  \<^item> \<open>Errors\<close>, \<open>Config\<close>, \<open>Tokens\<close>, \<open>Token_Laws\<close>: \<open>error.rs\<close>, \<open>config.rs\<close>, \<open>services/rl_token.rs\<close> and
  \<open>services/session.rs\<close>; the contracts \<open>mac_token\<close> and \<open>mac_token_pair\<close> of tagged tokens.
  \<^item> \<open>Rolelogic_Client\<close>, \<open>Bsky_Client\<close>, \<open>Gateway_Client\<close>, \<open>Access\<close>: the clients of the three services and
  the gates of the routes (\<open>services/auth.rs\<close>, \<open>csrf.rs\<close>, \<open>auth_gateway.rs\<close>).
  \<^item> \<open>Schema\<close>, \<open>Job_Queue\<close>, \<open>Broadcaster_Session\<close>: the tables with their invariant \<open>db_ok\<close>, the queue with
  \<open>queue_ok\<close>, the sealed sessions (\<open>services/crypto.rs\<close>, \<open>broadcaster_session.rs\<close>).
  \<^item> \<open>Sync\<close>, \<open>Sync_Laws\<close>, \<open>Sync_Player\<close>, \<open>Reconcile\<close>, \<open>Reconcile_Laws\<close>, \<open>Worker\<close>: the background tasks,
  what each may write, and that a bulk sync and a per-player sync reach what the rules say.
  \<^item> \<open>Remote_Mirror\<close>, \<open>Mirror_Worker\<close>: RoleLogic's own state as a reading of the outside world, its
  documented behaviour as the hypothesis \<open>rolelogic_ok\<close>, and that every job keeps the recorded members
  equal to it. \<open>Queue_Liveness\<close>: how long a job can wait while others are queued, retried and reaped.
  \<^item> \<open>Routes_Plugin\<close>, \<open>Routes_Accounts\<close>, \<open>Routes_Role_Config\<close>, \<open>Routes_Verify\<close>, \<open>Routes_Users\<close>,
  \<open>Routes_Public\<close>, \<open>Pages\<close>, \<open>Page_Texts\<close>: the handlers, one definition each, with every guard in the
  order of the source, their outcomes on each branch, and the documents they write themselves.
  \<^item> \<open>Save_Statements\<close>, \<open>Player_Race\<close>, \<open>Claim_Race\<close>, \<open>Lifecycle\<close>: four places where interleaving is
  modelled finer than by whole handlers: the statements of a save, two syncs of one member, the two halves
  of the claims of several workers (\<open>claim_step\<close>), and the loops of the three background tasks with the shutdown
  channel (\<open>tasks/shutdown.rs\<close>, \<open>job_listener.rs\<close>), a parameter with the one law \<open>delivers_once\<close>.
  \<^item> \<open>Server\<close>: the router of \<open>main.rs\<close> and the whole program as a step relation \<open>system_step\<close> of requests,
  worker passes, reconciliations and changes of the outside world. \<open>Write_Scope\<close>: the permission model of
  the routes, which rows a request with which credential may touch. \<open>Middleware\<close>: the heads of the answers
  and the layers around the router. \<open>Startup\<close>: \<open>db.rs\<close> and \<open>main\<close> from the environment to the bound
  listener, then as a step relation \<open>process_step\<close> to its last join, with \<open>tasks/shutdown.rs\<close>.
  \<^item> \<open>Samples\<close>: concrete values for the witnesses. \<open>Rules_Properties\<close>, \<open>Access_Properties\<close>,
  \<open>Account_Properties\<close>, \<open>Sync_Properties\<close>, \<open>Mirror_Properties\<close>, \<open>Queue_Properties\<close>,
  \<open>Race_Properties\<close>, \<open>Lifecycle_Properties\<close>, \<open>Process_Properties\<close>: the claims. Rules: validation, storage, compilation and
  agreement of the evaluators. Access: who may change what, sessions and entry tokens. Accounts:
  connecting, linking, who sees the members. Sync: what syncs leave behind, uploads, the life of a job.
  Mirror: what RoleLogic holds afterwards. Queue: how long a job waits and when it is given up. Race: claims that overlap, a sync overtaken by another.
  Lifecycle: racing saves, locks taken over, interrupted tasks. Process: who may embed an answer, and
  the end of the process.
  \<^item> \<open>Tests_Rules\<close>, \<open>Tests_Security\<close>: the unit tests of the repository, one definition each, and that the
  model passes them; where a test runs a crate, what the crate answers on its input is a hypothesis.

  \<^bold>\<open>Termination and bounds.\<close> The paging loops of the Bluesky client have no bound of their own, so
  \<open>drain\<close> and everything above it is partial (\<open>None\<close>: it does not return); a claim that a listing
  returns has the behaviour of the server as its hypothesis. The other loops are bounded by the source
  itself (ten pages of lists, chunks of an upload, eight jobs of a pass) and are total functions.

  \<^bold>\<open>Assumptions on the setting.\<close> A handler, a worker pass and a reconciliation are one step each: the
  interleaving of their statements with those of others is not modelled, except in the four theories
  named above and in that a claim may be refused the rows that others hold (\<open>skip\<close>, which \<open>Claim_Race\<close>
  derives from the locks). A statement
  fails only where a constraint of the schema is violated or an operand is out of range; connection
  errors are not modelled. \<open>ORDER BY\<close> on text compares bytes.

  \<^bold>\<open>Not modelled.\<close> What other crates do inside: sqlx behind a statement, the CORS, rate-limit, tracing and
  compression layers (their settings are, and what they hand on is an argument), sockets, the delivery
  of a signal of the system. The files under \<open>templates/\<close> (arguments; their markers, escaping, status
  and headers are modelled), the icon, and log lines.
\<close>

end
